(* ===== verification/Prelude.thy ===== *)
theory Prelude
  imports Complex_Main "HOL-Library.Word" "HOL-Library.AList" "HOL-Library.Sublist"
begin

text \<open>
  Shared notions of the development: the type names of the model, Python's exceptions as values of
  a sum type with sequencing and handlers, and generic lemmas on lists and association lists that
  the component theories use. The collection \<open>py_exec\<close> holds the evaluation rules of fallible
  computations.
\<close>

named_theorems py_exec

section \<open>Types\<close>

type_synonym byte = "8 word"

text \<open>A Python string is a sequence of Unicode code points.\<close>

type_synonym pystr = "nat list"

section \<open>Exceptions\<close>

text \<open>
  The exception classes that the program raises or handles. Messages are kept only where the
  program's behaviour depends on them (the startup error that is sent over the handoff socket,
  the status of an HTTP error, the exit code).
\<close>

datatype pyexn =
    ValueError | UnicodeEncodeError | UnicodeDecodeError | JSONDecodeError
  | TypeError | AttributeError | KeyError | IndexError | OverflowError | StructError
  | OSError | ConnectionError | TimeoutError | FileNotFoundError | ProcessLookupError | PermissionError
  | HTTPException
  | InvalidShareError | ShareReconstructionError | InvalidCryptoFileError
  | ConfigError | ServerStartupError pystr | OwnHostNotFoundError | Key1ReconstructionError
  | PeerRequestError | ShareNotFoundError | SecretNotFoundError
  | ClickException | Abort | SystemExit int | HTTPError nat

type_synonym 'a py = "pyexn + 'a"

text \<open>The subclass relation, as far as handlers of the program use it.\<close>

fun is_value_error :: "pyexn \<Rightarrow> bool" where
  "is_value_error ValueError = True"
| "is_value_error UnicodeEncodeError = True"
| "is_value_error UnicodeDecodeError = True"
| "is_value_error JSONDecodeError = True"
| "is_value_error _ = False"

fun is_os_error :: "pyexn \<Rightarrow> bool" where
  "is_os_error OSError = True"
| "is_os_error ConnectionError = True"
| "is_os_error TimeoutError = True"
| "is_os_error FileNotFoundError = True"
| "is_os_error ProcessLookupError = True"
| "is_os_error PermissionError = True"
| "is_os_error _ = False"

text \<open>\<open>SystemExit\<close> derives from \<open>BaseException\<close> only, so \<open>except Exception\<close> lets it pass.\<close>

fun is_exception :: "pyexn \<Rightarrow> bool" where
  "is_exception (SystemExit _) = False"
| "is_exception _ = True"

section \<open>Sequencing and handlers\<close>

fun bindE :: "'a py \<Rightarrow> ('a \<Rightarrow> 'b py) \<Rightarrow> 'b py" where
  "bindE (Inl e) f = Inl e"
| "bindE (Inr a) f = f a"

fun catchE :: "'a py \<Rightarrow> (pyexn \<Rightarrow> bool) \<Rightarrow> (pyexn \<Rightarrow> 'a py) \<Rightarrow> 'a py" where
  "catchE (Inl e) p h = (if p e then h e else Inl e)"
| "catchE (Inr a) p h = Inr a"

definition of_opt :: "pyexn \<Rightarrow> 'a option \<Rightarrow> 'a py" where
  "of_opt e x = (case x of None \<Rightarrow> Inl e | Some a \<Rightarrow> Inr a)"

lemma of_opt_simps [simp, py_exec]: "of_opt e None = Inl e" "of_opt e (Some a) = Inr a"
  by (simp_all add: of_opt_def)

lemma of_opt_Inr [simp]: "of_opt e x = Inr a \<longleftrightarrow> x = Some a"
  by (cases x) simp_all

lemma of_opt_Inl [simp]: "of_opt e x = Inl e' \<longleftrightarrow> x = None \<and> e' = e"
  by (cases x) auto

lemma bindE_Inr_iff: "bindE m f = Inr b \<longleftrightarrow> (\<exists>a. m = Inr a \<and> f a = Inr b)"
  by (cases m) auto

lemma bindE_Inl_iff: "bindE m f = Inl e \<longleftrightarrow> m = Inl e \<or> (\<exists>a. m = Inr a \<and> f a = Inl e)"
  by (cases m) auto

lemma bindE_assoc: "bindE (bindE m f) g = bindE m (\<lambda>a. bindE (f a) g)"
  by (cases m) simp_all

lemma bindE_cong [fundef_cong]:
  "m = m' \<Longrightarrow> (\<And>a. m' = Inr a \<Longrightarrow> f a = g a) \<Longrightarrow> bindE m f = bindE m' g"
  by (cases m') simp_all

lemma bindE_Inr_right [simp]: "bindE m Inr = m"
  by (cases m) simp_all

text \<open>A loop body applied to every element, stopping at the first exception.\<close>

fun mapE :: "('a \<Rightarrow> 'b py) \<Rightarrow> 'a list \<Rightarrow> 'b list py" where
  "mapE f [] = Inr []"
| "mapE f (x # xs) = bindE (f x) (\<lambda>y. bindE (mapE f xs) (\<lambda>ys. Inr (y # ys)))"

lemma mapE_Inr_iff: "mapE f xs = Inr ys \<longleftrightarrow> list_all2 (\<lambda>x y. f x = Inr y) xs ys"
  by (induction xs arbitrary: ys) (auto simp: bindE_Inr_iff list_all2_Cons1)

lemma mapE_map: "(\<And>x. x \<in> set xs \<Longrightarrow> f x = Inr (g x)) \<Longrightarrow> mapE f xs = Inr (map g xs)"
  by (induction xs) auto

lemma mapE_cong [cong]:
  "xs = ys \<Longrightarrow> (\<And>x. x \<in> set ys \<Longrightarrow> f x = g x) \<Longrightarrow> mapE f xs = mapE g ys"
proof (induction xs arbitrary: ys)
  case (Cons x xs)
  then show ?case by (cases ys) auto
qed simp

lemma mapE_total: "\<forall>x \<in> set xs. \<exists>y. f x = Inr y \<Longrightarrow> \<exists>ys. mapE f xs = Inr ys"
  by (induction xs) auto

lemma mapE_Inl_obtain:
  "mapE f xs = Inl e \<Longrightarrow> \<exists>x \<in> set xs. f x = Inl e"
  by (induction xs) (auto simp: bindE_Inl_iff)

section \<open>Lists\<close>

lemma enumerate_eq_map: "enumerate 0 xs = map (\<lambda>i. (i, xs ! i)) [0..<length xs]"
  by (rule nth_equalityI) (simp_all add: nth_enumerate_eq)

section \<open>Association lists as insertion-ordered dictionaries\<close>

text \<open>
  A Python dictionary is the list of its items in insertion order; assignment replaces the value
  of a present key in place and appends a new one, which is \<open>AList.update\<close>.
\<close>

type_synonym 'v dict = "(pystr \<times> 'v) list"

definition dict_ok :: "('k \<times> 'v) list \<Rightarrow> bool" where
  "dict_ok d \<longleftrightarrow> distinct (map fst d)"

lemma dict_ok_Nil [simp]: "dict_ok []"
  by (simp add: dict_ok_def)

lemma dict_ok_update [simp]: "dict_ok d \<Longrightarrow> dict_ok (AList.update k v d)"
  by (simp add: dict_ok_def distinct_update)

lemma map_of_AList_update [simp]: "map_of (AList.update k v d) = (map_of d)(k \<mapsto> v)"
  by (rule update_conv')

text \<open>\<open>{**d, **e}\<close>\<close>

definition dict_merge :: "'v dict \<Rightarrow> 'v dict \<Rightarrow> 'v dict" where
  "dict_merge d e = fold (\<lambda>(k, v). AList.update k v) e d"

lemma map_of_fold_update:
  "map_of (fold (\<lambda>(k, v). AList.update k v) e d) k =
     (case map_of (rev e) k of None \<Rightarrow> map_of d k | Some v \<Rightarrow> Some v)"
  by (induction e arbitrary: d) (auto simp: map_of_append map_add_def split: option.splits)

lemma map_of_rev_dict: "dict_ok e \<Longrightarrow> map_of (rev e) = map_of e"
proof -
  assume "dict_ok e"
  then have "distinct (map fst e)" "distinct (map fst (rev e))"
    by (simp_all add: dict_ok_def rev_map [symmetric])
  then show ?thesis by (metis map_of_inject_set set_rev)
qed

lemma dict_merge_lookup:
  "dict_ok e \<Longrightarrow> map_of (dict_merge d e) k =
     (case map_of e k of None \<Rightarrow> map_of d k | Some v \<Rightarrow> Some v)"
  by (simp add: dict_merge_def map_of_fold_update map_of_rev_dict)

lemma dict_ok_merge: "dict_ok d \<Longrightarrow> dict_ok (dict_merge d e)"
proof -
  have "dict_ok d \<Longrightarrow> dict_ok (fold (\<lambda>(k, v). AList.update k v) e d)" for d
    by (induction e arbitrary: d) auto
  then show "dict_ok d \<Longrightarrow> dict_ok (dict_merge d e)" by (simp add: dict_merge_def)
qed

end
