(* ===== verification/Action.thy ===== *)
theory Action
  imports Prelude
begin

text \<open>
  Programs that talk to the outside: an action takes the world to the world it leaves behind and
  to a result or an exception. Sequencing keeps the world of a failed action, and a handler goes on
  from there, as \<open>try\<close> and \<open>except\<close> do. A session is the world together with the files that the
  process reads and writes, what it has printed, and what will be typed at its prompts.
\<close>

named_theorems action_exec

section \<open>Actions\<close>

type_synonym ('w, 'a) action = "'w \<Rightarrow> 'w \<times> 'a py"

definition pureA :: "'a py \<Rightarrow> ('w, 'a) action" where
  "pureA r w = (w, r)"

definition doA :: "('w, 'a) action \<Rightarrow> ('a \<Rightarrow> ('w, 'b) action) \<Rightarrow> ('w, 'b) action" where
  "doA m f w = (case m w of (w', Inl e) \<Rightarrow> (w', Inl e) | (w', Inr a) \<Rightarrow> f a w')"

definition tryA :: "('w, 'a) action \<Rightarrow> (pyexn \<Rightarrow> bool) \<Rightarrow> (pyexn \<Rightarrow> ('w, 'a) action) \<Rightarrow> ('w, 'a) action" where
  "tryA m p h w = (case m w of
     (w', Inl e) \<Rightarrow> if p e then h e w' else (w', Inl e)
   | (w', Inr a) \<Rightarrow> (w', Inr a))"

lemma pureA_simp [simp, action_exec]: "pureA r w = (w, r)"
  by (simp add: pureA_def)

lemma doA_simps [action_exec]:
  "m w = (w', Inl e) \<Longrightarrow> doA m f w = (w', Inl e)"
  "m w = (w', Inr a) \<Longrightarrow> doA m f w = f a w'"
  by (simp_all add: doA_def)

lemma tryA_simps [action_exec]:
  "m w = (w', Inr a) \<Longrightarrow> tryA m p h w = (w', Inr a)"
  "m w = (w', Inl e) \<Longrightarrow> p e \<Longrightarrow> tryA m p h w = h e w'"
  "m w = (w', Inl e) \<Longrightarrow> \<not> p e \<Longrightarrow> tryA m p h w = (w', Inl e)"
  by (simp_all add: tryA_def)

lemma doA_Inr_iff:
  "doA m f w = (w'', Inr b) \<longleftrightarrow> (\<exists>w' a. m w = (w', Inr a) \<and> f a w' = (w'', Inr b))"
  by (auto simp: doA_def split: prod.splits sum.splits)

lemma doA_Inl_iff:
  "doA m f w = (w'', Inl e) \<longleftrightarrow>
     m w = (w'', Inl e) \<or> (\<exists>w' a. m w = (w', Inr a) \<and> f a w' = (w'', Inl e))"
  by (auto simp: doA_def split: prod.splits sum.splits)

lemma doA_pure [simp]: "doA (pureA (Inr a)) f = f a" "doA (pureA (Inl e)) f = pureA (Inl e)"
  by (simp_all add: doA_def fun_eq_iff)

lemma doA_assoc: "doA (doA m f) g = doA m (\<lambda>a. doA (f a) g)"
  by (auto simp: doA_def fun_eq_iff split: prod.split sum.split)

lemma doA_cong [fundef_cong]:
  assumes "w = w'" "m w' = m' w'" "\<And>v a. m' w' = (v, Inr a) \<Longrightarrow> f a v = g a v"
  shows "doA m f w = doA m' g w'"
  using assms by (auto simp: doA_def split: prod.split sum.split)

section \<open>Sessions\<close>

datatype echo = Out pystr | Err pystr

record 'w session =
  se_world :: 'w
  se_files :: "pystr \<Rightarrow> byte list option"
  se_echo :: "echo list"
  se_input :: "pystr list"

text \<open>An action on the world, within a session.\<close>

definition worldA :: "('w, 'a) action \<Rightarrow> ('w session, 'a) action" where
  "worldA m s = (case m (se_world s) of (w, r) \<Rightarrow> (s\<lparr>se_world := w\<rparr>, r))"

definition filesA :: "(pystr \<Rightarrow> byte list option, 'a) action \<Rightarrow> ('w session, 'a) action" where
  "filesA m s = (case m (se_files s) of (fs, r) \<Rightarrow> (s\<lparr>se_files := fs\<rparr>, r))"

definition echoA :: "echo list \<Rightarrow> ('w session, unit) action" where
  "echoA es s = (s\<lparr>se_echo := se_echo s @ es\<rparr>, Inr ())"

text \<open>The next line that is typed; \<open>click\<close> raises \<open>Abort\<close> at the end of the input.\<close>

definition inputA :: "('w session, pystr) action" where
  "inputA s = (case se_input s of
     [] \<Rightarrow> (s, Inl Abort)
   | line # rest \<Rightarrow> (s\<lparr>se_input := rest\<rparr>, Inr line))"

lemma session_exec [action_exec]:
  "m (se_world s) = (w, r) \<Longrightarrow> worldA m s = (s\<lparr>se_world := w\<rparr>, r)"
  "m' (se_files s) = (fs, r) \<Longrightarrow> filesA m' s = (s\<lparr>se_files := fs\<rparr>, r)"
  "echoA es s = (s\<lparr>se_echo := se_echo s @ es\<rparr>, Inr ())"
  by (simp_all add: worldA_def filesA_def echoA_def)

section \<open>Actions that may not end\<close>

type_synonym ('w, 'a) partial_action = "'w \<Rightarrow> ('w \<times> 'a py) option"

definition totalP :: "('w, 'a) action \<Rightarrow> ('w, 'a) partial_action" where
  "totalP m w = Some (m w)"

definition doP :: "('w, 'a) partial_action \<Rightarrow> ('a \<Rightarrow> ('w, 'b) partial_action) \<Rightarrow> ('w, 'b) partial_action" where
  "doP m f w = (case m w of
     None \<Rightarrow> None
   | Some (w', Inl e) \<Rightarrow> Some (w', Inl e)
   | Some (w', Inr a) \<Rightarrow> f a w')"

lemma doP_Inr_iff:
  "doP m f w = Some (w'', Inr b) \<longleftrightarrow> (\<exists>w' a. m w = Some (w', Inr a) \<and> f a w' = Some (w'', Inr b))"
  by (auto simp: doP_def split: option.splits prod.splits sum.splits)

lemma totalP_simp [simp]: "totalP m w = Some (m w)"
  by (simp add: totalP_def)

text \<open>Questions at the terminal: what is left of the input, what is printed, and the answer.\<close>

type_synonym 'a dialog = "pystr list \<Rightarrow> pystr list \<times> echo list \<times> 'a py"

definition dialogA :: "'a dialog \<Rightarrow> ('w session, 'a) action" where
  "dialogA d s = (case d (se_input s) of (rest, es, r) \<Rightarrow> (s\<lparr>se_input := rest, se_echo := se_echo s @ es\<rparr>, r))"

end
