(* ===== verification/PyValues.thy ===== *)
theory PyValues
  imports Prelude
begin

text \<open>
  Python values as JSON documents hold them (plus the tuples that \<open>src/shamir.py\<close> builds), with
  the operations the program applies to values of unknown shape: subscripts, \<open>isinstance\<close>,
  truth, equality, \<open>int(...)\<close>.
\<close>

section \<open>String literals\<close>

text \<open>Literals of the source are ASCII; \<open>lit\<close> gives their code points.\<close>

definition lit :: "string \<Rightarrow> pystr" where
  "lit s = map of_char s"

lemma lit_eq_iff [simp]: "lit s = lit t \<longleftrightarrow> s = t"
  by (simp add: lit_def inj_map_eq_map inj_of_char)

lemma lit_Nil [simp]: "lit [] = []" "lit s = [] \<longleftrightarrow> s = []" "[] = lit s \<longleftrightarrow> s = []"
  by (auto simp: lit_def)

lemma length_lit [simp]: "length (lit s) = length s"
  by (simp add: lit_def)

section \<open>Values\<close>

text \<open>A finite float is \<open>m * 2 ^ e\<close>; the negative zero is a value of its own.\<close>

datatype pyfloat = FNan | FInf bool | FNegZero | FFin int int

datatype pyval =
    PNone
  | PBool bool
  | PInt int
  | PFloat pyfloat
  | PStr pystr
  | PList "pyval list"
  | PTuple "pyval list"
  | PDict "(pystr \<times> pyval) list"

text \<open>Size estimates for functions that recurse through lists and dictionaries.\<close>

lemma pyval_list_size [termination_simp]: "v \<in> set vs \<Longrightarrow> size v < Suc (size_list size vs)"
  by (induction vs) auto

lemma pyval_dict_size [termination_simp]:
  "(k, v) \<in> set d \<Longrightarrow> size v < Suc (size_list (size_prod (\<lambda>_. 0) size) d)"
  by (induction d) auto

section \<open>Types, truth, numbers\<close>

text \<open>\<open>isinstance(v, int)\<close> holds of \<open>bool\<close> values too, which then count as 0 and 1.\<close>

fun py_int :: "pyval \<Rightarrow> int option" where
  "py_int (PInt n) = Some n"
| "py_int (PBool b) = Some (of_bool b)"
| "py_int _ = None"

fun py_truthy :: "pyval \<Rightarrow> bool" where
  "py_truthy PNone = False"
| "py_truthy (PBool b) = b"
| "py_truthy (PInt n) = (n \<noteq> 0)"
| "py_truthy (PFloat (FFin m e)) = (m \<noteq> 0)"
| "py_truthy (PFloat FNegZero) = False"
| "py_truthy (PFloat _) = True"
| "py_truthy (PStr s) = (s \<noteq> [])"
| "py_truthy (PList xs) = (xs \<noteq> [])"
| "py_truthy (PTuple xs) = (xs \<noteq> [])"
| "py_truthy (PDict d) = (d \<noteq> [])"

fun is_nan :: "pyval \<Rightarrow> bool" where
  "is_nan (PFloat FNan) = True"
| "is_nan _ = False"

text \<open>The value of a finite number, as \<open>(m, e)\<close> for \<open>m * 2 ^ e\<close>.\<close>

fun py_dyadic :: "pyval \<Rightarrow> (int \<times> int) option" where
  "py_dyadic (PInt n) = Some (n, 0)"
| "py_dyadic (PBool b) = Some (of_bool b, 0)"
| "py_dyadic (PFloat (FFin m e)) = Some (m, e)"
| "py_dyadic (PFloat FNegZero) = Some (0, 0)"
| "py_dyadic _ = None"

definition dyadic_eq :: "int \<times> int \<Rightarrow> int \<times> int \<Rightarrow> bool" where
  "dyadic_eq x y = (let e = min (snd x) (snd y) in
     fst x * 2 ^ nat (snd x - e) = fst y * 2 ^ nat (snd y - e))"

section \<open>Equality\<close>

text \<open>
  \<open>==\<close> on values. Inside containers Python compares by identity first; the one value this
  matters for is NaN, and every NaN of a parsed document is the same object, so two NaNs are equal
  inside a container but not by themselves.
\<close>

definition num_eq :: "pyval \<Rightarrow> pyval \<Rightarrow> bool" where
  "num_eq v w = (case (py_dyadic v, py_dyadic w) of
     (Some x, Some y) \<Rightarrow> dyadic_eq x y
   | _ \<Rightarrow> (\<exists>b \<in> {True, False}. v = PFloat (FInf b) \<and> w = PFloat (FInf b)))"

fun py_eq :: "pyval \<Rightarrow> pyval \<Rightarrow> bool" where
  "py_eq PNone w = (w = PNone)"
| "py_eq (PBool b) w = num_eq (PBool b) w"
| "py_eq (PInt n) w = num_eq (PInt n) w"
| "py_eq (PFloat f) w = num_eq (PFloat f) w"
| "py_eq (PStr s) w = (w = PStr s)"
| "py_eq (PList xs) w = (case w of
     PList ys \<Rightarrow> list_all2 (\<lambda>x y. (is_nan x \<and> is_nan y) \<or> py_eq x y) xs ys
   | _ \<Rightarrow> False)"
| "py_eq (PTuple xs) w = (case w of
     PTuple ys \<Rightarrow> list_all2 (\<lambda>x y. (is_nan x \<and> is_nan y) \<or> py_eq x y) xs ys
   | _ \<Rightarrow> False)"
| "py_eq (PDict d) w = (case w of
     PDict e \<Rightarrow> length d = length e \<and>
       list_all (\<lambda>(k, x). case map_of e k of None \<Rightarrow> False
                           | Some y \<Rightarrow> (is_nan x \<and> is_nan y) \<or> py_eq x y) d
   | _ \<Rightarrow> False)"

lemma num_eq_ints [simp]:
  "num_eq (PInt m) (PInt n) \<longleftrightarrow> m = n"
  "num_eq (PBool a) (PBool b) \<longleftrightarrow> a = b"
  "num_eq (PInt m) (PBool b) \<longleftrightarrow> m = of_bool b"
  "num_eq (PBool a) (PInt n) \<longleftrightarrow> of_bool a = n"
  by (auto simp: num_eq_def dyadic_eq_def)

lemma num_eq_other [simp]:
  "num_eq v (PStr s) = False" "num_eq v PNone = False" "num_eq v (PList xs) = False"
  "num_eq v (PTuple xs) = False" "num_eq v (PDict d) = False"
  by (auto simp: num_eq_def split: option.splits)

lemma num_eq_refl: "py_dyadic v \<noteq> None \<Longrightarrow> num_eq v v"
  by (auto simp: num_eq_def dyadic_eq_def)

text \<open>Documents whose dictionaries have no repeated key, as every Python dictionary.\<close>

fun val_ok :: "pyval \<Rightarrow> bool" where
  "val_ok (PList xs) = list_all val_ok xs"
| "val_ok (PTuple xs) = list_all val_ok xs"
| "val_ok (PDict d) = (dict_ok d \<and> list_all (\<lambda>(k, v). val_ok v) d)"
| "val_ok _ = True"

lemma float_eq_refl: "\<not> is_nan (PFloat f) \<Longrightarrow> num_eq (PFloat f) (PFloat f)"
  by (cases f) (auto simp: num_eq_def dyadic_eq_def)

lemma py_eq_refl_or_nan: "val_ok v \<Longrightarrow> (is_nan v) \<or> py_eq v v"
proof (induction v rule: val_ok.induct)
  case (3 d)
  have "case map_of d k of None \<Rightarrow> False | Some y \<Rightarrow> (is_nan v \<and> is_nan y) \<or> py_eq v y"
    if "(k, v) \<in> set d" for k v
  proof -
    have "map_of d k = Some v" using that "3.prems" by (simp add: dict_ok_def)
    moreover have "is_nan v \<or> py_eq v v"
      using "3.IH" [OF that refl] that "3.prems" by (auto simp: list_all_iff)
    ultimately show ?thesis by auto
  qed
  then show ?case by (auto simp: list_all_iff)
qed (auto simp: list_all_iff list_all2_same num_eq_refl intro: ccontr dest: float_eq_refl)

lemma py_eq_dict_refl: "val_ok (PDict d) \<Longrightarrow> py_eq (PDict d) (PDict d)"
  using py_eq_refl_or_nan [of "PDict d"] by simp

text \<open>\<open>v in values\<close>\<close>

definition py_in :: "pyval \<Rightarrow> pyval list \<Rightarrow> bool" where
  "py_in v vs \<longleftrightarrow> (\<exists>w \<in> set vs. (is_nan v \<and> is_nan w) \<or> py_eq w v)"

lemma py_in_Nil [simp]: "\<not> py_in v []"
  by (simp add: py_in_def)

section \<open>Subscripts\<close>

text \<open>
  A subscript with a string key: \<open>KeyError\<close> where a dictionary lacks the key, \<open>TypeError\<close> for any other value
  (no other JSON value can be subscripted with a string).
\<close>

fun py_subscript :: "pyval \<Rightarrow> pystr \<Rightarrow> pyval py" where
  "py_subscript (PDict d) k = of_opt KeyError (map_of d k)"
| "py_subscript _ k = Inl TypeError"

text \<open>\<open>v.get(key)\<close> on a dictionary, with \<open>None\<close> for a missing key.\<close>

definition dict_get :: "pyval dict \<Rightarrow> pystr \<Rightarrow> pyval" where
  "dict_get d k = (case map_of d k of None \<Rightarrow> PNone | Some v \<Rightarrow> v)"

text \<open>The elements of a list or tuple.\<close>

fun py_seq :: "pyval \<Rightarrow> pyval list option" where
  "py_seq (PList xs) = Some xs"
| "py_seq (PTuple xs) = Some xs"
| "py_seq _ = None"

text \<open>What a JSON round trip makes of a value: tuples come back as lists.\<close>

fun detuple :: "pyval \<Rightarrow> pyval" where
  "detuple (PList xs) = PList (map detuple xs)"
| "detuple (PTuple xs) = PList (map detuple xs)"
| "detuple (PDict d) = PDict (map (\<lambda>(k, v). (k, detuple v)) d)"
| "detuple v = v"

lemma py_int_detuple [simp]: "py_int (detuple v) = py_int v"
  by (cases v) simp_all

lemma py_seq_detuple [simp]: "py_seq (detuple v) = map_option (map detuple) (py_seq v)"
  by (cases v) simp_all

lemma map_of_detuple: "map_of (map (\<lambda>(k, v). (k, detuple v)) d) k = map_option detuple (map_of d k)"
  by (simp add: map_of_map)

lemma dict_ok_detuple [simp]: "dict_ok (map (\<lambda>(k, v). (k, f v)) d) = dict_ok d"
  by (simp add: dict_ok_def comp_def case_prod_unfold)

end
