(* ===== verification/Bytes.thy ===== *)
theory Bytes
  imports PyValues
begin

text \<open>
  Byte strings and the conversions of Python's standard library that the program applies to them:
  \<open>int.from_bytes\<close> and \<open>int.to_bytes\<close> (big endian), \<open>bytes.ljust\<close>, slices, \<open>struct\<close>'s
  \<open>"!I"\<close>, and the strict UTF-8 codec. The locale \<open>codec\<close> states what an encoder and a decoder
  promise each other; the byte codecs of the program are interpretations of it.
\<close>

section \<open>Encoders and decoders\<close>

locale codec =
  fixes enc :: "'a \<Rightarrow> 'b py" and dec :: "'b \<Rightarrow> 'a py" and valid :: "'a \<Rightarrow> bool"
  assumes enc_valid: "valid a \<Longrightarrow> \<exists>b. enc a = Inr b"
    and dec_enc: "valid a \<Longrightarrow> enc a = Inr b \<Longrightarrow> dec b = Inr a"
begin

lemma enc_inj: "valid a \<Longrightarrow> valid a' \<Longrightarrow> enc a = enc a' \<Longrightarrow> a = a'"
  by (metis dec_enc enc_valid sum.inject(2))

lemma round_trip: "valid a \<Longrightarrow> bindE (enc a) dec = Inr a"
  using enc_valid [of a] dec_enc by auto

end

text \<open>Two codecs in sequence are a codec.\<close>

locale codec_pair = inner: codec enc dec valid + outer: codec enc' dec' valid'
  for enc :: "'a \<Rightarrow> 'b py" and dec valid and enc' :: "'b \<Rightarrow> 'c py" and dec' valid' +
  assumes inner_valid: "valid a \<Longrightarrow> enc a = Inr b \<Longrightarrow> valid' b"
begin

sublocale both: codec "\<lambda>a. bindE (enc a) enc'" "\<lambda>c. bindE (dec' c) dec" valid
proof
  fix a assume "valid a"
  then obtain b where "enc a = Inr b" "valid' b"
    using inner.enc_valid inner_valid by blast
  then show "\<exists>c. bindE (enc a) enc' = Inr c"
    using outer.enc_valid by simp
next
  fix a c assume a: "valid a" and "bindE (enc a) enc' = Inr c"
  then obtain b where b: "enc a = Inr b" "enc' b = Inr c" by (auto simp: bindE_Inr_iff)
  then have "dec' c = Inr b" using outer.dec_enc inner_valid a by blast
  with a b show "bindE (dec' c) dec = Inr a" using inner.dec_enc by simp
qed

end

section \<open>Integers as bytes\<close>

definition int_from_bytes :: "byte list \<Rightarrow> int" where
  "int_from_bytes bs = foldl (\<lambda>n b. n * 256 + uint b) 0 bs"

primrec be_digits :: "nat \<Rightarrow> int \<Rightarrow> byte list" where
  "be_digits 0 n = []"
| "be_digits (Suc k) n = be_digits k (n div 256) @ [word_of_int (n mod 256)]"

definition int_to_bytes :: "nat \<Rightarrow> int \<Rightarrow> byte list py" where
  "int_to_bytes k n = (if 0 \<le> n \<and> n < 256 ^ k then Inr (be_digits k n) else Inl OverflowError)"

lemma length_be_digits [simp]: "length (be_digits k n) = k"
  by (induction k arbitrary: n) simp_all

lemma int_from_bytes_snoc: "int_from_bytes (bs @ [b]) = int_from_bytes bs * 256 + uint b"
  by (simp add: int_from_bytes_def)

lemma int_from_bytes_nonneg [simp]: "0 \<le> int_from_bytes bs"
  by (induction bs rule: rev_induct) (simp_all add: int_from_bytes_snoc, simp add: int_from_bytes_def)

lemma uint_byte_bound: "uint (b :: byte) < 256"
  using uint_lt2p [of b] by simp

lemma int_from_bytes_bound: "int_from_bytes bs < 256 ^ length bs"
proof (induction bs rule: rev_induct)
  case (snoc b bs)
  then show ?case using uint_byte_bound [of b] by (simp add: int_from_bytes_snoc)
qed (simp add: int_from_bytes_def)

lemma be_digits_int_from_bytes: "be_digits (length bs) (int_from_bytes bs) = bs"
proof (induction bs rule: rev_induct)
  case (snoc b bs)
  have "int_from_bytes (bs @ [b]) div 256 = int_from_bytes bs"
    and "int_from_bytes (bs @ [b]) mod 256 = uint b"
    using uint_byte_bound [of b] by (simp_all add: int_from_bytes_snoc)
  with snoc show ?case by simp
qed simp

lemma int_from_bytes_be_digits: "0 \<le> n \<Longrightarrow> n < 256 ^ k \<Longrightarrow> int_from_bytes (be_digits k n) = n"
proof (induction k arbitrary: n)
  case 0
  then show ?case by (simp add: int_from_bytes_def)
next
  case (Suc k)
  then have "int_from_bytes (be_digits k (n div 256)) = n div 256"
    by (intro Suc.IH) (auto simp: div_int_pos_iff)
  then show ?case by (simp add: int_from_bytes_snoc uint_word_of_int_eq take_bit_eq_mod)
qed

lemma int_to_bytes_from_bytes: "int_to_bytes (length bs) (int_from_bytes bs) = Inr bs"
  by (simp add: int_to_bytes_def int_from_bytes_bound be_digits_int_from_bytes)

interpretation big_endian: codec "int_to_bytes k" "\<lambda>bs. Inr (int_from_bytes bs)"
  "\<lambda>n. 0 \<le> n \<and> n < 256 ^ k" for k
  by unfold_locales (auto simp: int_to_bytes_def int_from_bytes_be_digits)

text \<open>\<open>struct.Struct("!I").pack\<close> and \<open>unpack\<close>: four bytes, \<open>struct.error\<close> out of range.\<close>

definition pack_u32 :: "nat \<Rightarrow> byte list py" where
  "pack_u32 n = (if n < 2 ^ 32 then Inr (be_digits 4 (int n)) else Inl StructError)"

definition unpack_u32 :: "byte list \<Rightarrow> nat py" where
  "unpack_u32 bs = (if length bs = 4 then Inr (nat (int_from_bytes bs)) else Inl StructError)"

interpretation u32: codec pack_u32 unpack_u32 "\<lambda>n. n < 2 ^ 32"
proof
  fix n :: nat and b
  assume n: "n < 2 ^ 32" and "pack_u32 n = Inr b"
  then have b: "b = be_digits 4 (int n)" by (simp add: pack_u32_def)
  have "int_from_bytes (be_digits 4 (int n)) = int n"
    by (rule int_from_bytes_be_digits) (use n in simp_all)
  then show "unpack_u32 b = Inr n" by (simp add: unpack_u32_def b)
qed (simp add: pack_u32_def)

section \<open>Slices and padding\<close>

text \<open>\<open>bs.ljust(n, b'\x00')\<close>\<close>

definition ljust :: "nat \<Rightarrow> byte list \<Rightarrow> byte list" where
  "ljust n bs = bs @ replicate (n - length bs) 0"

text \<open>\<open>bs[:n]\<close> for a Python integer \<open>n\<close>, which counts from the end when negative.\<close>

definition slice_to :: "int \<Rightarrow> 'a list \<Rightarrow> 'a list" where
  "slice_to n xs = (if 0 \<le> n then take (nat n) xs else take (nat (int (length xs) + n)) xs)"

text \<open>\<open>range(i, n, step)\<close> for a positive step.\<close>

function range_step :: "nat \<Rightarrow> nat \<Rightarrow> nat \<Rightarrow> nat list" where
  "range_step i n step = (if i < n \<and> 0 < step then i # range_step (i + step) n step else [])"
  by pat_completeness auto
termination
  by (relation "measure (\<lambda>(i, n, step). n - i)") auto

declare range_step.simps [simp del]

lemma range_step_shift:
  "range_step (i + d) (n + d) step = map (\<lambda>j. j + d) (range_step i n step)"
proof (induction i n step rule: range_step.induct)
  case (1 i n step)
  show ?case
  proof (cases "i < n \<and> 0 < step")
    case True
    then have "range_step ((i + step) + d) (n + d) step =
        map (\<lambda>j. j + d) (range_step (i + step) n step)" by (rule "1")
    with True show ?thesis
      by (simp add: range_step.simps [of i] range_step.simps [of "i + d"] add.assoc add.commute [of d])
  next
    case False
    then show ?thesis by (auto simp: range_step.simps [of i] range_step.simps [of "i + d"])
  qed
qed

section \<open>UTF-8\<close>

definition is_scalar :: "nat \<Rightarrow> bool" where
  "is_scalar c \<longleftrightarrow> c < 0x110000 \<and> \<not> (0xD800 \<le> c \<and> c < 0xE000)"

definition byte_of :: "nat \<Rightarrow> byte" where
  "byte_of n = word_of_nat n"

lemma unat_byte_of [simp]: "n < 256 \<Longrightarrow> unat (byte_of n) = n"
  by (simp add: byte_of_def unat_of_nat)

definition utf8_char :: "nat \<Rightarrow> byte list" where
  "utf8_char c =
     (if c < 0x80 then [byte_of c]
      else if c < 0x800 then [byte_of (0xC0 + c div 64), byte_of (0x80 + c mod 64)]
      else if c < 0x10000 then
        [byte_of (0xE0 + c div 4096), byte_of (0x80 + c div 64 mod 64),
         byte_of (0x80 + c mod 64)]
      else
        [byte_of (0xF0 + c div 262144), byte_of (0x80 + c div 4096 mod 64),
         byte_of (0x80 + c div 64 mod 64), byte_of (0x80 + c mod 64)])"

text \<open>\<open>s.encode("utf-8")\<close>: surrogates cannot be encoded.\<close>

definition utf8_encode :: "pystr \<Rightarrow> byte list py" where
  "utf8_encode s =
     (if list_all is_scalar s then Inr (concat (map utf8_char s)) else Inl UnicodeEncodeError)"

definition is_cont :: "nat \<Rightarrow> bool" where
  "is_cont n \<longleftrightarrow> 0x80 \<le> n \<and> n < 0xC0"

definition utf8_cons :: "bool \<Rightarrow> nat \<Rightarrow> pystr option \<Rightarrow> pystr option" where
  "utf8_cons ok c s = (if ok then map_option (Cons c) s else None)"

text \<open>
  UTF-8 decoding of byte values: overlong forms, values above \<open>0x10FFFF\<close> and, unless the error
  handler is \<open>surrogatepass\<close>, surrogates are errors.
\<close>

fun utf8_scan :: "bool \<Rightarrow> nat list \<Rightarrow> pystr option" where
  "utf8_scan sp [] = Some []"
| "utf8_scan sp (a # r) =
     (if a < 0x80 then utf8_cons True a (utf8_scan sp r)
      else if 0xC2 \<le> a \<and> a < 0xE0 then
        (case r of
           b # r' \<Rightarrow> utf8_cons (is_cont b) ((a - 0xC0) * 64 + (b - 0x80)) (utf8_scan sp r')
         | _ \<Rightarrow> None)
      else if 0xE0 \<le> a \<and> a < 0xF0 then
        (case r of
           b # c # r' \<Rightarrow>
             (let n = (a - 0xE0) * 4096 + (b - 0x80) * 64 + (c - 0x80) in
              utf8_cons (is_cont b \<and> is_cont c \<and> 0x800 \<le> n \<and> (sp \<or> is_scalar n)) n (utf8_scan sp r'))
         | _ \<Rightarrow> None)
      else if 0xF0 \<le> a \<and> a < 0xF5 then
        (case r of
           b # c # d # r' \<Rightarrow>
             (let n = (a - 0xF0) * 262144 + (b - 0x80) * 4096 + (c - 0x80) * 64 + (d - 0x80) in
              utf8_cons (is_cont b \<and> is_cont c \<and> is_cont d \<and> 0x10000 \<le> n \<and> is_scalar n) n
                (utf8_scan sp r'))
         | _ \<Rightarrow> None)
      else None)"

definition utf8_decode :: "byte list \<Rightarrow> pystr py" where
  "utf8_decode bs = of_opt UnicodeDecodeError (utf8_scan False (map unat bs))"

lemma base64_digits:
  fixes c :: nat
  shows "c div 64 * 64 + c mod 64 = c"
    and "c div 4096 * 4096 + c div 64 mod 64 * 64 + c mod 64 = c"
    and "c div 262144 * 262144 + c div 4096 mod 64 * 4096 + c div 64 mod 64 * 64 + c mod 64 = c"
proof -
  have d: "c div 4096 = c div 64 div 64" "c div 262144 = c div 4096 div 64"
    by (simp_all flip: div_mult2_eq)
  have r: "c div 64 * 64 + c mod 64 = c"
    "c div 64 div 64 * 64 + c div 64 mod 64 = c div 64"
    "c div 4096 div 64 * 64 + c div 4096 mod 64 = c div 4096"
    by (rule div_mult_mod_eq)+
  show "c div 64 * 64 + c mod 64 = c" by (rule r)
  show "c div 4096 * 4096 + c div 64 mod 64 * 64 + c mod 64 = c"
    using r d by linarith
  show "c div 262144 * 262144 + c div 4096 mod 64 * 4096 + c div 64 mod 64 * 64 + c mod 64 = c"
    using r d by linarith
qed

lemma utf8_scan_char:
  assumes "is_scalar c"
  shows "utf8_scan sp (map unat (utf8_char c) @ r) = map_option (Cons c) (utf8_scan sp r)"
proof -
  consider "c < 0x80" | "0x80 \<le> c" "c < 0x800" | "0x800 \<le> c" "c < 0x10000"
    | "0x10000 \<le> c" "c < 0x110000"
    using assms by (fastforce simp: is_scalar_def)
  then show ?thesis
  proof cases
    case 1
    then show ?thesis by (simp add: utf8_char_def utf8_cons_def)
  next
    case 2
    define q m where "q = c div 64" and "m = c mod 64"
    have "2 \<le> q" "q < 32" "m < 64" "q * 64 + m = c"
      using 2 base64_digits(1) [of c] by (auto simp: q_def m_def)
    moreover have "utf8_char c = [byte_of (0xC0 + q), byte_of (0x80 + m)]"
      using 2 by (simp add: utf8_char_def q_def m_def)
    ultimately show ?thesis by (simp add: utf8_cons_def is_cont_def)
  next
    case 3
    define p q m where "p = c div 4096" and "q = c div 64 mod 64" and "m = c mod 64"
    have "p < 16" "q < 64" "m < 64" "p * 4096 + q * 64 + m = c"
      using 3 base64_digits(2) [of c] by (auto simp: p_def q_def m_def)
    moreover have "utf8_char c = [byte_of (0xE0 + p), byte_of (0x80 + q), byte_of (0x80 + m)]"
      using 3 by (simp add: utf8_char_def p_def q_def m_def)
    ultimately show ?thesis
      using 3 assms by (simp add: utf8_cons_def is_cont_def Let_def)
  next
    case 4
    define h p q m where "h = c div 262144" and "p = c div 4096 mod 64"
      and "q = c div 64 mod 64" and "m = c mod 64"
    have "h < 5" "p < 64" "q < 64" "m < 64" "h * 262144 + p * 4096 + q * 64 + m = c"
      using 4 base64_digits(3) [of c] by (auto simp: h_def p_def q_def m_def)
    moreover have "utf8_char c =
        [byte_of (0xF0 + h), byte_of (0x80 + p), byte_of (0x80 + q), byte_of (0x80 + m)]"
      using 4 by (simp add: utf8_char_def h_def p_def q_def m_def)
    ultimately show ?thesis
      using 4 assms by (simp add: utf8_cons_def is_cont_def Let_def)
  qed
qed

lemma utf8_scan_encode:
  "list_all is_scalar s \<Longrightarrow> utf8_scan sp (map unat (concat (map utf8_char s))) = Some s"
  by (induction s) (simp_all add: utf8_scan_char)

interpretation utf8: codec utf8_encode utf8_decode "list_all is_scalar"
  by unfold_locales (auto simp: utf8_encode_def utf8_decode_def utf8_scan_encode)

lemma utf8_decode_encode: "utf8_encode s = Inr bs \<Longrightarrow> utf8_decode bs = Inr s"
  using utf8.dec_enc [of s bs] by (cases "list_all is_scalar s") (auto simp: utf8_encode_def)

lemma utf8_encode_inj: "utf8_encode s = Inr bs \<Longrightarrow> utf8_encode t = Inr bs \<Longrightarrow> s = t"
  by (metis sum.inject(2) utf8_decode_encode)

lemma is_scalar_char: "is_scalar (of_char c)"
proof -
  have "(of_char c :: nat) < 256" by (rule nat_of_char_less_256)
  then have "(of_char c :: nat) < 0x110000" "(of_char c :: nat) < 0xD800" by linarith+
  then show ?thesis by (simp add: is_scalar_def)
qed

lemma lit_scalar [simp]: "list_all is_scalar (lit s)"
  by (simp add: lit_def list_all_iff is_scalar_char)

end
