(* ===== verification/JsonNumbers.thy ===== *)
theory JsonNumbers
  imports Bytes "HOL-Library.Log_Nat"
begin

text \<open>
  Numbers in Python's \<open>json\<close>: decimal text of integers, the double nearest to a decimal
  fraction, \<open>float.__repr__\<close> (the shortest decimal that reads back), and the number scanner of
  CPython. The lemma \<open>parse_number_append\<close> says that a number that was read to its end is read the
  same way in front of anything that does not continue it.
\<close>

section \<open>Decimal integers\<close>

definition is_digit :: "nat \<Rightarrow> bool" where
  "is_digit c \<longleftrightarrow> 48 \<le> c \<and> c \<le> 57"

fun dec_digits :: "nat \<Rightarrow> pystr" where
  "dec_digits n = (if n < 10 then [48 + n] else dec_digits (n div 10) @ [48 + n mod 10])"

declare dec_digits.simps [simp del]

definition dec_value :: "pystr \<Rightarrow> nat" where
  "dec_value s = foldl (\<lambda>n c. n * 10 + (c - 48)) 0 s"

definition int_text :: "int \<Rightarrow> pystr" where
  "int_text n = (if n < 0 then 45 # dec_digits (nat (- n)) else dec_digits (nat n))"

text \<open>CPython's limit on the conversion between integers and decimal text.\<close>

definition MAX_STR_DIGITS :: nat where
  "MAX_STR_DIGITS = 4300"

lemma dec_value_snoc: "dec_value (s @ [c]) = dec_value s * 10 + (c - 48)"
  by (simp add: dec_value_def)

lemma dec_value_digits [simp]: "dec_value (dec_digits n) = n"
proof (induction n rule: dec_digits.induct)
  case (1 n)
  show ?case
  proof (cases "n < 10")
    case True
    then show ?thesis by (simp add: dec_digits.simps [of n] dec_value_def)
  next
    case False
    with 1 show ?thesis by (subst dec_digits.simps) (simp add: dec_value_snoc)
  qed
qed

lemma dec_digits_digits: "list_all is_digit (dec_digits n)"
proof (induction n rule: dec_digits.induct)
  case (1 n)
  have "is_digit (48 + n mod 10)" using mod_less_divisor [of 10 n] by (simp add: is_digit_def del: mod_less_divisor)
  with 1 show ?case by (subst dec_digits.simps) (auto simp: is_digit_def [of "48 + n"])
qed

lemma dec_digits_ne [simp]: "dec_digits n \<noteq> []"
  by (subst dec_digits.simps) simp

lemma hd_dec_digits: "hd (dec_digits n) = 48 \<Longrightarrow> dec_digits n = [48]"
proof (induction n rule: dec_digits.induct)
  case (1 n)
  show ?case
  proof (cases "n < 10")
    case True
    with 1(2) show ?thesis by (simp add: dec_digits.simps [of n] dec_digits.simps [of 0])
  next
    case False
    with 1(2) have "hd (dec_digits (n div 10)) = 48"
      by (simp add: dec_digits.simps [of n] hd_append)
    with 1(1) False have "dec_digits (n div 10) = [48]" by simp
    then have "dec_value (dec_digits (n div 10)) = 0" by (simp add: dec_value_def)
    with False show ?thesis by simp
  qed
qed

section \<open>Floats\<close>

text \<open>The quotient of two naturals rounded to an integer, ties to even.\<close>

definition round_div :: "nat \<Rightarrow> nat \<Rightarrow> nat" where
  "round_div n d = (let q = n div d; r = n mod d in
     if 2 * r < d then q else if 2 * r > d then q + 1 else q + q mod 2)"

text \<open>\<open>n / d * 2 ^ (- e)\<close> as a fraction.\<close>

definition scale2 :: "nat \<Rightarrow> nat \<Rightarrow> int \<Rightarrow> nat \<times> nat" where
  "scale2 n d e = (if 0 \<le> e then (n, d * 2 ^ nat e) else (n * 2 ^ nat (- e), d))"

text \<open>The double nearest to the positive fraction \<open>n / d\<close>: \<open>None\<close> when it overflows.\<close>

definition round_double :: "nat \<Rightarrow> nat \<Rightarrow> (nat \<times> int) option" where
  "round_double n d =
     (let k = int (floorlog 2 n) - int (floorlog 2 d);
          (a, b) = scale2 n d k;
          l = (if b \<le> a then k else k - 1);
          e = max (l - 52) (- 1074);
          (x, y) = scale2 n d e;
          m = round_div x y;
          (m', e') = (if m = 2 ^ 53 then (2 ^ 52, e + 1) else (m, e))
      in if 971 < e' then None else Some (m', e'))"

text \<open>The value of \<open>digits * 10 ^ x\<close> with a sign, as \<open>float(...)\<close> reads it.\<close>

definition decimal_float :: "bool \<Rightarrow> nat \<Rightarrow> int \<Rightarrow> pyfloat" where
  "decimal_float neg digits x =
     (if digits = 0 then (if neg then FNegZero else FFin 0 (- 1074))
      else case (if 0 \<le> x then round_double (digits * 10 ^ nat x) 1
                 else round_double digits (10 ^ nat (- x))) of
        None \<Rightarrow> FInf neg
      | Some (0, e) \<Rightarrow> (if neg then FNegZero else FFin 0 (- 1074))
      | Some (m, e) \<Rightarrow> FFin (if neg then - int m else int m) e)"

text \<open>
  \<open>repr\<close> of a positive finite float \<open>m * 2 ^ e\<close>: the shortest decimal that reads back as the
  same float, the nearest one among those, as its digits and the position of the point.
\<close>

definition dec_exp :: "nat \<Rightarrow> nat \<Rightarrow> int" where
  "dec_exp n d = (if d \<le> n then int (length (dec_digits (n div d)))
     else 1 - int (length (dec_digits ((d + n - 1) div n - 1))))"

definition shortest_with :: "nat \<Rightarrow> int \<Rightarrow> nat \<Rightarrow> (nat \<times> int) option" where
  "shortest_with m e n =
     (let (a, b) = scale2 m 1 (- e);
          k = dec_exp a b;
          x = k - int n;
          (p, q) = (if 0 \<le> x then (a, b * 10 ^ nat x) else (a * 10 ^ nat (- x), b));
          lo = p div q;
          reads = (\<lambda>c. 0 < c \<and> decimal_float False c x = FFin (int m) e);
          pick_hi = (2 * (p mod q) > q \<or> (2 * (p mod q) = q \<and> odd lo))
      in if reads lo \<and> \<not> (pick_hi \<and> reads (lo + 1)) then Some (lo, x)
         else if reads (lo + 1) then Some (lo + 1, x) else None)"

definition strip_zeros :: "pystr \<Rightarrow> pystr" where
  "strip_zeros s = rev (dropWhile (\<lambda>c. c = 48) (rev s))"

definition float_text :: "pystr \<Rightarrow> int \<Rightarrow> pystr" where
  "float_text ds p =
     (if - 4 < p \<and> p \<le> 16 then
        (if p \<le> 0 then lit ''0.'' @ replicate (nat (- p)) 48 @ ds
         else if int (length ds) \<le> p then ds @ replicate (nat p - length ds) 48 @ lit ''.0''
         else take (nat p) ds @ lit ''.'' @ drop (nat p) ds)
      else take 1 ds @ (if length ds = 1 then [] else lit ''.'' @ drop 1 ds) @
        lit ''e'' @ (if p - 1 < 0 then lit ''-'' else lit ''+'') @
        (let x = dec_digits (nat \<bar>p - 1\<bar>) in (if length x = 1 then 48 # x else x)))"

definition positive_repr :: "nat \<Rightarrow> int \<Rightarrow> pystr" where
  "positive_repr m e =
     (case List.find (\<lambda>n. shortest_with m e n \<noteq> None) [1..<18] of
        None \<Rightarrow> []
      | Some n \<Rightarrow> (case shortest_with m e n of
          None \<Rightarrow> []
        | Some (c, x) \<Rightarrow> float_text (strip_zeros (dec_digits c)) (x + int (length (dec_digits c)))))"

fun float_repr :: "pyfloat \<Rightarrow> pystr" where
  "float_repr FNan = lit ''NaN''"
| "float_repr (FInf neg) = (if neg then lit ''-Infinity'' else lit ''Infinity'')"
| "float_repr FNegZero = lit ''-0.0''"
| "float_repr (FFin m e) =
     (if m = 0 then lit ''0.0''
      else if m < 0 then 45 # positive_repr (nat (- m)) e else positive_repr (nat m) e)"

section \<open>Reading numbers\<close>

definition scan_sign :: "pystr \<Rightarrow> bool \<times> pystr" where
  "scan_sign s = (case s of [] \<Rightarrow> (False, []) | c # r \<Rightarrow> if c = 45 then (True, r) else (False, s))"

definition scan_int :: "pystr \<Rightarrow> (pystr \<times> pystr) option" where
  "scan_int s = (case s of
     [] \<Rightarrow> None
   | c # r \<Rightarrow> if \<not> is_digit c then None
       else if c = 48 then Some ([48], r)
       else Some (takeWhile is_digit s, dropWhile is_digit s))"

definition scan_frac :: "pystr \<Rightarrow> pystr \<times> pystr" where
  "scan_frac s = (case s of
     [] \<Rightarrow> ([], s)
   | c # r \<Rightarrow> if c = 46 \<and> takeWhile is_digit r \<noteq> [] then (takeWhile is_digit r, dropWhile is_digit r)
       else ([], s))"

definition scan_exp_sign :: "pystr \<Rightarrow> bool \<times> pystr" where
  "scan_exp_sign s = (case s of
     [] \<Rightarrow> (False, []) | c # r \<Rightarrow> if c = 45 then (True, r) else if c = 43 then (False, r) else (False, s))"

definition scan_exp :: "pystr \<Rightarrow> int option \<times> pystr" where
  "scan_exp s = (case s of
     [] \<Rightarrow> (None, s)
   | c # r \<Rightarrow> if c = 101 \<or> c = 69 then
         (case scan_exp_sign r of (neg, t) \<Rightarrow>
            let ds = takeWhile is_digit t in
            if ds = [] then (None, s)
            else (Some (if neg then - int (dec_value ds) else int (dec_value ds)), dropWhile is_digit t))
       else (None, s))"

definition parse_number :: "pystr \<Rightarrow> (pyval \<times> pystr) py" where
  "parse_number s =
     (case scan_sign s of (neg, s1) \<Rightarrow>
      case scan_int s1 of
        None \<Rightarrow> Inl JSONDecodeError
      | Some (ip, s2) \<Rightarrow>
          case scan_frac s2 of (fp, s3) \<Rightarrow>
          case scan_exp s3 of (ex, s4) \<Rightarrow>
            if fp = [] \<and> ex = None then
              (if MAX_STR_DIGITS < length ip then Inl ValueError
               else Inr (PInt (if neg then - int (dec_value ip) else int (dec_value ip)), s4))
            else Inr (PFloat (decimal_float neg (dec_value (ip @ fp))
                   ((case ex of None \<Rightarrow> 0 | Some x \<Rightarrow> x) - int (length fp))), s4))"


text \<open>What may follow a number without being part of it.\<close>

definition number_end :: "pystr \<Rightarrow> bool" where
  "number_end r \<longleftrightarrow> (case r of [] \<Rightarrow> True | c # _ \<Rightarrow> \<not> is_digit c \<and> c \<notin> {46, 69, 101})"

lemma takeWhile_all_append:
  "dropWhile P xs = [] \<Longrightarrow> (case r of [] \<Rightarrow> True | c # _ \<Rightarrow> \<not> P c) \<Longrightarrow>
   takeWhile P (xs @ r) = takeWhile P xs \<and> dropWhile P (xs @ r) = r"
  by (cases r) (auto simp: dropWhile_eq_Nil_conv takeWhile_append dropWhile_append takeWhile_eq_all_conv [THEN iffD2])

lemma takeWhile_part_append:
  "dropWhile P xs \<noteq> [] \<Longrightarrow> takeWhile P (xs @ r) = takeWhile P xs \<and> dropWhile P (xs @ r) = dropWhile P xs @ r"
  by (auto simp: dropWhile_eq_Nil_conv takeWhile_append dropWhile_append)

lemma digits_append:
  "number_end r \<Longrightarrow> takeWhile is_digit (xs @ r) = takeWhile is_digit xs \<and>
     dropWhile is_digit (xs @ r) = dropWhile is_digit xs @ r"
proof (cases "dropWhile is_digit xs = []")
  case True
  assume "number_end r"
  then have "case r of [] \<Rightarrow> True | c # _ \<Rightarrow> \<not> is_digit c" by (auto simp: number_end_def split: list.splits)
  from takeWhile_all_append [OF True this] True show ?thesis by simp
next
  case False
  then show ?thesis using takeWhile_part_append by simp
qed

lemma scan_int_append:
  "scan_int s = Some (ip, s') \<Longrightarrow> number_end r \<Longrightarrow> scan_int (s @ r) = Some (ip, s' @ r)"
  using digits_append [of r s] by (cases s) (auto simp: scan_int_def split: if_splits)

lemma scan_frac_append: "scan_frac s = (fp, s') \<Longrightarrow> number_end r \<Longrightarrow> scan_frac (s @ r) = (fp, s' @ r)"
  using digits_append [of r "tl s"]
  by (cases s) (auto simp: scan_frac_def number_end_def split: if_splits list.splits)

lemma scan_exp_sign_append:
  "scan_exp_sign s = (neg, t) \<Longrightarrow> s \<noteq> [] \<Longrightarrow> scan_exp_sign (s @ r) = (neg, t @ r)"
  by (cases s) (auto simp: scan_exp_sign_def split: if_splits)

lemma scan_exp_append:
  assumes "scan_exp s = (x, [])" "number_end r"
  shows "scan_exp (s @ r) = (x, r)"
proof (cases s)
  case Nil
  with assms show ?thesis by (cases r) (auto simp: scan_exp_def number_end_def)
next
  case (Cons c s1)
  obtain neg t where sg: "scan_exp_sign s1 = (neg, t)" by force
  have e: "c = 101 \<or> c = 69" "takeWhile is_digit t \<noteq> []" "dropWhile is_digit t = []"
    "x = Some (if neg then - int (dec_value (takeWhile is_digit t)) else int (dec_value (takeWhile is_digit t)))"
    using assms(1) Cons sg by (auto simp: scan_exp_def Let_def split: if_splits)
  have "s1 \<noteq> []" using e(2) sg by (auto simp: scan_exp_sign_def)
  then have "scan_exp_sign (s1 @ r) = (neg, t @ r)" using scan_exp_sign_append [OF sg] by simp
  then show ?thesis using Cons e digits_append [OF assms(2), of t] by (auto simp: scan_exp_def Let_def)
qed

lemma scan_sign_append: "scan_sign s = (neg, t) \<Longrightarrow> s \<noteq> [] \<Longrightarrow> scan_sign (s @ r) = (neg, t @ r)"
  by (cases s) (auto simp: scan_sign_def split: if_splits)

theorem parse_number_append:
  assumes "parse_number s = Inr (v, [])" "number_end r"
  shows "parse_number (s @ r) = Inr (v, r)"
proof -
  obtain neg s1 where sg: "scan_sign s = (neg, s1)" by force
  obtain ip s2 where ip: "scan_int s1 = Some (ip, s2)"
    using assms(1) sg by (auto simp: parse_number_def split: option.splits)
  obtain fp s3 where fp: "scan_frac s2 = (fp, s3)" by force
  obtain ex s4 where ex: "scan_exp s3 = (ex, s4)" by force
  have s4: "s4 = []"
    using assms(1) sg ip fp ex by (auto simp: parse_number_def split: if_splits)
  have "s \<noteq> []" using sg ip by (auto simp: scan_sign_def scan_int_def)
  from scan_sign_append [OF sg this, of r] scan_int_append [OF ip assms(2)]
    scan_frac_append [OF fp assms(2)] scan_exp_append [OF ex [unfolded s4] assms(2)]
  show ?thesis using assms(1) sg ip fp ex s4 by (auto simp: parse_number_def split: if_splits)
qed

lemma parse_int_text: 
  assumes "length (dec_digits (nat \<bar>n\<bar>)) \<le> MAX_STR_DIGITS"
  shows "parse_number (int_text n) = Inr (PInt n, [])"
proof -
  have scan: "scan_int (dec_digits k) = Some (dec_digits k, [])" for k
  proof (cases "dec_digits k")
    case (Cons c r)
    have dig: "list_all is_digit (c # r)" using dec_digits_digits [of k] Cons by simp
    then have "takeWhile is_digit (c # r) = c # r" "dropWhile is_digit (c # r) = []"
      by (auto simp: list_all_iff takeWhile_eq_all_conv dropWhile_eq_Nil_conv)
    with dig Cons hd_dec_digits [of k] show ?thesis by (auto simp: scan_int_def)
  qed simp
  have "hd (dec_digits k) \<noteq> 45" for k
    using dec_digits_digits [of k] by (cases "dec_digits k") (auto simp: is_digit_def)
  then have sign: "scan_sign (dec_digits k) = (False, dec_digits k)" for k
    by (cases "dec_digits k") (auto simp: scan_sign_def dest: meta_spec [of _ k])
  have "scan_sign (int_text n) = (n < 0, dec_digits (nat \<bar>n\<bar>))"
    using sign by (auto simp: int_text_def scan_sign_def)
  then show ?thesis
    using scan assms by (auto simp: parse_number_def scan_frac_def scan_exp_def)
qed

text \<open>Floats whose \<open>repr\<close> reads back as themselves, as those of Python do.\<close>

fun float_ok :: "pyfloat \<Rightarrow> bool" where
  "float_ok (FFin m e) \<longleftrightarrow> parse_number (float_repr (FFin m e)) = Inr (PFloat (FFin m e), [])"
| "float_ok _ \<longleftrightarrow> True"

lemma hd_parse_number: "parse_number s = Inr (v, r) \<Longrightarrow> s \<noteq> [] \<and> (is_digit (hd s) \<or> hd s = 45 \<and> tl s \<noteq> [] \<and> is_digit (hd (tl s)))"
  by (cases s; cases "tl s")
     (auto simp: parse_number_def scan_sign_def scan_int_def split: option.splits if_splits)

end
