(* ===== verification/Json.thy ===== *)
theory Json
  imports JsonNumbers
begin

text \<open>
  The parts of Python's \<open>json\<close> that the program calls: \<open>json.dumps\<close> (compact, and with
  \<open>indent=2\<close>), and \<open>json.loads\<close> of a string or of bytes. Documents are written in ASCII with
  escapes; the reader accepts what CPython's scanner accepts, the three non-finite numbers, lone
  surrogates and repeated keys included. The round trip holds for \<open>json_ok\<close> values: dictionary
  keys do not repeat, strings hold no escaped surrogate pair, integers have at most 4300 digits,
  and a finite float is read back from its own \<open>repr\<close>. Tuples come back as lists (\<open>detuple\<close>).
\<close>

section \<open>Strings\<close>

definition hex_char :: "nat \<Rightarrow> nat" where
  "hex_char n = (if n < 10 then 48 + n else 87 + n)"

definition hex_val :: "nat \<Rightarrow> nat option" where
  "hex_val c = (if 48 \<le> c \<and> c \<le> 57 then Some (c - 48)
     else if 97 \<le> c \<and> c \<le> 102 then Some (c - 87)
     else if 65 \<le> c \<and> c \<le> 70 then Some (c - 55) else None)"

definition hex4 :: "nat \<Rightarrow> pystr" where
  "hex4 n = [hex_char (n div 4096 mod 16), hex_char (n div 256 mod 16), hex_char (n div 16 mod 16),
     hex_char (n mod 16)]"

definition hex4_val :: "nat \<Rightarrow> nat \<Rightarrow> nat \<Rightarrow> nat \<Rightarrow> nat option" where
  "hex4_val a b c d = (case (hex_val a, hex_val b, hex_val c, hex_val d) of
     (Some w, Some x, Some y, Some z) \<Rightarrow> Some (w * 4096 + x * 256 + y * 16 + z)
   | _ \<Rightarrow> None)"

definition is_high :: "nat \<Rightarrow> bool" where
  "is_high c \<longleftrightarrow> 0xD800 \<le> c \<and> c < 0xDC00"

definition is_low :: "nat \<Rightarrow> bool" where
  "is_low c \<longleftrightarrow> 0xDC00 \<le> c \<and> c < 0xE000"

text \<open>The code units that a character is written as, with a flag for those written as \<open>\u\<close> escapes.\<close>

definition char_units :: "nat \<Rightarrow> (bool \<times> nat) list" where
  "char_units c =
     (if c = 34 \<or> c = 92 \<or> c = 10 \<or> c = 13 \<or> c = 9 \<or> c = 12 \<or> c = 8 \<or> (32 \<le> c \<and> c < 127)
      then [(False, c)]
      else if c < 0x10000 then [(True, c)]
      else [(True, 0xD800 + (c - 0x10000) div 1024), (True, 0xDC00 + (c - 0x10000) mod 1024)])"

definition unit_text :: "bool \<times> nat \<Rightarrow> pystr" where
  "unit_text u = (case u of (escaped, c) \<Rightarrow>
     if escaped then [92, 117] @ hex4 c
     else if c = 34 then [92, 34] else if c = 92 then [92, 92]
     else if c = 10 then [92, 110] else if c = 13 then [92, 114] else if c = 9 then [92, 116]
     else if c = 12 then [92, 102] else if c = 8 then [92, 98]
     else [c])"

definition string_text :: "pystr \<Rightarrow> pystr" where
  "string_text s = [34] @ concat (map unit_text (concat (map char_units s))) @ [34]"

definition simple_escape :: "nat \<Rightarrow> nat option" where
  "simple_escape e = (if e = 34 \<or> e = 92 \<or> e = 47 then Some e
     else if e = 98 then Some 8 else if e = 102 then Some 12 else if e = 110 then Some 10
     else if e = 114 then Some 13 else if e = 116 then Some 9 else None)"

definition unit_cons ::
  "bool \<times> nat \<Rightarrow> ((bool \<times> nat) list \<times> pystr) option \<Rightarrow> ((bool \<times> nat) list \<times> pystr) option" where
  "unit_cons u = map_option (\<lambda>(us, r). (u # us, r))"

text \<open>The units of a string literal up to its closing quote; raw control characters are errors.\<close>

fun scan_units :: "pystr \<Rightarrow> ((bool \<times> nat) list \<times> pystr) option" where
  "scan_units [] = None"
| "scan_units (c # r) =
     (if c = 34 then Some ([], r)
      else if c = 92 then
        (case r of
           e # r' \<Rightarrow>
             if e = 117 then
               (case r' of
                  w # x # y # z # r'' \<Rightarrow>
                    (case hex4_val w x y z of
                       None \<Rightarrow> None
                     | Some n \<Rightarrow> unit_cons (True, n) (scan_units r''))
                | _ \<Rightarrow> None)
             else (case simple_escape e of None \<Rightarrow> None | Some n \<Rightarrow> unit_cons (False, n) (scan_units r'))
         | [] \<Rightarrow> None)
      else if c < 32 then None
      else unit_cons (False, c) (scan_units r))"

fun join_units :: "(bool \<times> nat) list \<Rightarrow> pystr" where
  "join_units ((True, h) # (True, l) # us) =
     (if is_high h \<and> is_low l then (0x10000 + (h - 0xD800) * 1024 + (l - 0xDC00)) # join_units us
      else h # join_units ((True, l) # us))"
| "join_units ((b, c) # us) = c # join_units us"
| "join_units [] = []"

definition parse_string :: "pystr \<Rightarrow> (pystr \<times> pystr) py" where
  "parse_string r = (case scan_units r of None \<Rightarrow> Inl JSONDecodeError
     | Some (us, r') \<Rightarrow> Inr (join_units us, r'))"

section \<open>Writing\<close>

text \<open>
  The layout: \<open>None\<close> for the compact form, the current depth for \<open>indent=2\<close>.
\<close>

definition newline :: "nat option \<Rightarrow> pystr" where
  "newline ly = (case ly of None \<Rightarrow> [] | Some k \<Rightarrow> 10 # replicate (2 * k) 32)"

definition separator :: "nat option \<Rightarrow> pystr" where
  "separator ly = (case ly of None \<Rightarrow> lit '', '' | Some k \<Rightarrow> lit '','' @ newline (Some (Suc k)))"

definition inside :: "nat option \<Rightarrow> nat option" where
  "inside ly = map_option Suc ly"

fun join_texts :: "pystr \<Rightarrow> pystr list \<Rightarrow> pystr" where
  "join_texts sep [] = []"
| "join_texts sep [x] = x"
| "join_texts sep (x # y # xs) = x @ sep @ join_texts sep (y # xs)"

definition bracketed :: "nat option \<Rightarrow> nat \<Rightarrow> nat \<Rightarrow> pystr list \<Rightarrow> pystr" where
  "bracketed ly opening closing xs =
     (if xs = [] then [opening, closing]
      else [opening] @ newline (inside ly) @ join_texts (separator ly) xs @ newline ly @ [closing])"

fun dump :: "nat option \<Rightarrow> pyval \<Rightarrow> pystr" where
  "dump ly PNone = lit ''null''"
| "dump ly (PBool b) = (if b then lit ''true'' else lit ''false'')"
| "dump ly (PInt n) = int_text n"
| "dump ly (PFloat f) = float_repr f"
| "dump ly (PStr s) = string_text s"
| "dump ly (PList vs) = bracketed ly 91 93 (map (dump (inside ly)) vs)"
| "dump ly (PTuple vs) = bracketed ly 91 93 (map (dump (inside ly)) vs)"
| "dump ly (PDict d) = bracketed ly 123 125
     (map (\<lambda>(k, v). string_text k @ lit '': '' @ dump (inside ly) v) d)"

fun ints_ok :: "pyval \<Rightarrow> bool" where
  "ints_ok (PInt n) = (length (dec_digits (nat \<bar>n\<bar>)) \<le> MAX_STR_DIGITS)"
| "ints_ok (PList vs) = list_all ints_ok vs"
| "ints_ok (PTuple vs) = list_all ints_ok vs"
| "ints_ok (PDict d) = list_all (\<lambda>(k, v). ints_ok v) d"
| "ints_ok _ = True"

definition json_dumps :: "pyval \<Rightarrow> pystr py" where
  "json_dumps v = (if ints_ok v then Inr (dump None v) else Inl ValueError)"

definition json_dumps_indent :: "pyval \<Rightarrow> pystr py" where
  "json_dumps_indent v = (if ints_ok v then Inr (dump (Some 0) v) else Inl ValueError)"

section \<open>Reading\<close>

definition is_ws :: "nat \<Rightarrow> bool" where
  "is_ws c \<longleftrightarrow> c = 32 \<or> c = 9 \<or> c = 10 \<or> c = 13"

definition skip_ws :: "pystr \<Rightarrow> pystr" where
  "skip_ws s = dropWhile is_ws s"

definition literal :: "pystr \<Rightarrow> pyval \<Rightarrow> pystr \<Rightarrow> (pyval \<times> pystr) option" where
  "literal p v s = (if take (length p) s = p then Some (v, drop (length p) s) else None)"

definition scalars :: "(pystr \<times> pyval) list" where
  "scalars = [(lit ''null'', PNone), (lit ''true'', PBool True), (lit ''false'', PBool False),
     (lit ''NaN'', PFloat FNan), (lit ''Infinity'', PFloat (FInf False)),
     (lit ''-Infinity'', PFloat (FInf True))]"

fun parse_scalar :: "(pystr \<times> pyval) list \<Rightarrow> pystr \<Rightarrow> (pyval \<times> pystr) py" where
  "parse_scalar [] s = parse_number s"
| "parse_scalar ((p, v) # ps) s = (case literal p v s of None \<Rightarrow> parse_scalar ps s | Some x \<Rightarrow> Inr x)"

text \<open>
  The scanner, with a bound on the number of nested calls that \<open>json_loads\<close> sets to twice the
  length of the text: \<open>parse_value_fuel\<close> shows that any bound above that gives the same result.
\<close>

fun parse_value :: "nat \<Rightarrow> pystr \<Rightarrow> (pyval \<times> pystr) py"
  and parse_items :: "nat \<Rightarrow> pyval list \<Rightarrow> pystr \<Rightarrow> (pyval \<times> pystr) py"
  and parse_pairs :: "nat \<Rightarrow> pyval dict \<Rightarrow> pystr \<Rightarrow> (pyval \<times> pystr) py" where
  "parse_value 0 s = Inl JSONDecodeError"
| "parse_value (Suc n) s =
     (case s of
        [] \<Rightarrow> Inl JSONDecodeError
      | c # r \<Rightarrow>
          if c = 34 then bindE (parse_string r) (\<lambda>(t, r'). Inr (PStr t, r'))
          else if c = 91 then
            (case skip_ws r of
               [] \<Rightarrow> Inl JSONDecodeError
             | e # r' \<Rightarrow> if e = 93 then Inr (PList [], r') else parse_items n [] (e # r'))
          else if c = 123 then
            (case skip_ws r of
               [] \<Rightarrow> Inl JSONDecodeError
             | e # r' \<Rightarrow> if e = 125 then Inr (PDict [], r') else parse_pairs n [] (e # r'))
          else parse_scalar scalars s)"
| "parse_items 0 acc s = Inl JSONDecodeError"
| "parse_items (Suc n) acc s =
     bindE (parse_value n s) (\<lambda>(v, r).
       case skip_ws r of
         [] \<Rightarrow> Inl JSONDecodeError
       | c # r' \<Rightarrow>
           if c = 93 then Inr (PList (acc @ [v]), r')
           else if c = 44 then parse_items n (acc @ [v]) (skip_ws r')
           else Inl JSONDecodeError)"
| "parse_pairs 0 acc s = Inl JSONDecodeError"
| "parse_pairs (Suc n) acc s =
     (case s of
        [] \<Rightarrow> Inl JSONDecodeError
      | q # s' \<Rightarrow>
          if q \<noteq> 34 then Inl JSONDecodeError
          else bindE (parse_string s') (\<lambda>(k, r).
            case skip_ws r of
              [] \<Rightarrow> Inl JSONDecodeError
            | c # r' \<Rightarrow>
                if c \<noteq> 58 then Inl JSONDecodeError
                else bindE (parse_value n (skip_ws r')) (\<lambda>(v, r2).
                  case skip_ws r2 of
                    [] \<Rightarrow> Inl JSONDecodeError
                  | c2 # r3 \<Rightarrow>
                      if c2 = 125 then Inr (PDict (AList.update k v acc), r3)
                      else if c2 = 44 then parse_pairs n (AList.update k v acc) (skip_ws r3)
                      else Inl JSONDecodeError)))"

declare parse_value.simps [simp del] parse_items.simps [simp del] parse_pairs.simps [simp del]

definition json_loads :: "pystr \<Rightarrow> pyval py" where
  "json_loads s =
     (if take 1 s = [0xFEFF] then Inl JSONDecodeError
      else bindE (parse_value (Suc (2 * length s)) (skip_ws s)) (\<lambda>(v, r).
        if skip_ws r = [] then Inr v else Inl JSONDecodeError))"


section \<open>Bytes\<close>

text \<open>
  \<open>json.loads\<close> of bytes guesses among the Unicode encodings from the first bytes and decodes with
  the error handler \<open>surrogatepass\<close>.
\<close>

fun units16 :: "bool \<Rightarrow> nat list \<Rightarrow> (bool \<times> nat) list option" where
  "units16 big [] = Some []"
| "units16 big [a] = None"
| "units16 big (a # b # r) =
     map_option (Cons (True, if big then a * 256 + b else b * 256 + a)) (units16 big r)"

fun units32 :: "bool \<Rightarrow> nat list \<Rightarrow> pystr option" where
  "units32 big [] = Some []"
| "units32 big (a # b # c # d # r) =
     (let n = (if big then ((a * 256 + b) * 256 + c) * 256 + d else ((d * 256 + c) * 256 + b) * 256 + a)
      in if n < 0x110000 then map_option (Cons n) (units32 big r) else None)"
| "units32 big _ = None"

definition json_text :: "nat list \<Rightarrow> pystr option" where
  "json_text b =
     (let utf8 = utf8_scan True b; b0 = b ! 0; b1 = b ! 1; b2 = b ! 2; b3 = b ! 3 in
      if take 4 b = [0, 0, 0xFE, 0xFF] then units32 True (drop 4 b)
      else if take 4 b = [0xFF, 0xFE, 0, 0] then units32 False (drop 4 b)
      else if take 2 b = [0xFE, 0xFF] then map_option join_units (units16 True (drop 2 b))
      else if take 2 b = [0xFF, 0xFE] then map_option join_units (units16 False (drop 2 b))
      else if take 3 b = [0xEF, 0xBB, 0xBF] then utf8_scan True (drop 3 b)
      else if 4 \<le> length b then
        (if b0 = 0 then (if b1 \<noteq> 0 then map_option join_units (units16 True b) else units32 True b)
         else if b1 = 0 then
           (if b2 \<noteq> 0 \<or> b3 \<noteq> 0 then map_option join_units (units16 False b) else units32 False b)
         else utf8)
      else if length b = 2 then
        (if b0 = 0 then map_option join_units (units16 True b)
         else if b1 = 0 then map_option join_units (units16 False b) else utf8)
      else utf8)"

definition json_loads_bytes :: "byte list \<Rightarrow> pyval py" where
  "json_loads_bytes bs = bindE (of_opt UnicodeDecodeError (json_text (map unat bs))) json_loads"

text \<open>\<open>json.dumps(v)\<close>, encoded in UTF-8.\<close>

definition json_bytes :: "pyval \<Rightarrow> byte list py" where
  "json_bytes v = bindE (json_dumps v) utf8_encode"

definition json_bytes_indent :: "pyval \<Rightarrow> byte list py" where
  "json_bytes_indent v = bindE (json_dumps_indent v) utf8_encode"

end
