(* ===== verification/HostsData.thy ===== *)
theory HostsData
  imports Json
begin

text \<open>
  The model of \<open>src/hosts_data.py\<close>: who this host is and which peers it trusts, read from a hosts
  document of unknown shape. A record is merged after the key \<open>name\<close>, so a record that has a
  \<open>name\<close> of its own overrides the name it is filed under. Also here is what the other modules use
  of Python's string methods.
\<close>

section \<open>The hosts document\<close>

definition UNTRUSTED_STATUSES :: "pystr list" where
  "UNTRUSTED_STATUSES = [lit ''compromised'', lit ''deleted'', lit ''disappeared'']"

text \<open>\<open>hosts_data.get("hosts", {}).items()\<close>\<close>

definition hosts_items :: "pyval \<Rightarrow> pyval dict py" where
  "hosts_items hosts_data = (case hosts_data of
     PDict d \<Rightarrow> (case map_of d (lit ''hosts'') of
         None \<Rightarrow> Inr []
       | Some (PDict h) \<Rightarrow> Inr h
       | Some _ \<Rightarrow> Inl AttributeError)
   | _ \<Rightarrow> Inl AttributeError)"

definition record_get :: "pyval \<Rightarrow> pystr \<Rightarrow> pyval py" where
  "record_get record k = (case record of PDict d \<Rightarrow> Inr (dict_get d k) | _ \<Rightarrow> Inl AttributeError)"

text \<open>\<open>{"name": name, **record}\<close>\<close>

definition named_record :: "pystr \<Rightarrow> pyval \<Rightarrow> pyval" where
  "named_record name record = (case record of
     PDict d \<Rightarrow> PDict (dict_merge [(lit ''name'', PStr name)] d)
   | _ \<Rightarrow> PNone)"

fun own_host_loop :: "pyval dict \<Rightarrow> pyval py" where
  "own_host_loop [] = Inl OwnHostNotFoundError"
| "own_host_loop ((name, record) # items) =
     bindE (record_get record (lit ''status'')) (\<lambda>status.
       if py_eq status (PStr (lit ''local'')) then Inr (named_record name record)
       else own_host_loop items)"

definition own_host_entry :: "pyval \<Rightarrow> pyval py" where
  "own_host_entry hosts_data = bindE (hosts_items hosts_data) own_host_loop"

text \<open>Membership in the set of statuses hashes the value: lists and dictionaries cannot be hashed.\<close>

definition untrusted :: "pyval \<Rightarrow> bool py" where
  "untrusted status = (case status of
     PList _ \<Rightarrow> Inl TypeError
   | PDict _ \<Rightarrow> Inl TypeError
   | PStr s \<Rightarrow> Inr (s \<in> set UNTRUSTED_STATUSES)
   | _ \<Rightarrow> Inr False)"

fun trusted_peers_loop :: "pyval \<Rightarrow> pyval dict \<Rightarrow> pyval list py" where
  "trusted_peers_loop own_name [] = Inr []"
| "trusted_peers_loop own_name ((name, record) # items) =
     (if py_eq (PStr name) own_name then trusted_peers_loop own_name items
      else bindE (record_get record (lit ''status'')) (\<lambda>status.
        bindE (untrusted status) (\<lambda>bad.
          if bad then trusted_peers_loop own_name items
          else bindE (trusted_peers_loop own_name items) (\<lambda>peers.
            Inr (named_record name record # peers)))))"

definition trusted_peers :: "pyval \<Rightarrow> pyval \<Rightarrow> pyval list py" where
  "trusted_peers hosts_data own_name =
     bindE (hosts_items hosts_data) (trusted_peers_loop own_name)"

section \<open>Well-formed hosts documents\<close>

text \<open>
  What the program itself writes: a dictionary of records without a \<open>name\<close>, with a text status.
\<close>

fun host_record_ok :: "pystr \<times> pyval \<Rightarrow> bool" where
  "host_record_ok (name, PDict d) \<longleftrightarrow> dict_ok d \<and> map_of d (lit ''name'') = None \<and>
     (case map_of d (lit ''status'') of Some (PStr _) \<Rightarrow> True | _ \<Rightarrow> False)"
| "host_record_ok _ \<longleftrightarrow> False"

definition hosts_ok :: "pyval dict \<Rightarrow> bool" where
  "hosts_ok h \<longleftrightarrow> dict_ok h \<and> list_all host_record_ok h"

definition host_status :: "pyval \<Rightarrow> pystr" where
  "host_status record = (case record of
     PDict d \<Rightarrow> (case map_of d (lit ''status'') of Some (PStr s) \<Rightarrow> s | _ \<Rightarrow> []) | _ \<Rightarrow> [])"

lemma host_record_cases:
  assumes "host_record_ok (name, record)"
  obtains d s where "record = PDict d" "dict_ok d" "map_of d (lit ''name'') = None"
    "map_of d (lit ''status'') = Some (PStr s)"
  using assms by (cases "record") (auto split: option.splits pyval.splits)

lemma named_record_fields:
  assumes "host_record_ok (name, record)"
  shows "py_subscript (named_record name record) (lit ''name'') = Inr (PStr name)"
    and "k \<noteq> lit ''name'' \<Longrightarrow> py_subscript (named_record name record) k = py_subscript record k"
  using assms
  by (auto elim!: host_record_cases simp: named_record_def dict_merge_lookup split: option.split)

lemma record_get_status:
  "host_record_ok (name, record) \<Longrightarrow> record_get record (lit ''status'') = Inr (PStr (host_status record))"
  by (auto elim!: host_record_cases simp: record_get_def host_status_def dict_get_def)

lemma own_host_loop_ok:
  "list_all host_record_ok h \<Longrightarrow>
   own_host_loop h = (case List.find (\<lambda>(name, record). host_status record = lit ''local'') h of
     None \<Rightarrow> Inl OwnHostNotFoundError
   | Some (name, record) \<Rightarrow> Inr (named_record name record))"
  by (induction h) (auto simp: record_get_status split: prod.splits)

lemma trusted_peers_loop_ok:
  "list_all host_record_ok h \<Longrightarrow>
   trusted_peers_loop (PStr own) h = Inr (map (\<lambda>(name, record). named_record name record)
     (filter (\<lambda>(name, record). name \<noteq> own \<and> host_status record \<notin> set UNTRUSTED_STATUSES) h))"
  by (induction h) (auto simp: record_get_status untrusted_def split: prod.splits)

section \<open>String methods\<close>

text \<open>
  \<open>s.lower()\<close>: exact on ASCII; what it does to other text is the argument \<open>lower_other\<close>, Unicode's
  case mapping.
\<close>

definition lower_ascii :: "nat \<Rightarrow> nat" where
  "lower_ascii c = (if 65 \<le> c \<and> c \<le> 90 then c + 32 else c)"

definition str_lower :: "(pystr \<Rightarrow> pystr) \<Rightarrow> pystr \<Rightarrow> pystr" where
  "str_lower lower_other s =
     (if list_all (\<lambda>c. c < 128) s then map lower_ascii s else lower_other s)"

text \<open>\<open>s.split(".", 1)[0]\<close>\<close>

definition first_label :: "pystr \<Rightarrow> pystr" where
  "first_label s = takeWhile (\<lambda>c. c \<noteq> 46) s"

text \<open>\<open>os.path.join(a, b)\<close>\<close>

definition path_join :: "pystr \<Rightarrow> pystr \<Rightarrow> pystr" where
  "path_join a b =
     (if take 1 b = lit ''/'' then b
      else if a = [] \<or> last a = 47 then a @ b
      else a @ lit ''/'' @ b)"

lemma path_join_inj:
  assumes "path_join a b = path_join a c" "take 1 b \<noteq> lit ''/''" "take 1 c \<noteq> lit ''/''"
  shows "b = c"
  using assms by (auto simp: path_join_def split: if_splits)

end
