(* ===== verification/Config.thy ===== *)
theory Config
  imports HostsData
begin

text \<open>
  What the programs use of \<open>int\<close> and of the options of \<open>configparser\<close>. A configuration is the
  section \<open>secretweb\<close> of the file (\<open>None\<close> where it has no such section), option names in lower
  case; the theory \<open>ConfigFile\<close> reads it from the file.
\<close>

section \<open>\<open>int(...)\<close>\<close>

definition is_c_space :: "nat \<Rightarrow> bool" where
  "is_c_space c \<longleftrightarrow> c = 32 \<or> (9 \<le> c \<and> c \<le> 13)"

definition strip :: "pystr \<Rightarrow> pystr" where
  "strip s = rev (dropWhile is_c_space (rev (dropWhile is_c_space s)))"

text \<open>\<open>s.strip()\<close> removes more than \<open>int\<close> does: every character that Unicode calls a space.\<close>

definition is_space :: "nat \<Rightarrow> bool" where
  "is_space c \<longleftrightarrow> (9 \<le> c \<and> c \<le> 13) \<or> (28 \<le> c \<and> c \<le> 32) \<or> (0x2000 \<le> c \<and> c \<le> 0x200A) \<or>
     c \<in> {0x85, 0xA0, 0x1680, 0x2028, 0x2029, 0x202F, 0x205F, 0x3000}"

definition str_strip :: "pystr \<Rightarrow> pystr" where
  "str_strip s = rev (dropWhile is_space (rev (dropWhile is_space s)))"

text \<open>Digits, with single underscores between them.\<close>

fun grouped_digits :: "pystr \<Rightarrow> pystr option" where
  "grouped_digits [] = None"
| "grouped_digits [c] = (if is_digit c then Some [c] else None)"
| "grouped_digits (c # d # s) =
     (if \<not> is_digit c then None
      else if d = 95 then map_option (Cons c) (grouped_digits s)
      else map_option (Cons c) (grouped_digits (d # s)))"

definition int_of_text :: "(pystr \<Rightarrow> int option) \<Rightarrow> pystr \<Rightarrow> int py" where
  "int_of_text unicode_int s =
     (if \<not> list_all (\<lambda>c. c < 128) s then of_opt ValueError (unicode_int s)
      else
        let t = strip s;
            neg = (take 1 t = [45]);
            body = (if take 1 t = [45] \<or> take 1 t = [43] then drop 1 t else t) in
        case grouped_digits body of
          None \<Rightarrow> Inl ValueError
        | Some ds \<Rightarrow>
            if MAX_STR_DIGITS < length ds then Inl ValueError
            else Inr (if neg then - int (dec_value ds) else int (dec_value ds)))"

text \<open>The integer part of \<open>m * 2 ^ e\<close>, towards zero.\<close>

definition trunc_dyadic :: "int \<Rightarrow> int \<Rightarrow> int" where
  "trunc_dyadic m e =
     (if 0 \<le> e then m * 2 ^ nat e else sgn m * (\<bar>m\<bar> div 2 ^ nat (- e)))"

fun py_int_of :: "(pystr \<Rightarrow> int option) \<Rightarrow> pyval \<Rightarrow> int py" where
  "py_int_of unicode_int (PInt n) = Inr n"
| "py_int_of unicode_int (PBool b) = Inr (of_bool b)"
| "py_int_of unicode_int (PFloat FNan) = Inl ValueError"
| "py_int_of unicode_int (PFloat (FInf _)) = Inl OverflowError"
| "py_int_of unicode_int (PFloat FNegZero) = Inr 0"
| "py_int_of unicode_int (PFloat (FFin m e)) = Inr (trunc_dyadic m e)"
| "py_int_of unicode_int (PStr s) = int_of_text unicode_int s"
| "py_int_of unicode_int _ = Inl TypeError"

section \<open>The section \<open>secretweb\<close> of config.ini\<close>

type_synonym config = "pystr dict option"

definition cfg_option :: "config \<Rightarrow> pystr \<Rightarrow> pystr option" where
  "cfg_option cfg k = (case cfg of None \<Rightarrow> None | Some opts \<Rightarrow> map_of opts k)"

text \<open>\<open>config.get(section, k, fallback=...)\<close>\<close>

definition cfg_get :: "config \<Rightarrow> pystr \<Rightarrow> pystr \<Rightarrow> pystr" where
  "cfg_get cfg k fallback = (case cfg_option cfg k of None \<Rightarrow> fallback | Some v \<Rightarrow> v)"

text \<open>
  \<open>config.getint(section, k, fallback=...)\<close>; without a fallback a missing section or option raises
  \<open>NoSectionError\<close> or \<open>NoOptionError\<close>, errors of \<open>configparser\<close> that no caller handles.
\<close>

definition cfg_getint :: "(pystr \<Rightarrow> int option) \<Rightarrow> config \<Rightarrow> pystr \<Rightarrow> int option \<Rightarrow> int py" where
  "cfg_getint unicode_int cfg k fallback = (case cfg_option cfg k of
     None \<Rightarrow> of_opt ConfigError fallback
   | Some v \<Rightarrow> int_of_text unicode_int v)"

text \<open>
  On the proxy object \<open>config["secretweb"]\<close> a subscript raises \<open>KeyError\<close> for a missing option, but
  \<open>getint\<close> returns \<open>None\<close> for it.
\<close>

definition section_item :: "pystr dict \<Rightarrow> pystr \<Rightarrow> pystr py" where
  "section_item opts k = of_opt KeyError (map_of opts k)"

definition section_getint :: "(pystr \<Rightarrow> int option) \<Rightarrow> pystr dict \<Rightarrow> pystr \<Rightarrow> int option py" where
  "section_getint unicode_int opts k = (case map_of opts k of
     None \<Rightarrow> Inr None
   | Some v \<Rightarrow> bindE (int_of_text unicode_int v) (\<lambda>n. Inr (Some n)))"

text \<open>\<open>config.getboolean\<close> with the fallback \<open>False\<close>.\<close>

definition cfg_getboolean :: "config \<Rightarrow> pystr \<Rightarrow> bool py" where
  "cfg_getboolean cfg k = (case cfg_option cfg k of
     None \<Rightarrow> Inr False
   | Some v \<Rightarrow>
       let w = str_lower id v in
       if w \<in> set (map lit [''1'', ''yes'', ''true'', ''on'']) then Inr True
       else if w \<in> set (map lit [''0'', ''no'', ''false'', ''off'']) then Inr False
       else Inl ValueError)"

text \<open>\<open>_cert_paths\<close>, which three modules define alike.\<close>

definition cert_paths :: "pystr \<Rightarrow> config \<Rightarrow> pystr \<times> pystr \<times> pystr" where
  "cert_paths basedir cfg =
     (let cert_dir = path_join basedir (lit ''certificates'') in
      (path_join cert_dir (cfg_get cfg (lit ''cert-file'') (lit ''cert.pem'')),
       path_join cert_dir (cfg_get cfg (lit ''key-file'') (lit ''private.pem'')),
       path_join cert_dir (cfg_get cfg (lit ''ca-file'') (lit ''ca.crt''))))"

section \<open>Decimal text of integers\<close>

text \<open>\<open>int(str(n))\<close> gives the number back, as long as CPython converts it at all.\<close>

lemma grouped_digits_plain: "list_all is_digit s \<Longrightarrow> s \<noteq> [] \<Longrightarrow> grouped_digits s = Some s"
proof (induction s rule: grouped_digits.induct)
  case (3 c d s)
  then have "d \<noteq> 95" by (auto simp: is_digit_def)
  with 3 show ?case by simp
qed auto

lemma strip_plain: "s \<noteq> [] \<Longrightarrow> \<not> is_c_space (hd s) \<Longrightarrow> \<not> is_c_space (last s) \<Longrightarrow> strip s = s"
proof -
  assume a: "s \<noteq> []" "\<not> is_c_space (hd s)" "\<not> is_c_space (last s)"
  then have "dropWhile is_c_space s = s" by (cases s) auto
  moreover have "dropWhile is_c_space (rev s) = rev s" using a by (cases s rule: rev_cases) auto
  ultimately show ?thesis by (simp add: strip_def)
qed

lemma int_of_text_int_text:
  assumes "length (dec_digits (nat \<bar>n\<bar>)) \<le> MAX_STR_DIGITS"
  shows "int_of_text unicode_int (int_text n) = Inr n"
proof -
  have d: "list_all is_digit (dec_digits k)" "dec_digits k \<noteq> []" for k
    using dec_digits_digits by simp_all
  have el: "is_digit c" if "c \<in> set (dec_digits k)" for c k
    using d(1) [of k] that by (auto simp: list_all_iff)
  have hd: "is_digit (hd (dec_digits k))" "is_digit (last (dec_digits k))" for k
    by (rule el [OF hd_in_set [OF d(2)]], rule el [OF last_in_set [OF d(2)]])
  have asc: "list_all (\<lambda>c. c < 128) (dec_digits k)" for k
    by (fastforce simp: list_all_iff is_digit_def dest!: el)
  have tk: "take 1 (dec_digits k) = [hd (dec_digits k)]" for k
    using d(2) [of k] by (cases "dec_digits k") auto
  have ne: "hd (dec_digits k) \<noteq> 45" "hd (dec_digits k) \<noteq> 43" for k
    using hd(1) [of k] by (auto simp: is_digit_def)
  have nsp: "\<not> is_c_space (hd (dec_digits k)) \<and> \<not> is_c_space (last (dec_digits k))" for k
    using hd [of k] by (auto simp: is_digit_def is_c_space_def)
  have st: "strip (int_text n) = int_text n"
    using nsp by (intro strip_plain) (auto simp: int_text_def is_c_space_def)
  show ?thesis
    unfolding int_of_text_def st
    using assms d asc ne tk by (auto simp: int_text_def grouped_digits_plain)
qed

end
