(* ===== verification/Files.thy ===== *)
theory Files
  imports HostsData
begin

text \<open>
  Files as a map from paths to contents, and \<open>atomic_write_bytes\<close> of \<open>src/cryptofile.py\<close> as the
  sequence of its system calls. A plan says where the sequence is interrupted by an exception, and
  whether the clean-up then succeeds; a crash stops the sequence without the clean-up.
\<close>

section \<open>Files\<close>

type_synonym path = pystr
type_synonym files = "path \<Rightarrow> byte list option"

definition path_exists :: "files \<Rightarrow> path \<Rightarrow> bool" where
  "path_exists fs p \<longleftrightarrow> fs p \<noteq> None"

definition read_file :: "files \<Rightarrow> path \<Rightarrow> byte list py" where
  "read_file fs p = of_opt FileNotFoundError (fs p)"

section \<open>Atomic writes\<close>

text \<open>The system calls: a byte written, flushed or not, is the smallest step.\<close>

datatype sys_call = Makedirs | Mkstemp | Write byte | Fsync | Replace

fun sys_effect :: "path \<Rightarrow> path \<Rightarrow> sys_call \<Rightarrow> files \<Rightarrow> files" where
  "sys_effect path tmp Makedirs fs = fs"
| "sys_effect path tmp Mkstemp fs = fs(tmp := Some [])"
| "sys_effect path tmp (Write b) fs =
     fs(tmp := (case fs tmp of None \<Rightarrow> None | Some bs \<Rightarrow> Some (bs @ [b])))"
| "sys_effect path tmp Fsync fs = fs"
| "sys_effect path tmp Replace fs = fs(path := fs tmp, tmp := None)"

definition sys_calls :: "byte list \<Rightarrow> sys_call list" where
  "sys_calls data = [Makedirs, Mkstemp] @ map Write data @ [Fsync, Replace]"

definition run_calls :: "path \<Rightarrow> path \<Rightarrow> sys_call list \<Rightarrow> files \<Rightarrow> files" where
  "run_calls path tmp calls fs = fold (sys_effect path tmp) calls fs"

text \<open>The files after the first \<open>n\<close> calls, as a crash at that point leaves them.\<close>

definition crash_state :: "nat \<Rightarrow> path \<Rightarrow> path \<Rightarrow> byte list \<Rightarrow> files \<Rightarrow> files" where
  "crash_state n path tmp data fs = run_calls path tmp (take n (sys_calls data)) fs"

text \<open>
  \<open>Interrupt n e cleaned\<close>: call number \<open>n\<close> raises \<open>e\<close> instead of taking effect. The handler
  covers the calls after \<open>mkstemp\<close>; it removes the temporary file if \<open>unlink\<close> works.
\<close>

datatype plan = Finish | Interrupt nat pyexn bool

fun atomic_write_bytes :: "plan \<Rightarrow> path \<Rightarrow> path \<Rightarrow> byte list \<Rightarrow> files \<Rightarrow> files \<times> unit py" where
  "atomic_write_bytes Finish tmp path data fs = (run_calls path tmp (sys_calls data) fs, Inr ())"
| "atomic_write_bytes (Interrupt n e cleaned) tmp path data fs =
     (if n < length (sys_calls data) then
        (let fs' = crash_state n path tmp data fs in
         (if 2 \<le> n \<and> cleaned then fs'(tmp := None) else fs', Inl e))
      else (run_calls path tmp (sys_calls data) fs, Inr ()))"

lemma run_writes:
  "fs tmp = Some bs \<Longrightarrow> run_calls path tmp (map Write data) fs = fs(tmp := Some (bs @ data))"
  by (induction data arbitrary: fs bs) (auto simp: run_calls_def fun_eq_iff)

lemma run_calls_append: "run_calls path tmp (xs @ ys) fs = run_calls path tmp ys (run_calls path tmp xs fs)"
  by (simp add: run_calls_def)

lemma run_all: 
  assumes "tmp \<noteq> path" "fs tmp = None"
  shows "run_calls path tmp (sys_calls data) fs = fs(path := Some data)"
proof -
  have "run_calls path tmp (sys_calls data) fs =
      run_calls path tmp [Fsync, Replace] (run_calls path tmp (map Write data) (fs(tmp := Some [])))"
    by (simp add: sys_calls_def run_calls_def)
  also have "\<dots> = fs(path := Some data)"
    using assms run_writes [of "fs(tmp := Some [])" tmp "[]" path data]
    by (auto simp: run_calls_def fun_eq_iff)
  finally show ?thesis .
qed

text \<open>The content of the file does not depend on what the temporary file was.\<close>

lemma atomic_write_content:
  assumes "tmp \<noteq> path" "atomic_write_bytes plan tmp path data fs = (fs', Inr u)"
  shows "fs' path = Some data"
proof -
  have "run_calls path tmp (sys_calls data) fs =
      run_calls path tmp [Fsync, Replace] (run_calls path tmp (map Write data) (fs(tmp := Some [])))"
    by (simp add: sys_calls_def run_calls_def)
  then have "run_calls path tmp (sys_calls data) fs path = Some data"
    using assms(1) run_writes [of "fs(tmp := Some [])" tmp "[]" path data] by (simp add: run_calls_def)
  then show ?thesis using assms(2) by (cases plan) (auto simp: Let_def split: if_splits)
qed

text \<open>Before the last call only the temporary file has changed.\<close>

lemma run_before_replace:
  assumes "n < length (sys_calls data)"
  shows "crash_state n path tmp data fs =
    (if n < 2 then fs else fs(tmp := Some (take (n - 2) data)))"
proof (cases "n < 2")
  case True
  then have "n = 0 \<or> n = 1" by auto
  then show ?thesis by (auto simp: crash_state_def run_calls_def sys_calls_def)
next
  case False
  let ?w = "run_calls path tmp (map Write (take (n - 2) data)) (fs(tmp := Some []))"
  have n: "n - 2 < length data + 2" using assms False by (simp add: sys_calls_def)
  have "crash_state n path tmp data fs =
      run_calls path tmp (take (n - 2) (map Write data @ [Fsync, Replace])) (fs(tmp := Some []))"
    using False by (cases n; cases "n - 1") (auto simp: crash_state_def run_calls_def sys_calls_def)
  also have "\<dots> = run_calls path tmp (take (n - 2 - length data) [Fsync, Replace]) ?w"
    by (simp add: run_calls_append take_map)
  also have "\<dots> = ?w"
    using n by (cases "n - 2 - length data"; cases "n - 2 - length data - 1") (auto simp: run_calls_def)
  also have "\<dots> = fs(tmp := Some (take (n - 2) data))"
    using run_writes [of "fs(tmp := Some [])" tmp "[]" path "take (n - 2) data"] by simp
  finally show ?thesis using False by simp
qed

lemma crash_state_cases:
  assumes "tmp \<noteq> path" "fs tmp = None"
  shows "crash_state n path tmp data fs = fs(path := Some data) \<or>
    (\<exists>c. crash_state n path tmp data fs = fs(tmp := c))"
proof (cases "n < length (sys_calls data)")
  case True
  from run_before_replace [OF this] assms(2) show ?thesis
    by (metis fun_upd_triv)
next
  case False
  then show ?thesis using run_all [where fs = fs, OF assms] by (simp add: crash_state_def)
qed

lemma atomic_write_ok:
  assumes "tmp \<noteq> path" "fs tmp = None" "atomic_write_bytes plan tmp path data fs = (fs', Inr ())"
  shows "fs' = fs(path := Some data)"
  using assms run_all [where fs = fs, OF assms(1,2)] by (cases plan) (auto simp: Let_def split: if_splits)

lemma atomic_write_raised:
  assumes "fs tmp = None" "atomic_write_bytes plan tmp path data fs = (fs', Inl e)"
  shows "\<exists>c. fs' = fs(tmp := c)"
proof (cases plan)
  case (Interrupt n e' cleaned)
  then have n: "n < length (sys_calls data)" using assms(2) by (auto split: if_splits)
  have "fs(tmp := None) = fs" using assms(1) by (simp add: fun_upd_idem)
  then have "fs' = fs(tmp := None) \<or> fs' = fs(tmp := Some (take (n - 2) data))"
    using assms Interrupt n run_before_replace [OF n] by (auto simp: Let_def split: if_splits)
  then show ?thesis by blast
qed (use assms(2) in simp)


section \<open>The plaintext hosts file\<close>

definition HOSTS_PLAINTEXT_FILENAME :: pystr where
  "HOSTS_PLAINTEXT_FILENAME = lit ''hosts.json''"

text \<open>\<open>load_hosts_json\<close>: a text-mode read with strict UTF-8, then \<open>json.load\<close>.\<close>

definition load_hosts_json :: "pystr \<Rightarrow> files \<Rightarrow> pyval py" where
  "load_hosts_json basedir fs =
     bindE (read_file fs (path_join (path_join basedir (lit ''data'')) HOSTS_PLAINTEXT_FILENAME)) (\<lambda>bs.
       bindE (utf8_decode bs) json_loads)"

end
