(* ===== verification/PeerClient.thy ===== *)
theory PeerClient
  imports Action Config Files
begin

text \<open>
  The model of \<open>src/peer_client.py\<close>: the requests to a server, what is checked before anything is
  sent, and what is made of each answer. The network is outside: it takes a request to an answer
  or an error, and loading the certificates may fail. \<open>http.client\<close> is the standard library's:
  it refuses an address or a path with a control character or a space before it connects, and
  cannot send a path outside ASCII.
\<close>

section \<open>The network\<close>

datatype http_method = GET | POST

type_synonym certs = "pystr \<times> pystr \<times> pystr"

record http_request =
  hq_address :: pystr
  hq_port :: int
  hq_certs :: certs
  hq_timeout :: nat
  hq_method :: http_method
  hq_path :: pystr
  hq_body :: "byte list option"

text \<open>
  What the modules take from outside: loading the three certificate files, one exchange of a request
  for a status and a body, sleeping, \<open>random.shuffle\<close>, and \<open>str(...)\<close> of values that are neither
  texts nor integers.
\<close>

record 'w net =
  net_certs :: "certs \<Rightarrow> 'w \<Rightarrow> unit py"
  net_exchange :: "http_request \<Rightarrow> ('w, nat \<times> byte list) action"
  net_sleep :: "nat \<Rightarrow> 'w \<Rightarrow> 'w"
  net_shuffle :: "'w \<Rightarrow> pyval list \<Rightarrow> pyval list"
  net_format :: "pyval \<Rightarrow> pystr"

definition format_value :: "'w net \<Rightarrow> pyval \<Rightarrow> pystr" where
  "format_value net v = (case v of PStr s \<Rightarrow> s | PInt n \<Rightarrow> int_text n | _ \<Rightarrow> net_format net v)"

definition is_control :: "nat \<Rightarrow> bool" where
  "is_control c \<longleftrightarrow> c \<le> 32 \<or> c = 127"

text \<open>
  The address of an \<open>HTTPSConnection\<close>: brackets are stripped, a control character is an
  \<open>InvalidURL\<close>. The address comes from a JSON document and may be of any type.
\<close>

definition connection_host :: "pyval \<Rightarrow> pystr py" where
  "connection_host address = (case address of
     PStr s \<Rightarrow>
       let host = (if take 1 s = lit ''['' \<and> last s = 93 then butlast (drop 1 s) else s) in
       if list_ex is_control host then Inl HTTPException else Inr host
   | PDict d \<Rightarrow> if d = [] then Inl TypeError else Inl KeyError
   | _ \<Rightarrow> Inl TypeError)"

definition request_path :: "pystr \<Rightarrow> pystr py" where
  "request_path path =
     (if list_ex is_control path then Inl HTTPException
      else if list_ex (\<lambda>c. 128 \<le> c) path then Inl UnicodeEncodeError
      else Inr path)"

text \<open>\<open>_connect\<close>: no byte is sent yet.\<close>

definition connect :: "'w net \<Rightarrow> pyval \<Rightarrow> certs \<Rightarrow> ('w, pystr) action" where
  "connect net address certs w = (w, bindE (net_certs net certs w) (\<lambda>_. connection_host address))"

text \<open>\<open>_connect\<close>, \<open>conn.request\<close>, \<open>conn.getresponse\<close> and \<open>resp.read\<close> in a row.\<close>

definition http_call ::
  "'w net \<Rightarrow> pyval \<Rightarrow> int \<Rightarrow> certs \<Rightarrow> nat \<Rightarrow> http_method \<Rightarrow> pystr \<Rightarrow> byte list option \<Rightarrow>
   ('w, nat \<times> byte list) action" where
  "http_call net address port certs timeout method path body =
     doA (connect net address certs) (\<lambda>host.
     doA (pureA (request_path path)) (\<lambda>url.
       net_exchange net \<lparr>hq_address = host, hq_port = port, hq_certs = certs, hq_timeout = timeout,
         hq_method = method, hq_path = url, hq_body = body\<rparr>))"

section \<open>Requests\<close>

definition is_reachable :: "'w net \<Rightarrow> pyval \<Rightarrow> int \<Rightarrow> certs \<Rightarrow> ('w, bool) action" where
  "is_reachable net address port certs =
     tryA (doA (http_call net address port certs 3 GET (lit ''/'') None)
             (\<lambda>(status, _). pureA (Inr (status = 200))))
       (\<lambda>e. is_os_error e \<or> e = HTTPException) (\<lambda>_. pureA (Inr False))"

definition send_share :: "'w net \<Rightarrow> pyval \<Rightarrow> int \<Rightarrow> certs \<Rightarrow> pyval \<Rightarrow> ('w, unit) action" where
  "send_share net address port certs participant_data =
     doA (pureA (py_subscript participant_data (lit ''uuid''))) (\<lambda>share_uuid.
     doA (pureA (json_bytes participant_data)) (\<lambda>body.
     doA (http_call net address port certs 10 POST (lit ''/shares/'' @ format_value net share_uuid) (Some body))
       (\<lambda>(status, _). pureA (if status \<in> {200, 201} then Inr () else Inl PeerRequestError))))"

definition retrieve_share :: "'w net \<Rightarrow> pyval \<Rightarrow> int \<Rightarrow> certs \<Rightarrow> pyval \<Rightarrow> ('w, pyval) action" where
  "retrieve_share net address port certs share_uuid =
     doA (http_call net address port certs 10 GET (lit ''/shares/'' @ format_value net share_uuid) None)
       (\<lambda>(status, resp_body). pureA
         (if status = 404 then Inl ShareNotFoundError
          else if status \<noteq> 200 then Inl PeerRequestError
          else json_loads_bytes resp_body))"

definition secret_body :: "pyval \<Rightarrow> int \<Rightarrow> int \<Rightarrow> pyval" where
  "secret_body uuid treshold shares_saved = PDict
     [(lit ''uuid'', uuid), (lit ''treshold'', PInt treshold), (lit ''shares_saved'', PInt shares_saved)]"

definition record_secret ::
  "'w net \<Rightarrow> pyval \<Rightarrow> int \<Rightarrow> certs \<Rightarrow> pystr \<Rightarrow> pyval \<Rightarrow> int \<Rightarrow> int \<Rightarrow> ('w, pyval) action" where
  "record_secret net address port certs name uuid treshold shares_saved =
     doA (pureA (json_bytes (secret_body uuid treshold shares_saved))) (\<lambda>body.
     doA (http_call net address port certs 10 POST (lit ''/secrets/'' @ name) (Some body))
       (\<lambda>(status, resp_body). pureA
         (if status \<in> {200, 201} then json_loads_bytes resp_body else Inl PeerRequestError)))"

definition fetch_secret_metadata :: "'w net \<Rightarrow> pyval \<Rightarrow> int \<Rightarrow> certs \<Rightarrow> pystr \<Rightarrow> ('w, pyval) action" where
  "fetch_secret_metadata net address port certs name =
     doA (http_call net address port certs 10 GET (lit ''/secrets/'' @ name) None)
       (\<lambda>(status, resp_body). pureA
         (if status = 404 then Inl SecretNotFoundError
          else if status \<noteq> 200 then Inl PeerRequestError
          else json_loads_bytes resp_body))"

section \<open>The commands \<open>store-share\<close> and \<open>get-share\<close>\<close>

definition store_share_cmd ::
  "'w net \<Rightarrow> pystr \<Rightarrow> int \<Rightarrow> pystr \<Rightarrow> certs \<Rightarrow> ('w session, unit) action" where
  "store_share_cmd net host port data_file certs =
     doA (filesA (\<lambda>fs. (fs, bindE (read_file fs data_file) json_loads_bytes))) (\<lambda>participant_data.
     doA (worldA (send_share net (PStr host) port certs participant_data)) (\<lambda>_.
       echoA [Out (lit ''status: OK - share stored'')]))"

definition get_share_cmd :: "'w net \<Rightarrow> pystr \<Rightarrow> int \<Rightarrow> pystr \<Rightarrow> certs \<Rightarrow> ('w session, unit) action" where
  "get_share_cmd net host port share_uuid certs =
     doA (worldA (retrieve_share net (PStr host) port certs (PStr share_uuid))) (\<lambda>participant_data.
     doA (pureA (json_dumps participant_data)) (\<lambda>text. echoA [Out text]))"

end
