(* ===== verification/Mersenne.thy ===== *)
theory Mersenne
  imports Prelude
begin

text \<open>
  The modulus of the secret sharing scheme (\<open>PRIME\<close> of \<open>src/shamir.py\<close>) and the
  proof that it is a prime number, by the Lucas-Lehmer criterion: the sequence
  \<open>s 0 = 4\<close>, \<open>s (n + 1) = (s n)\<^sup>2 - 2\<close> reaches \<open>0\<close> modulo \<open>2 ^ 127 - 1\<close> after 125 steps.
  The criterion is proved in the ring of the numbers \<open>a + b * sqrt 3\<close> with integer \<open>a\<close> and \<open>b\<close>,
  the 125 squarings are checked against quotients given as numerals.
\<close>

section \<open>The modulus\<close>

definition PRIME :: int where
  "PRIME = 2 ^ 127 - 1"

lemma PRIME_pos [simp]: "0 < PRIME" "0 \<le> PRIME" "1 < PRIME" "PRIME \<noteq> 0"
  by (simp_all add: PRIME_def)

lemma PRIME_gt_chunk: "2 ^ 64 < PRIME"
  by (simp add: PRIME_def)

lemma PRIME_odd: "odd PRIME"
  by (simp add: PRIME_def)

section \<open>Integers extended by a square root of three\<close>

datatype zsqrt3 = Zs (re3: int) (im3: int)

instantiation zsqrt3 :: comm_ring_1
begin
definition zero_zsqrt3 :: zsqrt3 where "zero_zsqrt3 = Zs 0 0"
definition one_zsqrt3 :: zsqrt3 where "one_zsqrt3 = Zs 1 0"
definition plus_zsqrt3 :: "zsqrt3 \<Rightarrow> zsqrt3 \<Rightarrow> zsqrt3" where
  "plus_zsqrt3 x y = Zs (re3 x + re3 y) (im3 x + im3 y)"
definition minus_zsqrt3 :: "zsqrt3 \<Rightarrow> zsqrt3 \<Rightarrow> zsqrt3" where
  "minus_zsqrt3 x y = Zs (re3 x - re3 y) (im3 x - im3 y)"
definition uminus_zsqrt3 :: "zsqrt3 \<Rightarrow> zsqrt3" where
  "uminus_zsqrt3 x = Zs (- re3 x) (- im3 x)"
definition times_zsqrt3 :: "zsqrt3 \<Rightarrow> zsqrt3 \<Rightarrow> zsqrt3" where
  "times_zsqrt3 x y = Zs (re3 x * re3 y + 3 * (im3 x * im3 y)) (re3 x * im3 y + im3 x * re3 y)"
instance
  by standard
    (simp_all add: zero_zsqrt3_def one_zsqrt3_def plus_zsqrt3_def minus_zsqrt3_def
      uminus_zsqrt3_def times_zsqrt3_def algebra_simps)
end

lemmas zsqrt3_defs = zero_zsqrt3_def one_zsqrt3_def plus_zsqrt3_def minus_zsqrt3_def
  uminus_zsqrt3_def times_zsqrt3_def

lemma two_zsqrt3: "(2 :: zsqrt3) = Zs 2 0"
proof -
  have "(2 :: zsqrt3) = 1 + 1" by simp
  then show ?thesis by (simp only: zsqrt3_defs zsqrt3.sel) simp
qed

text \<open>Congruence modulo an integer, on both components.\<close>

definition zcong :: "int \<Rightarrow> zsqrt3 \<Rightarrow> zsqrt3 \<Rightarrow> bool" where
  "zcong q x y \<longleftrightarrow> q dvd re3 (x - y) \<and> q dvd im3 (x - y)"

definition zint :: "int \<Rightarrow> zsqrt3" where
  "zint a = Zs a 0"

lemma zcong_iff: "zcong q x y \<longleftrightarrow> (\<exists>k. x = y + zint q * k)"
proof
  assume "zcong q x y"
  then obtain a b where "re3 x = re3 y + q * a" and "im3 x = im3 y + q * b"
    by (auto simp: zcong_def zsqrt3_defs dvd_def algebra_simps)
  then have "x = y + zint q * Zs a b"
    by (cases x) (simp add: zsqrt3_defs zint_def)
  then show "\<exists>k. x = y + zint q * k" ..
qed (auto simp: zcong_def zsqrt3_defs zint_def)

lemma zcong_refl [simp]: "zcong q x x"
  by (simp add: zcong_def zsqrt3_defs)

lemma zcong_mult:
  assumes "zcong q x y" "zcong q x' y'"
  shows "zcong q (x * x') (y * y')"
proof -
  obtain k k' where "x = y + zint q * k" "x' = y' + zint q * k'"
    using assms by (auto simp: zcong_iff)
  then have "x * x' = y * y' + zint q * (k * y' + y * k' + zint q * k * k')"
    by (simp add: algebra_simps)
  then show ?thesis by (auto simp: zcong_iff)
qed

lemma zcong_power: "zcong q x y \<Longrightarrow> zcong q (x ^ n) (y ^ n)"
  by (induction n) (auto intro: zcong_mult)

lemma zcong_trans: "zcong q x y \<Longrightarrow> zcong q y z \<Longrightarrow> zcong q x z"
proof -
  assume "zcong q x y" "zcong q y z"
  then obtain k k' where "x = y + zint q * k" "y = z + zint q * k'"
    by (auto simp: zcong_iff)
  then have "x = z + zint q * (k' + k)"
    by (simp add: algebra_simps)
  then show ?thesis by (auto simp: zcong_iff)
qed

lemma zcong_sym: "zcong q x y \<Longrightarrow> zcong q y x"
  by (auto simp: zcong_def zsqrt3_defs dvd_diff_commute)

lemma zcong_mono: "q dvd m \<Longrightarrow> zcong m x y \<Longrightarrow> zcong q x y"
  by (auto simp: zcong_def intro: dvd_trans)

section \<open>The Lucas-Lehmer criterion\<close>

definition omega :: zsqrt3 where "omega = Zs 2 1"
definition omega_bar :: zsqrt3 where "omega_bar = Zs 2 (-1)"

lemma omega_inverse [simp]: "omega * omega_bar = 1" "omega_bar * omega = 1"
  by (simp_all add: omega_def omega_bar_def zsqrt3_defs)

lemma omega_power_inverse: "omega ^ n * omega_bar ^ n = 1"
  by (simp flip: power_mult_distrib)

primrec ll :: "nat \<Rightarrow> int" where
  "ll 0 = 4"
| "ll (Suc n) = (ll n)\<^sup>2 - 2"

declare ll.simps(2) [simp del]

lemma zint_ll: "zint (ll n) = omega ^ (2 ^ n) + omega_bar ^ (2 ^ n)"
proof (induction n)
  case 0
  show ?case by (simp add: zint_def omega_def omega_bar_def zsqrt3_defs)
next
  case (Suc n)
  let ?a = "omega ^ (2 ^ n)" and ?b = "omega_bar ^ (2 ^ n)"
  have "zint (ll (Suc n)) = zint (ll n) * zint (ll n) - 2 * 1"
    by (simp add: ll.simps(2) two_zsqrt3 zint_def zsqrt3_defs power2_eq_square)
  also have "\<dots> = (?a + ?b) * (?a + ?b) - 2 * (?a * ?b)"
    by (simp add: Suc omega_power_inverse)
  also have "\<dots> = ?a * ?a + ?b * ?b"
    by (simp add: algebra_simps)
  also have "\<dots> = omega ^ (2 ^ Suc n) + omega_bar ^ (2 ^ Suc n)"
    by (simp add: power_add mult_2)
  finally show ?case .
qed

lemma omega_half_order:
  assumes "m dvd ll n"
  shows "zcong m (omega ^ (2 ^ Suc n)) (-1)"
proof -
  obtain k where k: "ll n = m * k" using assms by (auto simp: dvd_def)
  let ?a = "omega ^ (2 ^ n)" and ?b = "omega_bar ^ (2 ^ n)"
  have "omega ^ (2 ^ Suc n) = ?a * (?a + ?b) - ?a * ?b"
    by (simp add: power_add mult_2 algebra_simps)
  also have "\<dots> = ?a * zint (ll n) + (-1)"
    by (simp add: zint_ll omega_power_inverse)
  also have "\<dots> = -1 + zint m * (zint k * ?a)"
    by (simp add: k zint_def zsqrt3_defs)
  finally show ?thesis by (auto simp: zcong_iff)
qed

lemma odd_part: "0 < d \<Longrightarrow> \<exists>k r. d = 2 ^ k * r \<and> odd (r :: nat)"
proof (induction d rule: less_induct)
  case (less d)
  show ?case
  proof (cases "odd d")
    case True
    then have "d = 2 ^ 0 * d \<and> odd d" by simp
    then show ?thesis by blast
  next
    case False
    then obtain e where e: "d = 2 * e" by (auto elim: evenE)
    with less.prems have "e < d" "0 < e" by auto
    from less.IH [OF this] obtain k r where "e = 2 ^ k * r" "odd r" by blast
    with e have "d = 2 ^ Suc k * r \<and> odd r" by simp
    then show ?thesis by blast
  qed
qed

text \<open>No power of \<open>omega\<close> below the \<open>2 ^ p\<close>-th is one modulo a divisor greater than two.\<close>

lemma omega_order:
  assumes half: "zcong q (omega ^ (2 ^ n)) (-1)"
    and q: "2 < q" and d: "0 < d" "d < 2 ^ Suc n"
  shows "\<not> zcong q (omega ^ d) 1"
proof
  assume one: "zcong q (omega ^ d) 1"
  obtain k r where dk: "d = 2 ^ k * r" and r: "odd r"
    using odd_part [OF d(1)] by blast
  have "(2::nat) ^ k \<le> d" using dk d(1) by (cases r) auto
  with d(2) have "(2::nat) ^ k < 2 ^ Suc n" by linarith
  then have "k \<le> n" by (metis less_Suc_eq_le power_less_imp_less_exp one_less_numeral_iff semiring_norm(76))
  then have "d * 2 ^ (n - k) = 2 ^ n * r"
    by (simp add: dk flip: power_add)
  then have "omega ^ (2 ^ n * r) = (omega ^ d) ^ (2 ^ (n - k))"
    by (metis power_mult)
  with zcong_power [OF one, of "2 ^ (n - k)"] have "zcong q (omega ^ (2 ^ n * r)) 1"
    by simp
  moreover have "zcong q (omega ^ (2 ^ n * r)) ((-1) ^ r)"
    using zcong_power [OF half, of r] by (simp add: power_mult)
  ultimately have "zcong q (-1) 1"
    using r by (metis zcong_sym zcong_trans power_minus_odd power_one)
  then have "q dvd 2" by (simp add: zcong_def zsqrt3_defs)
  with q show False using zdvd_imp_le [of q 2] by simp
qed

lemma omega_powers_inj:
  assumes half: "zcong q (omega ^ (2 ^ n)) (-1)" and q: "2 < q"
  shows "inj_on (\<lambda>i. (re3 (omega ^ i) mod q, im3 (omega ^ i) mod q)) {..<2 ^ Suc n}"
proof -
  have no: False
    if lt: "i < j" "j < 2 ^ Suc n"
      and eq: "(re3 (omega ^ i) mod q, im3 (omega ^ i) mod q) =
        (re3 (omega ^ j) mod q, im3 (omega ^ j) mod q)" for i j
  proof -
    from eq have "zcong q (omega ^ i) (omega ^ j)"
      by (simp add: zcong_def zsqrt3_defs mod_eq_dvd_iff)
    then have "zcong q (omega ^ i * omega_bar ^ i) (omega ^ j * omega_bar ^ i)"
      by (rule zcong_mult) simp
    moreover have "omega ^ j * omega_bar ^ i = omega ^ (j - i) * (omega ^ i * omega_bar ^ i)"
      using lt by (simp add: mult.assoc [symmetric] flip: power_add)
    ultimately have "zcong q (omega ^ (j - i)) 1"
      by (simp add: omega_power_inverse zcong_sym)
    moreover have "j - i < 2 ^ Suc n" using lt(2) by (rule le_less_trans [OF diff_le_self])
    ultimately show False
      using omega_order [OF half q, of "j - i"] lt(1) by simp
  qed
  show ?thesis
  proof (rule inj_onI)
    fix i j :: nat
    assume "i \<in> {..<2 ^ Suc n}" "j \<in> {..<2 ^ Suc n}"
      and "(re3 (omega ^ i) mod q, im3 (omega ^ i) mod q) =
        (re3 (omega ^ j) mod q, im3 (omega ^ j) mod q)"
    then show "i = j" using no [of i j] no [of j i] by (cases i j rule: linorder_cases) auto
  qed
qed

lemma omega_divisor_bound:
  assumes half: "zcong q (omega ^ (2 ^ n)) (-1)" and q: "2 < q"
  shows "2 ^ Suc n \<le> q * q"
proof -
  let ?f = "\<lambda>i. (re3 (omega ^ i) mod q, im3 (omega ^ i) mod q)"
  have "card (?f ` {..<2 ^ Suc n}) \<le> card ({0..<q} \<times> {0..<q})"
    using q by (intro card_mono) auto
  moreover have "card (?f ` {..<2 ^ Suc n}) = 2 ^ Suc n"
    using omega_powers_inj [OF assms] by (simp add: card_image)
  ultimately have "2 ^ Suc n \<le> nat q * nat q" by simp
  then have "int (2 ^ Suc n) \<le> int (nat q * nat q)" by (simp only: of_nat_le_iff)
  with q show ?thesis by simp
qed

theorem lucas_lehmer:
  fixes d m :: int
  assumes ll: "(2 ^ Suc (Suc n) - 1) dvd ll n" and d: "1 < d" "d < m" "d dvd m"
    and m: "m = 2 ^ Suc (Suc n) - 1"
  shows False
proof -
  define q where "q = min d (m div d)"
  have prod: "d * (m div d) = m" using d(3) by simp
  have "m div d dvd m" using d(3) by (metis dvd_div_mult_self dvd_triv_left)
  with d(3) have q_dvd: "q dvd m" by (auto simp: q_def min_def)
  have "1 < m div d" using d prod
    by (metis less_irrefl mult.right_neutral mult_le_cancel_left_pos not_less order_less_trans zero_less_one_class.zero_less_one)
  with d(1) have "1 < q" by (simp add: q_def)
  moreover have "odd m" by (simp add: m)
  then have "q \<noteq> 2" using q_dvd by auto
  ultimately have q2: "2 < q" by simp
  have "q * q \<le> d * (m div d)" using q2 by (intro mult_mono) (auto simp: q_def)
  then have "q * q \<le> m" by (simp add: prod)
  moreover have "zcong q (omega ^ (2 ^ Suc n)) (-1)"
    using ll m q_dvd by (intro zcong_mono [OF q_dvd] omega_half_order) simp
  then have "2 ^ Suc (Suc n) \<le> q * q" using q2 by (rule omega_divisor_bound)
  ultimately show False by (simp add: m)
qed

section \<open>The 125 squarings\<close>

text \<open>One step of the sequence modulo \<open>2 ^ 127 - 1\<close> is certified by its quotient \<open>k\<close>.\<close>

fun ll_chain :: "int \<Rightarrow> (int \<times> int) list \<Rightarrow> int \<Rightarrow> bool" where
  "ll_chain a [] z \<longleftrightarrow> a = z"
| "ll_chain a ((k, b) # steps) z \<longleftrightarrow>
     a\<^sup>2 + k = k * 170141183460469231731687303715884105728 + b \<and> ll_chain (b - 2) steps z"

lemma ll_chain_sound:
  assumes "ll_chain a steps z" "PRIME dvd ll n - a" "m = n + length steps"
  shows "PRIME dvd ll m - z"
  using assms
proof (induction a steps z arbitrary: n rule: ll_chain.induct)
  case (1 a z)
  then show ?case by simp
next
  case (2 a k b steps z)
  from "2.prems"(1) have "a\<^sup>2 = k * PRIME + b" and rest: "ll_chain (b - 2) steps z"
    by (simp_all add: PRIME_def algebra_simps)
  then have "ll (Suc n) - (b - 2) = (ll n - a) * (ll n + a) + PRIME * k"
    by (simp add: ll.simps(2) algebra_simps power2_eq_square)
  with "2.prems"(2) have "PRIME dvd ll (Suc n) - (b - 2)" by simp
  from "2.IH" [OF rest this] "2.prems"(3) show ?case by simp
qed

lemma ll_part_1:
  "ll_chain 4 [
    (0, 16),
    (0, 196),
    (0, 37636),
    (0, 1416317956),
    (0, 2005956546822746116),
    (0, 4023861667741036022825635656102100996),
    (95164864801105677036244285904013549, 148295852275705128589952510455019292913),
    (129255359313327696597920401408587723150, 17934813421766634732012365957609373871),
    (1890533061610652598787773242611864405, 85902463759488963702490017444612081726),
    (43371235169907073266353290607937632731, 116475895319100247619106962527555061739),
    (79737509252356199665711774231654585836, 49976279066382381059963127566460774397),
    (14679740780698350017774342584696555374, 160668395611328156886231636609761589127),
    (151723015105957460882970146860493497337, 94281146402315220816856494248417316626),
    (52244461841304048645702557244226910402, 108007687823445325965842618064742685122),
    (68564590839802349717553900239393842554, 31734492925565095550179541226941707642),
    (5919072741590084155107846271135062000, 40502963312906587195023713454534295600),
    (9641933856113149689402380246332582730, 94088105965254764875368473681747882894),
    (52030740024714970888577090281796317740, 144493995864766378690749087262700586684),
    (122712881245580719833745170422595311930, 20955297820352149233036565636331346014),
    (2580941884900443002248407613258914600, 158915090152235934934479130912004389944),
    (148429706226657433277165932997460845758, 52870398708381174466959392316679307298),
    (16429173717559403367049838236434253836, 151490860312186869918440828859019512844),
    (134884924927412530999353271184855245138, 95080894369933623491452109744508211638),
    (53134557373564556731074859807980994970, 16832551656452962969322409924830603306),
    (1665292256139664561410712785647540639, 50174049518004850581182191673210576863)]
    50174049518004850581182191673210576861"
  by simp

lemma ll_part_2:
  "ll_chain 50174049518004850581182191673210576861 [
    (14796154545499009859215630031306851311, 144336566379264365321651202616996055224),
    (122445629978800271842438514988989681943, 130822199398052164937252409514558681723),
    (100589683856995785554667752399268122756, 102532921936216636347982935976260898229),
    (61789861025745688322125224838560211580, 113510945853789792879800143796642024869),
    (75729665014441668145329568219567570590, 818764630715300415439121721750598759),
    (3940113186447406849075713814276425, 98873676748258741042292766411306359074),
    (57458187106066107101373900407250336115, 115157140590183601330851495358050270579),
    (77942134638956616987379832746238961868, 61932212331753972177049746744878494893),
    (22543624337705547775884157092737818971, 162235341974786734396644569954762754964),
    (154696856165875230539765309205393445304, 138222088850540840559618349986527965436),
    (112291130563610786257212900723198706396, 12643335933642280592896036123803678464),
    (939537037886366530488236565302221553, 107874906898446614736459591766452551413),
    (68396112579364277817323295132823941802, 105127310369349743611680099371735190867),
    (64956356601700521302452130025657997468, 9288955258648756974993511313169148989),
    (507135827095183362551019148411771248, 22544078789156567134084495007232388873),
    (2987139727811890755417042191671764960, 145330281715042877722945273276030728721),
    (124137439000951668699914113214717430325, 2984059486841025471869552930115409686),
    (52336599757311728516717267542773503, 37572228739714097091268646718694828175),
    (8297064495248367086269964089633809808, 137863838131209681188612129313912947513),
    (111709801693511546333508904126878235716, 56951438527019760670940985275669549589),
    (19063381859281006222054929326128309918, 33425539749822146052823924594117170183),
    (6566703515533775331339781172430978681, 107032723030256277290622289200228566674),
    (67332338745211864435706578650744751817, 53753380576481396758706859471945799625),
    (16982519250381137329004492563492020670, 47099113889942965118806100149717565039),
    (13038151516873787901155527223597147343, 99592518053374632198667753856515678008)]
    99592518053374632198667753856515678006"
  by simp

lemma ll_part_3:
  "ll_chain 99592518053374632198667753856515678006 [
    (58296700719236888379623729326625285379, 71264320053401377760498554706288870503),
    (29849347520576012620589513930408021262, 93303582026251481068288102203876023527),
    (51166673711024799325984245978768784602, 120228733067825856598036469060895809971),
    (84958550076460467120989406891973700508, 118032048866201789290845587608054171645),
    (81882377189355335422140540834490581775, 2650987091797688081935257855065994024),
    (41305299622009471474947301293560960, 145145919991993592884437642677980118564),
    (123822684560184755012048315487075246788, 62997327855360484015702535758367792968),
    (23325706546750693436117982614880107581, 83098680626625704955924126176100860769),
    (40586238918987791512935847303536028445, 47102745120534589629594563604260423774),
    (13040162015832766999429036723213881378, 23086037567407917159207583474834256178),
    (3132487500814870602511386719425444228, 1648903944353085502350569803700249220),
    (15980165192249714767142201607123640, 146001941445125883362200107861188525244),
    (125287519883148567812748645947911537955, 58072554876864005167998859270477790279),
    (19821312872846761856399676192518839262, 85183974222777764635811000451869083255),
    (42648753916025303060423990601420832236, 2178744815368192602929511049691246437),
    (27899940942850475554350717216120392, 142650016674409483015140356448611524241),
    (119600832927891419959006041428692768984, 131180293024080215139431333296642157753),
    (101141116617904179554433941884284523834, 23796400979692190167798559040061980683),
    (3328228287055866454428651025916150367, 94691321662907057932605046718559371952),
    (52700035440575175967920858021024837431, 28963125299159837855551115831455735163),
    (4930391396329594749980766885121646977, 151145149675516943070949943379933758642),
    (134269997456213860391526894629743138665, 76394190749566845285279900410093015145),
    (34301350570052683895747778395134152122, 47725036928709433877841763022477907755),
    (13386994868152409349864856380700617753, 104312534247659063865391654129512337578),
    (63953386122397412310506854919877373350, 18945859719359721770108285233329380326)]
    18945859719359721770108285233329380324"
  by simp

lemma ll_part_4:
  "ll_chain 18945859719359721770108285233329380324 [
    (2109692628234568532632321640976558923, 164494116784207012462580689820261092955),
    (159034478932627680354677843203235776983, 19312431404447051481513679243141178568),
    (2192120679812533030649949610091896176, 27736528190775597167138586218006816404),
    (4521627159460970934869565247488651411, 2300146040010405501321960790364494807),
    (31095774096368559615945660751517105, 148671707681260870148526487891403027690),
    (129911384271038523989837375130612231145, 44689644596926350087083033086752357929),
    (11738276962576856778595207500151045356, 114252518218238942159527597790043383517),
    (76722388158549022492723796104783036304, 132347767817386283653136701980558442217),
    (102949393497750396932473057725439932643, 82898165451862550147177322318323559764),
    (40390607938148316957263533509996530827, 82550532064404830850169960592302750415),
    (40052562263384271460866362290296713164, 75643059898515530266520341907002980341),
    (33630144062914866087343195366118996670, 123982986142288470036528246058979625831),
    (90347207772481430584322189581564293222, 82251894353697560270857485942566454847),
    (39763295324342787406715100523148555133, 138612996512155828504361896311563427334),
    (112927172665065079741999204188277303884, 38110442230077683457296715174480894556),
    (8536474105985878806557448664308384875, 139824088758964839080901930176959179791),
    (114909132519448612879047746529698042884, 91384193027872879688983922241190087853),
    (49083182363638760879978287940351406124, 169520666637091361903503058366366526053),
    (168902412882068041421276705187527422365, 169025277276139840475937137620617270246),
    (167916689993600702155304539918904418225, 75767585679605360512739263520802144961),
    (33740961023996552906677388277772406496, 49956247714329574425552443869563509089),
    (14667975353981801612223294460653674901, 183690004880779837464570338561315542),
    (198317757093423379230798161447120, 163703822629639553167738612906045835360),
    (157510021962336821563475155256775542985, 169082445910970886147479859194469813069),
    (168030296567666475958216709254347839632, 4415171566587865141382642765195174025)]
    4415171566587865141382642765195174023"
  by simp

lemma ll_part_5:
  "ll_chain 4415171566587865141382642765195174023 [
    (114573906011034287875478716590553006, 110059221777184243569539344972552339167),
    (71194005189306680511731609564026631761, 5064148876153793895511724877772701978),
    (150731312185848632673957263850017177, 26339871245616999480560619437480231897),
    (4077724176621098872665845380891616286, 92058826383142394228174232088236221103),
    (49810559340623158603790355391426926575, 25358529928264030171413979572591657176),
    (3779537834659946123477653664580527083, 57391611503696291044494362875786761935),
    (19359199248525789575222557574887732744, 4628408976566823773472049228202071601),
    (125908197055309661808554617826060458, 62888400681175191832847866264356373835),
    (23245112440133775637943546114001995149, 83454791660308671184475704797189993566),
    (40934840756433973191603545035512518551, 134424104788780027271116197574228580519),
    (106204973897241508680810981453013434959, 15898780365670245164798848628558077096),
    (1485655688850611558838624582022494544, 158133952358979283618604204477670831348),
    (146974097511681695387538526206160929203, 6721506539191163416499937441762326135),
    (265536240183061982794988661894157983, 882594379818242655466533853441665048),
    (4578390860127851917455298571831719, 161925513938892243375929285060210027403),
    (154106557454776002622711355120440204557, 80309984059206838477625980764275616862),
    (37907891601615575829156530042630857450, 111061271103311825402106204765050643450),
    (72496298005057433048817372456933114137, 8300180540889597001844078179358966105),
    (404916643990365736868490309763630116, 132515367850942399280896079195237732277),
    (103210300760312748615027165924239407098, 46864209815407210576219476880150425379),
    (12908421799785995780779408738434087041, 51366641762479717422620116634081008322),
    (15507896632022454920346147099655768112, 142797848550190257259709111711506044976),
    (119848852205149912813202183883089186967, 87676307088191859152273331489412200667),
    (45180917801767603405792200428798695441, 18446744073709551618),
    (2, 2)]
    0"
  by simp

lemma PRIME_dvd_ll: "PRIME dvd ll 125"
proof -
  have "PRIME dvd ll 0 - 4" by simp
  from ll_chain_sound [OF ll_part_1 this, of 25]
  have "PRIME dvd ll 25 - 50174049518004850581182191673210576861" by (simp add: numeral_eq_Suc)
  from ll_chain_sound [OF ll_part_2 this, of 50]
  have "PRIME dvd ll 50 - 99592518053374632198667753856515678006" by (simp add: numeral_eq_Suc)
  from ll_chain_sound [OF ll_part_3 this, of 75]
  have "PRIME dvd ll 75 - 18945859719359721770108285233329380324" by (simp add: numeral_eq_Suc)
  from ll_chain_sound [OF ll_part_4 this, of 100]
  have "PRIME dvd ll 100 - 4415171566587865141382642765195174023" by (simp add: numeral_eq_Suc)
  from ll_chain_sound [OF ll_part_5 this, of 125] show ?thesis by (simp add: numeral_eq_Suc)
qed

theorem PRIME_prime:
  assumes "0 < d" "d dvd PRIME"
  shows "d = 1 \<or> d = PRIME"
proof (rule ccontr)
  assume "\<not> (d = 1 \<or> d = PRIME)"
  with assms have "1 < d" "d < PRIME"
    using zdvd_imp_le [of d PRIME] by auto
  moreover have "PRIME = 2 ^ Suc (Suc 125) - 1" by (simp add: PRIME_def)
  ultimately show False
    using lucas_lehmer [of 125 d PRIME] PRIME_dvd_ll assms(2) by simp
qed

end
