(* ===== verification/GaloisField.thy ===== *)
theory GaloisField
  imports Mersenne
begin

text \<open>
  The field of integers modulo \<open>PRIME\<close> as a type, an instance of the library's class
  \<open>field\<close>, with the reduction \<open>gf\<close> from the integers of the program. The arithmetic of
  \<open>src/shamir.py\<close> on representatives (products and sums followed by \<open>% PRIME\<close>, the inverse
  \<open>pow(den, -1, PRIME)\<close>) is related to the field's by the lemmas collected in \<open>gf_hom\<close>.
\<close>

section \<open>Modular inverses\<close>

text \<open>
  \<open>pow(a, -1, m)\<close> of Python: the inverse of \<open>a\<close> in \<open>{0..<m}\<close>, or \<open>ValueError\<close> (here \<open>None\<close>)
  where \<open>a\<close> has none. The extended Euclidean algorithm keeps \<open>r = a * u\<close> modulo \<open>m\<close> for
  both remainders.
\<close>

function egcd :: "int \<Rightarrow> int \<Rightarrow> int \<Rightarrow> int \<Rightarrow> int \<times> int" where
  "egcd r0 u0 r1 u1 =
     (if r1 \<le> 0 then (r0, u0) else egcd r1 u1 (r0 mod r1) (u0 - (r0 div r1) * u1))"
  by pat_completeness auto
termination
  by (relation "measure (\<lambda>(r0, u0, r1, u1). nat r1)") auto

declare egcd.simps [simp del]

definition pow_inv :: "int \<Rightarrow> int \<Rightarrow> int option" where
  "pow_inv a m =
     (let (g, u) = egcd m 0 (a mod m) 1 in if g = 1 then Some (u mod m) else None)"

lemma egcd_gcd: "0 \<le> r0 \<Longrightarrow> 0 \<le> r1 \<Longrightarrow> fst (egcd r0 u0 r1 u1) = gcd r0 r1"
proof (induction r0 u0 r1 u1 rule: egcd.induct)
  case (1 r0 u0 r1 u1)
  then show ?case
    by (cases "r1 \<le> 0") (simp_all add: egcd.simps [of r0] gcd_red_int [of r0 r1])
qed

lemma egcd_linear:
  assumes "m dvd r0 - a * u0" "m dvd r1 - a * u1"
  shows "m dvd fst (egcd r0 u0 r1 u1) - a * snd (egcd r0 u0 r1 u1)"
  using assms
proof (induction r0 u0 r1 u1 rule: egcd.induct)
  case (1 r0 u0 r1 u1)
  show ?case
  proof (cases "r1 \<le> 0")
    case True
    with "1.prems" show ?thesis by (simp add: egcd.simps [of r0])
  next
    case False
    have "r0 mod r1 - a * (u0 - r0 div r1 * u1) = (r0 - a * u0) - r0 div r1 * (r1 - a * u1)"
      by (simp add: minus_div_mult_eq_mod [symmetric] algebra_simps)
    with "1.prems" have "m dvd r0 mod r1 - a * (u0 - r0 div r1 * u1)"
      by (metis dvd_diff dvd_mult)
    with "1.IH" [OF False "1.prems"(2)] False show ?thesis
      by (simp add: egcd.simps [of r0])
  qed
qed

lemma pow_inv_Some:
  assumes "0 < m" "pow_inv a m = Some i"
  shows "0 \<le> i" "i < m" "(a * i) mod m = 1 mod m"
proof -
  obtain u where u: "egcd m 0 (a mod m) 1 = (1, u)" and i: "i = u mod m"
    using assms(2) by (auto simp: pow_inv_def Let_def split: prod.splits if_splits)
  show "0 \<le> i" "i < m" using assms(1) by (simp_all add: i)
  have "m dvd 1 - a * u"
    using egcd_linear [of m m a 0 "a mod m" 1] by (simp add: u mod_eq_dvd_iff [symmetric])
  then have "1 mod m = (a * u) mod m" by (simp add: mod_eq_dvd_iff)
  then show "(a * i) mod m = 1 mod m" by (simp add: i mod_mult_right_eq)
qed

lemma pow_inv_iff_coprime: "0 < m \<Longrightarrow> pow_inv a m \<noteq> None \<longleftrightarrow> coprime a m"
proof -
  assume "0 < m"
  then have "fst (egcd m 0 (a mod m) 1) = gcd a m"
    by (simp add: egcd_gcd gcd.commute flip: gcd_red_int)
  then show ?thesis
    by (auto simp: pow_inv_def coprime_iff_gcd_eq_1 split: prod.splits)
qed

lemma coprime_PRIME_iff: "coprime a PRIME \<longleftrightarrow> a mod PRIME \<noteq> 0"
proof
  show "coprime a PRIME \<Longrightarrow> a mod PRIME \<noteq> 0"
    by (metis PRIME_pos(3) coprime_absorb_right dvd_eq_mod_eq_0 less_irrefl zdvd1_eq zdvd_not_zless zero_less_one)
next
  assume nz: "a mod PRIME \<noteq> 0"
  have "gcd a PRIME = 1 \<or> gcd a PRIME = PRIME"
    by (rule PRIME_prime) simp_all
  moreover have "gcd a PRIME \<noteq> PRIME"
    using nz by (metis dvd_eq_mod_eq_0 gcd_dvd1)
  ultimately show "coprime a PRIME" by (simp add: coprime_iff_gcd_eq_1)
qed

lemma pow_inv_PRIME_None: "pow_inv a PRIME = None \<longleftrightarrow> a mod PRIME = 0"
  using pow_inv_iff_coprime [of PRIME a] coprime_PRIME_iff by auto

section \<open>The field\<close>

typedef gf = "{0..<PRIME}"
  morphisms gf_rep gf_abs
  by (rule exI [of _ 0]) simp

setup_lifting type_definition_gf

lift_definition gf :: "int \<Rightarrow> gf" is "\<lambda>a. a mod PRIME"
  by simp

instantiation gf :: comm_ring_1
begin
lift_definition zero_gf :: gf is 0 by simp
lift_definition one_gf :: gf is 1 by simp
lift_definition plus_gf :: "gf \<Rightarrow> gf \<Rightarrow> gf" is "\<lambda>a b. (a + b) mod PRIME" by simp
lift_definition minus_gf :: "gf \<Rightarrow> gf \<Rightarrow> gf" is "\<lambda>a b. (a - b) mod PRIME" by simp
lift_definition uminus_gf :: "gf \<Rightarrow> gf" is "\<lambda>a. (- a) mod PRIME" by simp
lift_definition times_gf :: "gf \<Rightarrow> gf \<Rightarrow> gf" is "\<lambda>a b. (a * b) mod PRIME" by simp
instance
  by standard (transfer; simp add: algebra_simps mod_simps)+
end

instantiation gf :: field
begin
lift_definition inverse_gf :: "gf \<Rightarrow> gf" is
  "\<lambda>a. case pow_inv a PRIME of None \<Rightarrow> 0 | Some i \<Rightarrow> i"
  using pow_inv_Some [of PRIME] by (auto split: option.splits)
definition divide_gf :: "gf \<Rightarrow> gf \<Rightarrow> gf" where "divide_gf a b = a * inverse b"
instance
proof
  fix a b :: gf
  show "a div b = a * inverse b" by (rule divide_gf_def)
  show "inverse (0 :: gf) = 0"
    by transfer (simp add: iffD2 [OF pow_inv_PRIME_None])
  show "inverse a * a = 1" if "a \<noteq> 0"
    using that
  proof transfer
    fix a assume a: "a \<in> {0..<PRIME}" "a \<noteq> 0"
    then obtain i where "pow_inv a PRIME = Some i"
      using pow_inv_PRIME_None [of a] by (cases "pow_inv a PRIME") auto
    then show "(case pow_inv a PRIME of None \<Rightarrow> 0 | Some i \<Rightarrow> i) * a mod PRIME = 1"
      using pow_inv_Some(3) [of PRIME a i] by (simp add: mult.commute)
  qed
qed
end

section \<open>Reduction is a homomorphism\<close>

named_theorems gf_hom

lemma gf_mod [simp, gf_hom]: "gf (a mod PRIME) = gf a" by transfer simp
lemma gf_add [gf_hom]: "gf (a + b) = gf a + gf b" by transfer (simp add: mod_simps)
lemma gf_diff [gf_hom]: "gf (a - b) = gf a - gf b" by transfer (simp add: mod_simps)
lemma gf_minus [gf_hom]: "gf (- a) = - gf a" by transfer (simp add: mod_simps)
lemma gf_mult [gf_hom]: "gf (a * b) = gf a * gf b" by transfer (simp add: mod_simps)
lemma gf_0 [simp, gf_hom]: "gf 0 = 0" by transfer simp
lemma gf_1 [simp, gf_hom]: "gf 1 = 1" by transfer simp
lemma gf_power [gf_hom]: "gf (a ^ n) = gf a ^ n" by (induction n) (simp_all add: gf_mult)

lemma gf_eq_iff: "gf a = gf b \<longleftrightarrow> a mod PRIME = b mod PRIME"
  by transfer simp

lemma gf_eq_0_iff: "gf a = 0 \<longleftrightarrow> a mod PRIME = 0"
  using gf_eq_iff [of a 0] by simp

lemma gf_inj: "a \<in> {0..<PRIME} \<Longrightarrow> b \<in> {0..<PRIME} \<Longrightarrow> gf a = gf b \<longleftrightarrow> a = b"
  by (simp add: gf_eq_iff)

lemma gf_rep_range [simp]: "0 \<le> gf_rep a" "gf_rep a < PRIME"
  using gf_rep [of a] by simp_all

lemma gf_rep_gf [simp]: "gf_rep (gf a) = a mod PRIME"
  by transfer simp

lemma gf_gf_rep [simp]: "gf (gf_rep a) = a"
  by transfer simp

lemma gf_pow_inv [gf_hom]: "pow_inv a PRIME = Some i \<Longrightarrow> gf i = inverse (gf a)"
proof -
  assume "pow_inv a PRIME = Some i"
  then have "(a * i) mod PRIME = 1 mod PRIME" by (rule pow_inv_Some(3) [OF PRIME_pos(1)])
  then have "gf (a * i) = gf 1" by (simp only: gf_eq_iff)
  then have "gf a * gf i = 1" by (simp add: gf_mult)
  then show ?thesis by (metis inverse_unique)
qed

end
