(* ===== verification/Interpolation.thy ===== *)
theory Interpolation
  imports Prelude
begin

text \<open>
  Polynomials over a field as coefficient lists, lowest degree first: a polynomial with at most
  \<open>n\<close> coefficients is determined by its values at \<open>n\<close> points, the Lagrange formula gives its
  value anywhere, and any \<open>n\<close> values are taken by exactly one such polynomial. These are the
  facts that the recovery and the secrecy of the secret sharing in \<open>src/shamir.py\<close> rest on.
\<close>

section \<open>Evaluation and roots\<close>

primrec poly_eval :: "'a::field list \<Rightarrow> 'a \<Rightarrow> 'a" where
  "poly_eval [] x = 0"
| "poly_eval (c # cs) x = c + x * poly_eval cs x"

lemma poly_eval_append: "poly_eval (cs @ ds) x = poly_eval cs x + x ^ length cs * poly_eval ds x"
  by (induction cs) (simp_all add: algebra_simps)

lemma poly_eval_zeros: "set cs \<subseteq> {0} \<Longrightarrow> poly_eval cs x = 0"
  by (induction cs) auto

lemma poly_eval_sum: "poly_eval cs x = (\<Sum>i<length cs. cs ! i * x ^ i)"
  by (induction cs) (simp_all add: sum.lessThan_Suc_shift sum_distrib_left algebra_simps del: sum.lessThan_Suc)

text \<open>The quotient of \<open>p(x) - p(a)\<close> by \<open>x - a\<close>.\<close>

fun poly_quot :: "'a::field list \<Rightarrow> 'a \<Rightarrow> 'a list" where
  "poly_quot [] a = []"
| "poly_quot [c] a = []"
| "poly_quot (c # cs) a = poly_eval cs a # poly_quot cs a"

lemma length_poly_quot [simp]: "length (poly_quot cs a) = length cs - 1"
  by (induction cs a rule: poly_quot.induct) auto

lemma poly_quot: "poly_eval cs x - poly_eval cs a = (x - a) * poly_eval (poly_quot cs a) x"
proof (induction cs a rule: poly_quot.induct)
  case (3 c c' cs a)
  let ?q = "poly_eval (c' # cs)"
  have "poly_eval (c # c' # cs) x - poly_eval (c # c' # cs) a
      = x * (?q x - ?q a) + (x - a) * ?q a"
    by (simp add: algebra_simps)
  then show ?case by (simp only: "3") (simp add: algebra_simps)
qed simp_all

lemma poly_quot_zero:
  "set (poly_quot cs a) \<subseteq> {0} \<Longrightarrow> poly_eval cs a = 0 \<Longrightarrow> set cs \<subseteq> {0}"
proof (induction cs a rule: poly_quot.induct)
  case (3 c c' cs a)
  then have "set (c' # cs) \<subseteq> {0}" by simp
  with "3.prems"(2) show ?case by (auto simp: poly_eval_zeros)
qed simp_all

lemma poly_roots_zero:
  assumes "finite S" "length cs \<le> card S" "\<And>x. x \<in> S \<Longrightarrow> poly_eval cs x = 0"
  shows "set cs \<subseteq> {0}"
  using assms
proof (induction "length cs" arbitrary: cs S)
  case 0
  then show ?case by simp
next
  case (Suc n)
  then obtain a where a: "a \<in> S" by fastforce
  have "set (poly_quot cs a) \<subseteq> {0}"
  proof (rule Suc.hyps(1) [of _ "S - {a}"])
    show "n = length (poly_quot cs a)" using Suc.hyps(2) by simp
    show "length (poly_quot cs a) \<le> card (S - {a})"
      using Suc.prems a Suc.hyps(2) by simp
    fix x assume x: "x \<in> S - {a}"
    then have "(x - a) * poly_eval (poly_quot cs a) x = 0"
      using Suc.prems(3) a by (simp flip: poly_quot)
    with x show "poly_eval (poly_quot cs a) x = 0" by simp
  qed (use Suc.prems in simp)
  then show ?case using Suc.prems(3) [OF a] by (rule poly_quot_zero)
qed

lemma poly_eval_diff:
  "length cs = length ds \<Longrightarrow> poly_eval (map2 (-) cs ds) x = poly_eval cs x - poly_eval ds x"
  by (induction cs ds rule: list_induct2) (simp_all add: right_diff_distrib)

lemma poly_eval_add:
  "length cs = length ds \<Longrightarrow> poly_eval (map2 (+) cs ds) x = poly_eval cs x + poly_eval ds x"
  by (induction cs ds rule: list_induct2) (simp_all add: algebra_simps)

lemma poly_eval_scale: "poly_eval (map ((*) c) cs) x = c * poly_eval cs x"
  by (induction cs) (simp_all add: algebra_simps)

lemma map2_diff_zero:
  "length cs = length ds \<Longrightarrow> set (map2 (-) cs ds) \<subseteq> {0} \<Longrightarrow> cs = (ds :: 'a::field list)"
  by (induction cs ds rule: list_induct2) simp_all

lemma poly_unique:
  assumes "length cs = length ds" "finite S" "length cs \<le> card S"
    and "\<And>x. x \<in> S \<Longrightarrow> poly_eval cs x = poly_eval ds x"
  shows "cs = ds"
proof (rule map2_diff_zero [OF assms(1)])
  show "set (map2 (-) cs ds) \<subseteq> {0}"
    by (rule poly_roots_zero [OF assms(2)])
      (use assms in \<open>simp_all add: poly_eval_diff\<close>)
qed

section \<open>Polynomial functions\<close>

definition is_poly :: "nat \<Rightarrow> ('a::field \<Rightarrow> 'a) \<Rightarrow> bool" where
  "is_poly n f \<longleftrightarrow> (\<exists>cs. length cs = n \<and> (\<forall>x. f x = poly_eval cs x))"

named_theorems is_poly_intros

lemma is_poly_eval [is_poly_intros]: "length cs = n \<Longrightarrow> is_poly n (poly_eval cs)"
  by (auto simp: is_poly_def)

lemma is_poly_zero [is_poly_intros]: "is_poly n (\<lambda>x. 0)"
  unfolding is_poly_def by (rule exI [of _ "replicate n 0"]) (simp add: poly_eval_zeros set_replicate_conv_if)

lemma is_poly_const: "is_poly (Suc n) (\<lambda>x. c)"
  unfolding is_poly_def by (rule exI [of _ "c # replicate n 0"]) (simp add: poly_eval_zeros set_replicate_conv_if)

lemma is_poly_add [is_poly_intros]: "is_poly n f \<Longrightarrow> is_poly n g \<Longrightarrow> is_poly n (\<lambda>x. f x + g x)"
  unfolding is_poly_def
proof (elim exE conjE)
  fix cs ds assume "length cs = n" "\<forall>x. f x = poly_eval cs x" "length ds = n" "\<forall>x. g x = poly_eval ds x"
  then show "\<exists>es. length es = n \<and> (\<forall>x. f x + g x = poly_eval es x)"
    by (intro exI [of _ "map2 (+) cs ds"]) (simp add: poly_eval_add)
qed

lemma is_poly_scale [is_poly_intros]: "is_poly n f \<Longrightarrow> is_poly n (\<lambda>x. c * f x)"
  unfolding is_poly_def
  by (elim exE conjE) (rule_tac x = "map ((*) c) cs" in exI, simp add: poly_eval_scale)

lemma is_poly_Suc: "is_poly n f \<Longrightarrow> is_poly (Suc n) f"
  unfolding is_poly_def
  by (elim exE conjE) (rule_tac x = "cs @ [0]" in exI, simp add: poly_eval_append)

lemma is_poly_shift: "is_poly n f \<Longrightarrow> is_poly (Suc n) (\<lambda>x. x * f x)"
  unfolding is_poly_def
  by (elim exE conjE) (rule_tac x = "0 # cs" in exI, simp)

lemma is_poly_linear: "is_poly n f \<Longrightarrow> is_poly (Suc n) (\<lambda>x. (x - a) * f x)"
proof -
  assume "is_poly n f"
  then have "is_poly (Suc n) (\<lambda>x. x * f x + (- a) * f x)"
    by (intro is_poly_add is_poly_shift is_poly_scale is_poly_Suc)
  then show ?thesis by (simp add: algebra_simps)
qed

lemma is_poly_sum: "(\<And>j. j \<in> A \<Longrightarrow> is_poly n (f j)) \<Longrightarrow> is_poly n (\<lambda>x. \<Sum>j\<in>A. f j x)"
  by (induction A rule: infinite_finite_induct) (auto intro: is_poly_intros)

lemma is_poly_prod: "finite A \<Longrightarrow> is_poly (Suc (card A)) (\<lambda>x. \<Prod>i\<in>A. (x - a i))"
  by (induction A rule: finite_induct) (auto intro: is_poly_const is_poly_linear)

lemma is_poly_eqI:
  assumes "is_poly n f" "is_poly n g" "finite S" "n \<le> card S" "\<And>x. x \<in> S \<Longrightarrow> f x = g x"
  shows "f = g"
proof -
  obtain cs ds where cs: "length cs = n" "\<forall>x. f x = poly_eval cs x"
    and ds: "length ds = n" "\<forall>x. g x = poly_eval ds x"
    using assms(1,2) by (auto simp: is_poly_def)
  have "cs = ds" by (rule poly_unique [of cs ds S]) (use assms cs ds in auto)
  with cs ds show ?thesis by auto
qed

section \<open>Lagrange interpolation\<close>

definition lagrange_basis :: "nat \<Rightarrow> (nat \<Rightarrow> 'a::field) \<Rightarrow> nat \<Rightarrow> 'a \<Rightarrow> 'a" where
  "lagrange_basis n x j z =
     (\<Prod>i\<in>{..<n} - {j}. (z - x i)) * inverse (\<Prod>i\<in>{..<n} - {j}. (x j - x i))"

lemma is_poly_lagrange_basis: "j < n \<Longrightarrow> is_poly n (lagrange_basis n x j)"
proof -
  assume "j < n"
  then have "is_poly n (\<lambda>z. \<Prod>i\<in>{..<n} - {j}. (z - x i))"
    using is_poly_prod [of "{..<n} - {j}" x] by simp
  from is_poly_scale [OF this, of "inverse (\<Prod>i\<in>{..<n} - {j}. (x j - x i))"]
  show ?thesis by (simp add: lagrange_basis_def [abs_def] mult.commute)
qed

lemma lagrange_basis_at:
  assumes "inj_on x {..<n}" "j < n" "k < n"
  shows "lagrange_basis n x j (x k) = (if j = k then 1 else 0)"
proof (cases "j = k")
  case True
  have "(\<Prod>i\<in>{..<n} - {k}. (x k - x i)) \<noteq> 0"
    using assms by (auto dest: inj_onD)
  with True show ?thesis by (simp add: lagrange_basis_def)
next
  case False
  with assms have "(\<Prod>i\<in>{..<n} - {j}. (x k - x i)) = 0"
    by (intro prod_zero) auto
  with False show ?thesis by (simp add: lagrange_basis_def)
qed

lemma lagrange_interpolates:
  assumes "inj_on x {..<n}" "k < n"
  shows "(\<Sum>j<n. y j * lagrange_basis n x j (x k)) = y k"
proof -
  have "(\<Sum>j<n. y j * lagrange_basis n x j (x k)) = (\<Sum>j<n. if j = k then y k else 0)"
    using assms by (intro sum.cong) (auto simp: lagrange_basis_at)
  then show ?thesis using assms(2) by simp
qed

theorem lagrange_value:
  assumes "is_poly m f" "m \<le> n" "inj_on x {..<n}"
  shows "f z = (\<Sum>j<n. f (x j) * lagrange_basis n x j z)"
proof -
  have "is_poly (m + k) f" for k
    by (induction k) (use assms(1) in \<open>auto intro: is_poly_Suc\<close>)
  from this [of "n - m"] assms(2) have f: "is_poly n f" by simp
  have "f = (\<lambda>z. \<Sum>j<n. f (x j) * lagrange_basis n x j z)"
  proof (rule is_poly_eqI [OF f])
    show "is_poly n (\<lambda>z. \<Sum>j<n. f (x j) * lagrange_basis n x j z)"
      by (intro is_poly_sum is_poly_scale is_poly_lagrange_basis) simp
    show "n \<le> card (x ` {..<n})" using assms(3) by (simp add: card_image)
  qed (use assms(3) in \<open>auto simp: lagrange_interpolates [where y = "\<lambda>j. f (x j)"]\<close>)
  then show ?thesis by metis
qed

theorem interpolation_ex1:
  fixes x :: "nat \<Rightarrow> 'a::field"
  assumes "inj_on x {..<n}"
  shows "\<exists>!cs. length cs = n \<and> (\<forall>k<n. poly_eval cs (x k) = y k)"
proof (rule ex_ex1I)
  have "is_poly n (\<lambda>z. \<Sum>j<n. y j * lagrange_basis n x j z)"
    by (intro is_poly_sum is_poly_scale is_poly_lagrange_basis) simp
  then show "\<exists>cs. length cs = n \<and> (\<forall>k<n. poly_eval cs (x k) = y k)"
    unfolding is_poly_def using assms by (metis lagrange_interpolates)
next
  fix cs ds :: "'a list"
  assume "length cs = n \<and> (\<forall>k<n. poly_eval cs (x k) = y k)"
    and "length ds = n \<and> (\<forall>k<n. poly_eval ds (x k) = y k)"
  then show "cs = ds"
    using assms by (intro poly_unique [of cs ds "x ` {..<n}"]) (auto simp: card_image)
qed

end
