(* ===== verification/Sha256.thy ===== *)
theory Sha256
  imports Bytes
begin

text \<open>
  \<open>hashlib.sha256(data).hexdigest()\<close>, with which \<open>src/shamir.py\<close> binds the shares of a secret to
  the secret itself: the hash of FIPS 180-4 on byte strings, over 32-bit words, and its
  hexadecimal digest.
\<close>

unbundle bit_operations_syntax

type_synonym word32 = "32 word"

section \<open>Padding and blocks\<close>

definition sha_pad :: "byte list \<Rightarrow> byte list" where
  "sha_pad bs = bs @ [0x80] @ replicate ((119 - length bs mod 64) mod 64) 0
     @ be_digits 8 (int (8 * length bs) mod 2 ^ 64)"

function groups_of :: "nat \<Rightarrow> 'a list \<Rightarrow> 'a list list" where
  "groups_of n xs = (if xs = [] \<or> n = 0 then [] else take n xs # groups_of n (drop n xs))"
  by pat_completeness auto
termination
  by (relation "measure (\<lambda>(n, xs). length xs)") auto

declare groups_of.simps [simp del]

definition sha_words :: "byte list \<Rightarrow> word32 list" where
  "sha_words block = map (\<lambda>g. word_of_int (int_from_bytes g)) (groups_of 4 block)"

section \<open>The compression function\<close>

definition sha_k :: "word32 list" where
  "sha_k = [
    0x428a2f98, 0x71374491, 0xb5c0fbcf, 0xe9b5dba5, 0x3956c25b, 0x59f111f1,
    0x923f82a4, 0xab1c5ed5, 0xd807aa98, 0x12835b01, 0x243185be, 0x550c7dc3,
    0x72be5d74, 0x80deb1fe, 0x9bdc06a7, 0xc19bf174, 0xe49b69c1, 0xefbe4786,
    0x0fc19dc6, 0x240ca1cc, 0x2de92c6f, 0x4a7484aa, 0x5cb0a9dc, 0x76f988da,
    0x983e5152, 0xa831c66d, 0xb00327c8, 0xbf597fc7, 0xc6e00bf3, 0xd5a79147,
    0x06ca6351, 0x14292967, 0x27b70a85, 0x2e1b2138, 0x4d2c6dfc, 0x53380d13,
    0x650a7354, 0x766a0abb, 0x81c2c92e, 0x92722c85, 0xa2bfe8a1, 0xa81a664b,
    0xc24b8b70, 0xc76c51a3, 0xd192e819, 0xd6990624, 0xf40e3585, 0x106aa070,
    0x19a4c116, 0x1e376c08, 0x2748774c, 0x34b0bcb5, 0x391c0cb3, 0x4ed8aa4a,
    0x5b9cca4f, 0x682e6ff3, 0x748f82ee, 0x78a5636f, 0x84c87814, 0x8cc70208,
    0x90befffa, 0xa4506ceb, 0xbef9a3f7, 0xc67178f2]"

definition sha_init :: "word32 list" where
  "sha_init = [0x6a09e667, 0xbb67ae85, 0x3c6ef372, 0xa54ff53a,
    0x510e527f, 0x9b05688c, 0x1f83d9ab, 0x5be0cd19]"

definition small_sigma0 :: "word32 \<Rightarrow> word32" where
  "small_sigma0 x = word_rotr 7 x XOR word_rotr 18 x XOR drop_bit 3 x"

definition small_sigma1 :: "word32 \<Rightarrow> word32" where
  "small_sigma1 x = word_rotr 17 x XOR word_rotr 19 x XOR drop_bit 10 x"

definition big_sigma0 :: "word32 \<Rightarrow> word32" where
  "big_sigma0 x = word_rotr 2 x XOR word_rotr 13 x XOR word_rotr 22 x"

definition big_sigma1 :: "word32 \<Rightarrow> word32" where
  "big_sigma1 x = word_rotr 6 x XOR word_rotr 11 x XOR word_rotr 25 x"

primrec sha_schedule :: "nat \<Rightarrow> word32 list \<Rightarrow> word32 list" where
  "sha_schedule 0 w = w"
| "sha_schedule (Suc n) w = (let t = length w in
     sha_schedule n (w @ [small_sigma1 (w ! (t - 2)) + w ! (t - 7)
       + small_sigma0 (w ! (t - 15)) + w ! (t - 16)]))"

fun sha_round :: "word32 \<times> word32 \<Rightarrow> word32 list \<Rightarrow> word32 list" where
  "sha_round (k, w) [a, b, c, d, e, f, g, h] =
     (let t1 = h + big_sigma1 e + ((e AND f) XOR (NOT e AND g)) + k + w;
          t2 = big_sigma0 a + ((a AND b) XOR (a AND c) XOR (b AND c))
      in [t1 + t2, a, b, c, d + t1, e, f, g])"
| "sha_round kw hs = hs"

definition sha_block :: "word32 list \<Rightarrow> byte list \<Rightarrow> word32 list" where
  "sha_block hs block =
     map2 (+) hs (fold sha_round (zip sha_k (sha_schedule 48 (sha_words block))) hs)"

definition sha256 :: "byte list \<Rightarrow> word32 list" where
  "sha256 bs = foldl sha_block sha_init (groups_of 64 (sha_pad bs))"

section \<open>The digest\<close>

definition hex_digit :: "nat \<Rightarrow> nat" where
  "hex_digit n = (if n < 10 then 48 + n else 87 + n)"

primrec hex_digits :: "nat \<Rightarrow> nat \<Rightarrow> pystr" where
  "hex_digits 0 n = []"
| "hex_digits (Suc k) n = hex_digits k (n div 16) @ [hex_digit (n mod 16)]"

definition sha256_hexdigest :: "byte list \<Rightarrow> pystr" where
  "sha256_hexdigest bs = concat (map (\<lambda>w. hex_digits 8 (unat w)) (sha256 bs))"

lemma length_hex_digits [simp]: "length (hex_digits k n) = k"
  by (induction k arbitrary: n) simp_all

lemma length_sha_round [simp]: "length hs = 8 \<Longrightarrow> length (sha_round kw hs) = 8"
  by (cases kw; cases "(kw, hs)" rule: sha_round.cases) (auto simp: Let_def)

lemma length_fold_sha_round: "length hs = 8 \<Longrightarrow> length (fold sha_round kws hs) = 8"
  by (induction kws arbitrary: hs) simp_all

lemma length_sha_block [simp]: "length hs = 8 \<Longrightarrow> length (sha_block hs b) = 8"
  by (simp add: sha_block_def length_fold_sha_round)

lemma length_sha256 [simp]: "length (sha256 bs) = 8"
proof -
  have "length hs = 8 \<Longrightarrow> length (foldl sha_block hs bl) = 8" for hs bl
    by (induction bl arbitrary: hs) simp_all
  then show ?thesis by (simp add: sha256_def sha_init_def)
qed

lemma length_sha256_hexdigest [simp]: "length (sha256_hexdigest bs) = 64"
proof -
  have "length (concat (map (\<lambda>w. hex_digits 8 (unat w)) ws)) = 8 * length ws" for ws :: "word32 list"
    by (induction ws) simp_all
  then show ?thesis by (simp add: sha256_hexdigest_def)
qed

text \<open>Every digit of the digest is an ASCII hexadecimal digit.\<close>

lemma hex_digits_ascii: "c \<in> set (hex_digits k n) \<Longrightarrow> 48 \<le> c \<and> c < 103"
  by (induction k arbitrary: n) (auto simp: hex_digit_def split: if_splits)

lemma sha256_hexdigest_ascii: "c \<in> set (sha256_hexdigest bs) \<Longrightarrow> 48 \<le> c \<and> c < 103"
  by (auto simp: sha256_hexdigest_def dest: hex_digits_ascii)

lemma sha256_hexdigest_scalar [simp]: "list_all is_scalar (sha256_hexdigest bs)"
  by (auto simp: list_all_iff is_scalar_def dest: sha256_hexdigest_ascii)

end
