(* ===== verification/Shamir.thy ===== *)
theory Shamir
  imports GaloisField Interpolation Sha256
begin

text \<open>
  The model of \<open>src/shamir.py\<close>: the conversion between strings and integer lists, the class
  \<open>ShamirSecret\<close> as a record with one function per method, and the exceptions it raises. Random
  draws (\<open>secrets.randbelow\<close>) come from a tape that a computation consumes; a computation that
  needs more draws than the tape holds is \<open>None\<close>, which is how the rejection loop of
  \<open>_generate_shares\<close> may fail to end. The fresh uuid and the current time are arguments.
\<close>

section \<open>Strings as integer lists\<close>

definition MAX_SECRET_BYTES :: nat where
  "MAX_SECRET_BYTES = 1000000"

definition string_to_integers :: "pystr \<Rightarrow> nat \<Rightarrow> int list py" where
  "string_to_integers input_raw bytes_per_integer =
     bindE (utf8_encode input_raw) (\<lambda>raw_bytes.
       let byte_length = length raw_bytes in
       if bytes_per_integer = 0 then Inl ValueError
       else Inr (int byte_length #
         map (\<lambda>i. int_from_bytes
                (ljust bytes_per_integer (take bytes_per_integer (drop i raw_bytes))))
           (range_step 0 byte_length bytes_per_integer)))"

definition integer_list_to_string :: "int list \<Rightarrow> nat \<Rightarrow> pystr py" where
  "integer_list_to_string input_list bytes_per_integer =
     (case input_list of
        [] \<Rightarrow> Inl IndexError
      | byte_length # integers \<Rightarrow>
          bindE (mapE (int_to_bytes bytes_per_integer) integers) (\<lambda>chunks.
            utf8_decode (slice_to byte_length (concat chunks))))"

section \<open>The class \<open>ShamirSecret\<close>\<close>

record shamir_secret =
  ss_ready_to_decode :: bool
  ss_treshold :: int
  ss_shares :: int
  ss_name :: pyval
  ss_owner :: pyval
  ss_uuid :: pyval
  ss_secret_matrix :: "(int \<times> int) list list"
  ss_creation_date :: pyval
  ss_secret_hash :: pyval
  ss_decoding_participants_keys :: "pyval list"
  ss_bytes_per_integer :: nat

definition shamir_init :: "pystr \<Rightarrow> pystr \<Rightarrow> int \<Rightarrow> int \<Rightarrow> pystr \<Rightarrow> shamir_secret py" where
  "shamir_init name owner shares treshold uuid4 =
     (if shares < 2 then Inl ValueError
      else if treshold < 2 then Inl ValueError
      else if treshold > shares then Inl ValueError
      else Inr \<lparr>
        ss_ready_to_decode = False,
        ss_treshold = treshold,
        ss_shares = shares,
        ss_name = PStr name,
        ss_owner = PStr owner,
        ss_uuid = PStr uuid4,
        ss_secret_matrix = [],
        ss_creation_date = PStr (lit ''1800-01-01T00:00:00+00:00''),
        ss_secret_hash = PNone,
        ss_decoding_participants_keys = [],
        ss_bytes_per_integer = 8\<rparr>)"

text \<open>The defaults of the constructor: five shares, treshold three.\<close>

definition shamir_init_default :: "pystr \<Rightarrow> pystr \<Rightarrow> pystr \<Rightarrow> shamir_secret py" where
  "shamir_init_default name owner uuid4 = shamir_init name owner 5 3 uuid4"

text \<open>\<open>__exit__\<close> resets the object; the name and the owner are empty afterwards.\<close>

definition shamir_exit :: "pystr \<Rightarrow> shamir_secret \<Rightarrow> shamir_secret py" where
  "shamir_exit uuid4 s = shamir_init_default [] [] uuid4"

section \<open>Splitting a secret\<close>

fun randbelow :: "int \<Rightarrow> int list \<Rightarrow> (int \<times> int list) option" where
  "randbelow n [] = None"
| "randbelow n (d # tape) = Some (d mod n, tape)"

definition polynom :: "int \<Rightarrow> int list \<Rightarrow> int" where
  "polynom x coefficients =
     foldl (\<lambda>point (coefficient_index, coefficient_value).
        (point + (x ^ coefficient_index mod PRIME) * coefficient_value) mod PRIME)
       0 (enumerate 0 (rev coefficients))"

text \<open>\<open>[secrets.randbelow(PRIME) for _ in range(k)]\<close>\<close>

fun draw_coeffs :: "nat \<Rightarrow> int list \<Rightarrow> (int list \<times> int list) option" where
  "draw_coeffs 0 tape = Some ([], tape)"
| "draw_coeffs (Suc k) tape =
     (case randbelow PRIME tape of
        None \<Rightarrow> None
      | Some (c, tape') \<Rightarrow> map_option (\<lambda>(cs, tape''). (c # cs, tape'')) (draw_coeffs k tape'))"

definition coeff :: "int \<Rightarrow> int \<Rightarrow> int list \<Rightarrow> (int list \<times> int list) option" where
  "coeff treshold secret tape =
     map_option (\<lambda>(cs, tape'). (cs @ [secret], tape')) (draw_coeffs (nat (treshold - 1)) tape)"

text \<open>The loop of \<open>_generate_shares\<close>: draw an x-coordinate until it is a new one.\<close>

fun share_loop ::
  "int \<Rightarrow> int list \<Rightarrow> (int \<times> int) list \<Rightarrow> int list \<Rightarrow> int list \<Rightarrow>
   ((int \<times> int) list \<times> int list) option" where
  "share_loop n_shares coefficients shares x_values [] =
     (if int (length shares) < n_shares then None else Some (shares, []))"
| "share_loop n_shares coefficients shares x_values (d # tape) =
     (if int (length shares) < n_shares then
        let x = d mod (PRIME - 1) + 1 in
        if x \<in> set x_values then share_loop n_shares coefficients shares x_values tape
        else share_loop n_shares coefficients (shares @ [(x, polynom x coefficients)])
               (x # x_values) tape
      else Some (shares, d # tape))"

definition generate_shares ::
  "int \<Rightarrow> int \<Rightarrow> int \<Rightarrow> int list \<Rightarrow> ((int \<times> int) list \<times> int list) option" where
  "generate_shares n_shares m secret tape =
     (case coeff m secret tape of
        None \<Rightarrow> None
      | Some (coefficients, tape') \<Rightarrow> share_loop n_shares coefficients [] [] tape')"

text \<open>The loop of \<open>create_secret\<close> over the integers of the plain text.\<close>

fun split_all ::
  "int \<Rightarrow> int \<Rightarrow> int list \<Rightarrow> int list \<Rightarrow> ((int \<times> int) list list \<times> int list) option" where
  "split_all n m [] tape = Some ([], tape)"
| "split_all n m (c # cs) tape =
     (case generate_shares n m c tape of
        None \<Rightarrow> None
      | Some (row, tape') \<Rightarrow> map_option (\<lambda>(rows, tape''). (row # rows, tape'')) (split_all n m cs tape'))"

definition create_secret ::
  "pystr \<Rightarrow> pystr \<Rightarrow> int list \<Rightarrow> shamir_secret \<Rightarrow> (shamir_secret py \<times> int list) option" where
  "create_secret secret_raw now tape s =
     (case utf8_encode secret_raw of
        Inl e \<Rightarrow> Some (Inl e, tape)
      | Inr raw \<Rightarrow>
          if length raw > MAX_SECRET_BYTES then Some (Inl ValueError, tape)
          else
            case string_to_integers secret_raw (ss_bytes_per_integer s) of
              Inl e \<Rightarrow> Some (Inl e, tape)
            | Inr plain_text_codes \<Rightarrow>
                map_option (\<lambda>(rows, tape').
                  (Inr (s\<lparr>ss_secret_hash := PStr (sha256_hexdigest raw),
                          ss_creation_date := PStr now,
                          ss_secret_matrix := ss_secret_matrix s @ rows,
                          ss_ready_to_decode := True\<rparr>), tape'))
                  (split_all (ss_shares s) (ss_treshold s) plain_text_codes tape))"

text \<open>The dictionaries that \<open>iterate_participants\<close> yields, one per column of the matrix.\<close>

definition participant_keys :: "(int \<times> int) list list \<Rightarrow> nat \<Rightarrow> pyval" where
  "participant_keys matrix secret_ind =
     PList (map (\<lambda>row. PTuple [PInt (fst (row ! secret_ind)), PInt (snd (row ! secret_ind))]) matrix)"

definition participant_data :: "shamir_secret \<Rightarrow> nat \<Rightarrow> pyval" where
  "participant_data s secret_ind = PDict
     [(lit ''keys'', participant_keys (ss_secret_matrix s) secret_ind),
      (lit ''creation_date'', ss_creation_date s),
      (lit ''owner'', ss_owner s),
      (lit ''name'', ss_name s),
      (lit ''uuid'', ss_uuid s),
      (lit ''treshold'', PInt (ss_treshold s)),
      (lit ''shares'', PInt (ss_shares s)),
      (lit ''secret_hash'', ss_secret_hash s)]"

definition iterate_participants :: "shamir_secret \<Rightarrow> pyval list py" where
  "iterate_participants s =
     (case ss_secret_matrix s of
        [] \<Rightarrow> Inl IndexError
      | row # rows \<Rightarrow>
          if \<exists>r \<in> set rows. length r < length row then Inl IndexError
          else Inr (map (participant_data s) [0..<length row]))"

section \<open>Collecting shares\<close>

text \<open>A point of a share: a pair of integers, as a tuple or a list.\<close>

definition point_of :: "pyval \<Rightarrow> (int \<times> int) option" where
  "point_of p = (case py_seq p of
     Some [x, y] \<Rightarrow> (case (py_int x, py_int y) of (Some a, Some b) \<Rightarrow> Some (a, b) | _ \<Rightarrow> None)
   | _ \<Rightarrow> None)"

text \<open>The x-coordinate \<open>existing[chunk_index][0]\<close> of an accepted share.\<close>

definition x_at :: "pyval \<Rightarrow> nat \<Rightarrow> int option" where
  "x_at existing chunk_index =
     (case py_seq existing of
        Some ps \<Rightarrow> if chunk_index < length ps then map_option fst (point_of (ps ! chunk_index)) else None
      | None \<Rightarrow> None)"

fun validate_points :: "pyval list \<Rightarrow> nat \<Rightarrow> pyval list \<Rightarrow> bool" where
  "validate_points accepted chunk_index [] = True"
| "validate_points accepted chunk_index (point # points) =
     (case point_of point of
        None \<Rightarrow> False
      | Some (x_value, y_value) \<Rightarrow>
          if \<not> (0 < x_value \<and> x_value < PRIME) then False
          else if \<exists>existing \<in> set accepted. x_at existing chunk_index = Some x_value then False
          else validate_points accepted (Suc chunk_index) points)"

definition validate_keys :: "shamir_secret \<Rightarrow> pyval \<Rightarrow> bool" where
  "validate_keys s keys =
     (case py_seq keys of
        None \<Rightarrow> False
      | Some [] \<Rightarrow> False
      | Some points \<Rightarrow>
          (case ss_decoding_participants_keys s of
             [] \<Rightarrow> True
           | first # _ \<Rightarrow> py_seq first \<noteq> None \<and> length points = length (the (py_seq first)))
          \<and> validate_points (ss_decoding_participants_keys s) 0 points)"

text \<open>\<open>if data[key] != expected: failed = True\<close>, for a list of keys in the order of the code.\<close>

fun mismatch :: "pyval \<Rightarrow> (pyval \<times> pystr) list \<Rightarrow> bool py" where
  "mismatch data [] = Inr False"
| "mismatch data ((expected, key) # checks) =
     bindE (py_subscript data key) (\<lambda>v.
       bindE (mismatch data checks) (\<lambda>failed. Inr (\<not> py_eq expected v \<or> failed)))"

definition consistency_checks :: "shamir_secret \<Rightarrow> (pyval \<times> pystr) list" where
  "consistency_checks s =
     (if ss_decoding_participants_keys s = [] then
        (if py_truthy (ss_name s) then [(ss_name s, lit ''name'')] else []) @
        (if py_truthy (ss_owner s) then [(ss_owner s, lit ''owner'')] else [])
      else
        [(ss_creation_date s, lit ''creation_date''), (ss_uuid s, lit ''uuid''),
         (ss_secret_hash s, lit ''secret_hash''), (ss_name s, lit ''name'')])"

text \<open>
  The assignments after acceptance, in order: each subscript may raise, and what was assigned
  before it stays assigned.
\<close>

fun assign_fields ::
  "pyval \<Rightarrow> (pystr \<times> (pyval \<Rightarrow> shamir_secret \<Rightarrow> shamir_secret)) list \<Rightarrow> shamir_secret \<Rightarrow>
   shamir_secret \<times> unit py" where
  "assign_fields data [] s = (s, Inr ())"
| "assign_fields data ((key, set_field) # rest) s =
     (case py_subscript data key of
        Inl e \<Rightarrow> (s, Inl e)
      | Inr v \<Rightarrow> assign_fields data rest (set_field v s))"

definition metadata_fields ::
  "(pystr \<times> (pyval \<Rightarrow> shamir_secret \<Rightarrow> shamir_secret)) list" where
  "metadata_fields =
     [(lit ''creation_date'', \<lambda>v s. s\<lparr>ss_creation_date := v\<rparr>),
      (lit ''owner'', \<lambda>v s. s\<lparr>ss_owner := v\<rparr>),
      (lit ''name'', \<lambda>v s. s\<lparr>ss_name := v\<rparr>),
      (lit ''uuid'', \<lambda>v s. s\<lparr>ss_uuid := v\<rparr>),
      (lit ''secret_hash'', \<lambda>v s. s\<lparr>ss_secret_hash := v\<rparr>)]"

definition accept_share ::
  "pyval \<Rightarrow> pyval \<Rightarrow> int \<Rightarrow> int \<Rightarrow> shamir_secret \<Rightarrow> shamir_secret \<times> int py" where
  "accept_share data keys treshold shares s =
     (let s1 = s\<lparr>ss_decoding_participants_keys := ss_decoding_participants_keys s @ [keys]\<rparr> in
      case assign_fields data metadata_fields s1 of
        (s2, Inl e) \<Rightarrow> (s2, Inl e)
      | (s2, Inr _) \<Rightarrow>
          let s3 = s2\<lparr>ss_treshold := treshold, ss_shares := shares\<rparr>;
              shares_needed = 0 - treshold + int (length (ss_decoding_participants_keys s3));
              s4 = (if shares_needed \<ge> 0 then s3\<lparr>ss_ready_to_decode := True\<rparr> else s3)
          in (s4, Inr shares_needed))"

definition populate_decoder :: "pyval \<Rightarrow> shamir_secret \<Rightarrow> shamir_secret \<times> int py" where
  "populate_decoder data s =
     (case bindE (py_subscript data (lit ''treshold'')) (\<lambda>treshold.
            bindE (py_subscript data (lit ''shares'')) (\<lambda>shares.
            bindE (py_subscript data (lit ''keys'')) (\<lambda>keys. Inr (treshold, shares, keys)))) of
        Inl e \<Rightarrow> (s, Inl e)
      | Inr (treshold, shares, keys) \<Rightarrow>
          (case (py_int treshold, py_int shares) of
             (Some t, Some n) \<Rightarrow>
               if t < 2 \<or> n < 2 \<or> t > n then (s, Inl InvalidShareError)
               else if \<not> validate_keys s keys then (s, Inl InvalidShareError)
               else (case mismatch data (consistency_checks s) of
                 Inl e \<Rightarrow> (s, Inl e)
               | Inr failed \<Rightarrow>
                   if failed
                      \<or> (ss_decoding_participants_keys s \<noteq> [] \<and> ss_shares s \<noteq> n)
                      \<or> (ss_decoding_participants_keys s \<noteq> [] \<and> ss_treshold s \<noteq> t)
                      \<or> py_in keys (ss_decoding_participants_keys s)
                   then (s, Inl InvalidShareError)
                   else accept_share data keys t n s)
           | _ \<Rightarrow> (s, Inl InvalidShareError)))"

section \<open>Reconstruction\<close>

fun lagrange_loop :: "nat \<Rightarrow> int \<Rightarrow> (nat \<times> int \<times> int) list \<Rightarrow> int \<times> int \<Rightarrow> int \<times> int" where
  "lagrange_loop j xj [] (num, den) = (num, den)"
| "lagrange_loop j xj ((i, xi, _) # shares) (num, den) =
     lagrange_loop j xj shares
       (if i \<noteq> j then ((num * (- xi)) mod PRIME, (den * (xj - xi)) mod PRIME) else (num, den))"

fun reconstruct_loop :: "(nat \<times> int \<times> int) list \<Rightarrow> (nat \<times> int \<times> int) list \<Rightarrow> int \<Rightarrow> int py" where
  "reconstruct_loop shares [] summed = Inr summed"
| "reconstruct_loop shares ((j, xj, yj) # rest) summed =
     (let (num, den) = lagrange_loop j xj shares (1, 1) in
      case pow_inv den PRIME of
        None \<Rightarrow> Inl ShareReconstructionError
      | Some inv_den \<Rightarrow>
          let lagrange = (num * inv_den) mod PRIME in
          reconstruct_loop shares rest ((summed + yj * lagrange) mod PRIME))"

definition reconstruct_secret :: "(int \<times> int) list \<Rightarrow> int py" where
  "reconstruct_secret shares = reconstruct_loop (enumerate 0 shares) (enumerate 0 shares) 0"

text \<open>\<open>line[key_ind]\<close>, unpacked as a point.\<close>

definition key_at :: "nat \<Rightarrow> pyval \<Rightarrow> (int \<times> int) py" where
  "key_at key_ind line =
     (case py_seq line of
        None \<Rightarrow> Inl TypeError
      | Some ps \<Rightarrow> if key_ind < length ps then of_opt TypeError (point_of (ps ! key_ind))
                   else Inl IndexError)"

definition decode_ints :: "pyval list \<Rightarrow> int list py" where
  "decode_ints lines =
     (case lines of
        [] \<Rightarrow> Inl IndexError
      | first # _ \<Rightarrow>
          (case py_seq first of
             None \<Rightarrow> Inl TypeError
           | Some ps \<Rightarrow>
               mapE (\<lambda>key_ind. bindE (mapE (key_at key_ind) lines) reconstruct_secret)
                 [0..<length ps]))"

definition is_decode_failure :: "pyexn \<Rightarrow> bool" where
  "is_decode_failure e \<longleftrightarrow> e \<in> {UnicodeDecodeError, IndexError, OverflowError}"

definition decode :: "shamir_secret \<Rightarrow> pystr py" where
  "decode s =
     (if \<not> ss_ready_to_decode s then Inr []
      else bindE (decode_ints (ss_decoding_participants_keys s)) (\<lambda>decrypted_ints.
        bindE (catchE (integer_list_to_string decrypted_ints (ss_bytes_per_integer s))
                 is_decode_failure (\<lambda>e. Inl ShareReconstructionError)) (\<lambda>result.
          if ss_secret_hash s = PNone then Inr result
          else bindE (utf8_encode result) (\<lambda>raw.
            if \<not> py_eq (PStr (sha256_hexdigest raw)) (ss_secret_hash s)
            then Inl ShareReconstructionError
            else Inr result))))"

end
