(* ===== verification/ShamirMath.thy ===== *)
theory ShamirMath
  imports Shamir
begin

text \<open>
  The arithmetic of \<open>src/shamir.py\<close>: the conversion of strings to integer lists is inverted by
  its counterpart, \<open>_polynom\<close> evaluates a polynomial over the field of integers modulo
  \<open>PRIME\<close>, \<open>_reconstruct_secret\<close> is Lagrange interpolation at zero, and \<open>_generate_shares\<close>
  yields points of one polynomial with distinct x-coordinates.
\<close>

section \<open>Strings as integer lists\<close>

lemma range_step_Cons:
  "0 < n \<Longrightarrow> 0 < step \<Longrightarrow> range_step 0 n step = 0 # map (\<lambda>j. j + step) (range_step 0 (n - step) step)"
  using range_step_shift [of 0 step "n - step" step]
  by (cases "step \<le> n") (auto simp: range_step.simps [of 0 n] range_step.simps [of step] range_step.simps [of 0 0])

definition byte_chunks :: "nat \<Rightarrow> byte list \<Rightarrow> byte list list" where
  "byte_chunks k raw = map (\<lambda>i. ljust k (take k (drop i raw))) (range_step 0 (length raw) k)"

lemma byte_chunks_Nil [simp]: "byte_chunks k [] = []"
  by (simp add: byte_chunks_def range_step.simps)

lemma byte_chunks_Cons:
  assumes "raw \<noteq> []" "0 < k"
  shows "byte_chunks k raw = ljust k (take k raw) # byte_chunks k (drop k raw)"
  using assms
  by (simp add: byte_chunks_def range_step_Cons comp_def add.commute)

lemma length_byte_chunk: "0 < k \<Longrightarrow> c \<in> set (byte_chunks k raw) \<Longrightarrow> length c = k"
  by (auto simp: byte_chunks_def ljust_def)

lemma concat_byte_chunks: "0 < k \<Longrightarrow> \<exists>z. concat (byte_chunks k raw) = raw @ replicate z 0"
proof (induction raw rule: length_induct)
  case (1 raw)
  show ?case
  proof (cases "raw = []")
    case True
    then show ?thesis by (intro exI [of _ 0]) simp
  next
    case False
    with "1.prems" have "length (drop k raw) < length raw" by simp
    with "1" obtain z where z: "concat (byte_chunks k (drop k raw)) = drop k raw @ replicate z 0"
      by blast
    have *: "concat (byte_chunks k raw) =
        take k raw @ replicate (k - length (take k raw)) 0 @ drop k raw @ replicate z 0"
      using False "1.prems" by (simp add: byte_chunks_Cons z ljust_def)
    show ?thesis
    proof (cases "k \<le> length raw")
      case True
      with * show ?thesis by (intro exI [of _ z]) (simp add: min_def flip: append_assoc)
    next
      case False
      with * show ?thesis
        by (intro exI [of _ "(k - length raw) + z"]) (simp add: min_def flip: replicate_add)
    qed
  qed
qed

lemma string_to_integers_chunks:
  "0 < k \<Longrightarrow> utf8_encode s = Inr raw \<Longrightarrow>
   string_to_integers s k = Inr (int (length raw) # map int_from_bytes (byte_chunks k raw))"
  by (simp add: string_to_integers_def byte_chunks_def Let_def comp_def)

lemma integer_list_to_string_chunks:
  assumes "0 < k" "utf8_encode s = Inr raw"
  shows "integer_list_to_string (int (length raw) # map int_from_bytes (byte_chunks k raw)) k = Inr s"
proof -
  have "mapE (int_to_bytes k) (map int_from_bytes (byte_chunks k raw)) = Inr (byte_chunks k raw)"
    using int_to_bytes_from_bytes length_byte_chunk [OF assms(1)]
    by (auto simp: mapE_Inr_iff list_all2_map1 intro!: list.rel_refl_strong)
  moreover obtain z where "concat (byte_chunks k raw) = raw @ replicate z 0"
    using concat_byte_chunks [OF assms(1)] by blast
  ultimately show ?thesis
    using utf8_decode_encode [OF assms(2)]
    by (simp add: integer_list_to_string_def slice_to_def)
qed

interpretation string_integers: codec "\<lambda>s. string_to_integers s (Suc k)"
  "\<lambda>is. integer_list_to_string is (Suc k)" "list_all is_scalar" for k
proof
  fix s assume s: "list_all is_scalar s"
  then obtain raw where raw: "utf8_encode s = Inr raw" using utf8.enc_valid by blast
  then show "\<exists>b. string_to_integers s (Suc k) = Inr b" by (simp add: string_to_integers_chunks)
  fix b assume "string_to_integers s (Suc k) = Inr b"
  with raw have "b = int (length raw) # map int_from_bytes (byte_chunks (Suc k) raw)"
    by (simp add: string_to_integers_chunks)
  then show "integer_list_to_string b (Suc k) = Inr s"
    by (simp only: integer_list_to_string_chunks [OF zero_less_Suc raw])
qed

text \<open>Every integer of the list is an element of the field, for secrets within the size limit.\<close>

lemma string_to_integers_range:
  assumes "utf8_encode s = Inr raw" "length raw \<le> MAX_SECRET_BYTES"
    and "string_to_integers s 8 = Inr is" "n \<in> set is"
  shows "0 \<le> n \<and> n < PRIME"
proof -
  have "n = int (length raw) \<or> (\<exists>c \<in> set (byte_chunks 8 raw). n = int_from_bytes c)"
    using assms string_to_integers_chunks [of 8 s raw] by auto
  then show ?thesis
  proof
    assume "n = int (length raw)"
    with assms(2) show ?thesis by (simp add: MAX_SECRET_BYTES_def PRIME_def)
  next
    assume "\<exists>c \<in> set (byte_chunks 8 raw). n = int_from_bytes c"
    then obtain c where "length c = 8" "n = int_from_bytes c"
      using length_byte_chunk [of 8] by auto
    with int_from_bytes_bound [of c] PRIME_gt_chunk show ?thesis by simp
  qed
qed

section \<open>Evaluation of the polynomial\<close>

lemma foldl_polynom:
  "gf (foldl (\<lambda>point (i, c). (point + (x ^ i mod PRIME) * c) mod PRIME) a (enumerate n cs)) =
   gf a + gf x ^ n * poly_eval (map gf cs) (gf x)"
proof (induction cs arbitrary: a n)
  case (Cons c cs)
  then show ?case by (simp add: gf_hom algebra_simps)
qed simp

lemma gf_polynom: "gf (polynom x cs) = poly_eval (map gf (rev cs)) (gf x)"
  by (simp add: polynom_def foldl_polynom)

lemma polynom_range: "0 \<le> polynom x cs \<and> polynom x cs < PRIME"
proof -
  have "0 \<le> foldl (\<lambda>point (i, c). (point + (x ^ i mod PRIME) * c) mod PRIME) 0 ics \<and>
        foldl (\<lambda>point (i, c). (point + (x ^ i mod PRIME) * c) mod PRIME) 0 ics < PRIME" for ics
    by (cases ics rule: rev_cases) (simp_all add: case_prod_unfold)
  then show ?thesis by (simp add: polynom_def)
qed

section \<open>Lagrange interpolation\<close>

lemma lagrange_loop_gf:
  "lagrange_loop j xj shares (num, den) = (num', den') \<Longrightarrow>
     gf num' = gf num * (\<Prod>s\<leftarrow>filter (\<lambda>s. fst s \<noteq> j) shares. 0 - gf (fst (snd s))) \<and>
     gf den' = gf den * (\<Prod>s\<leftarrow>filter (\<lambda>s. fst s \<noteq> j) shares. gf xj - gf (fst (snd s)))"
proof (induction shares arbitrary: num den)
  case (Cons s shares)
  obtain i xi yi where s: "s = (i, xi, yi)" by (cases s)
  show ?case
  proof (cases "i = j")
    case True
    with Cons.prems s have "lagrange_loop j xj shares (num, den) = (num', den')" by simp
    from Cons.IH [OF this] True s show ?thesis by simp
  next
    case False
    with Cons.prems s have
      "lagrange_loop j xj shares ((num * - xi) mod PRIME, (den * (xj - xi)) mod PRIME) = (num', den')"
      by simp
    from Cons.IH [OF this] have
      "gf num' = gf num * (0 - gf xi) * (\<Prod>s\<leftarrow>filter (\<lambda>s. fst s \<noteq> j) shares. 0 - gf (fst (snd s)))"
      "gf den' = gf den * (gf xj - gf xi) * (\<Prod>s\<leftarrow>filter (\<lambda>s. fst s \<noteq> j) shares. gf xj - gf (fst (snd s)))"
      unfolding gf_mod gf_mult gf_diff gf_minus diff_0 by (rule conjunct1, rule conjunct2)
    with False s show ?thesis by (simp add: mult.assoc)
  qed
qed simp

lemma prod_filter_enumerate:
  "(\<Prod>s\<leftarrow>filter (\<lambda>s. fst s \<noteq> j) (enumerate 0 xs). f (snd s)) = (\<Prod>i\<in>{..<length xs} - {j}. f (xs ! i))"
proof -
  have "(\<Prod>s\<leftarrow>filter (\<lambda>s. fst s \<noteq> j) (enumerate 0 xs). f (snd s)) =
      prod_list (map (\<lambda>i. f (xs ! i)) (filter (\<lambda>i. i \<noteq> j) [0..<length xs]))"
    by (simp add: enumerate_eq_map filter_map comp_def)
  also have "\<dots> = (\<Prod>i\<in>set (filter (\<lambda>i. i \<noteq> j) [0..<length xs]). f (xs ! i))"
    by (rule prod.distinct_set_conv_list [symmetric]) simp
  also have "set (filter (\<lambda>i. i \<noteq> j) [0..<length xs]) = {..<length xs} - {j}"
    by auto
  finally show ?thesis .
qed

text \<open>The x-coordinates of a list of points, as elements of the field.\<close>

definition xs_of :: "(int \<times> int) list \<Rightarrow> nat \<Rightarrow> gf" where
  "xs_of pts i = gf (fst (pts ! i))"

definition distinct_xs :: "(int \<times> int) list \<Rightarrow> bool" where
  "distinct_xs pts \<longleftrightarrow> distinct (map (\<lambda>p. fst p mod PRIME) pts)"

lemma distinct_xs_inj: "distinct_xs pts \<longleftrightarrow> inj_on (xs_of pts) {..<length pts}"
  by (auto simp: distinct_xs_def xs_of_def inj_on_def distinct_conv_nth gf_eq_iff)

lemma lagrange_step:
  assumes "lagrange_loop j xj (enumerate 0 pts) (1, 1) = (num, den)" "xj = fst (pts ! j)"
  shows "gf num * inverse (gf den) = lagrange_basis (length pts) (xs_of pts) j 0"
    and "gf den = (\<Prod>i\<in>{..<length pts} - {j}. xs_of pts j - xs_of pts i)"
  using lagrange_loop_gf [OF assms(1)] assms(2)
    prod_filter_enumerate [of "\<lambda>p. 0 - gf (fst p)" j pts]
    prod_filter_enumerate [of "\<lambda>p. gf xj - gf (fst p)" j pts]
  by (simp_all add: lagrange_basis_def xs_of_def)

lemma lagrange_den_zero_iff:
  assumes "lagrange_loop j xj (enumerate 0 pts) (1, 1) = (num, den)" "xj = fst (pts ! j)" "j < length pts"
  shows "pow_inv den PRIME = None \<longleftrightarrow> (\<exists>i < length pts. i \<noteq> j \<and> xs_of pts i = xs_of pts j)"
proof -
  have "pow_inv den PRIME = None \<longleftrightarrow> gf den = 0"
    by (simp add: pow_inv_PRIME_None gf_eq_0_iff)
  also have "\<dots> \<longleftrightarrow> (\<exists>i\<in>{..<length pts} - {j}. xs_of pts j = xs_of pts i)"
    by (simp add: lagrange_step(2) [OF assms(1,2)] prod_zero_iff)
  finally show ?thesis by (metis Diff_iff lessThan_iff singletonD singletonI)
qed

lemma reconstruct_loop_ok:
  assumes "distinct_xs pts" "js \<subseteq> {..<length pts}" "distinct jl" "set jl = js"
    and "0 \<le> acc" "acc < PRIME"
  shows "\<exists>s. reconstruct_loop (enumerate 0 pts) (map (\<lambda>j. (j, pts ! j)) jl) acc = Inr s \<and>
    gf s = gf acc + (\<Sum>j\<in>js. gf (snd (pts ! j)) * lagrange_basis (length pts) (xs_of pts) j 0) \<and>
    0 \<le> s \<and> s < PRIME"
  using assms(2-)
proof (induction jl arbitrary: js acc)
  case Nil
  then show ?case by simp
next
  case (Cons j jl)
  obtain xj yj where p: "pts ! j = (xj, yj)" by (cases "pts ! j")
  obtain num den where ll: "lagrange_loop j xj (enumerate 0 pts) (1, 1) = (num, den)"
    by (cases "lagrange_loop j xj (enumerate 0 pts) (1, 1)")
  have "j < length pts" using Cons.prems by auto
  then have "pow_inv den PRIME \<noteq> None"
    using lagrange_den_zero_iff [OF ll] assms(1) p by (auto simp: distinct_xs_inj inj_on_def)
  then obtain inv where inv: "pow_inv den PRIME = Some inv" by auto
  let ?acc = "(acc + yj * (num * inv mod PRIME)) mod PRIME"
  have acc: "gf ?acc = gf acc + gf yj * lagrange_basis (length pts) (xs_of pts) j 0"
    using lagrange_step(1) [OF ll] p gf_pow_inv [OF inv] by (simp add: gf_hom)
  obtain s where s: "reconstruct_loop (enumerate 0 pts) (map (\<lambda>j. (j, pts ! j)) jl) ?acc = Inr s"
    "gf s = gf ?acc + (\<Sum>j\<in>set jl. gf (snd (pts ! j)) * lagrange_basis (length pts) (xs_of pts) j 0)"
    "0 \<le> s" "s < PRIME"
    using Cons.IH [of "set jl" ?acc] Cons.prems by auto
  have "js = insert j (set jl)" "j \<notin> set jl" using Cons.prems by auto
  then show ?case
    using s acc p ll inv by (intro exI [of _ s]) (simp add: Let_def algebra_simps)
qed

theorem reconstruct_secret_lagrange:
  assumes "distinct_xs pts"
  shows "\<exists>s. reconstruct_secret pts = Inr s \<and> 0 \<le> s \<and> s < PRIME \<and>
    gf s = (\<Sum>j<length pts. gf (snd (pts ! j)) * lagrange_basis (length pts) (xs_of pts) j 0)"
  using reconstruct_loop_ok [OF assms subset_refl, of "[0..<length pts]" 0]
  by (simp add: reconstruct_secret_def enumerate_eq_map atLeast0LessThan) blast

lemma reconstruct_loop_error:
  "reconstruct_loop shares rest acc = Inl e \<Longrightarrow> e = ShareReconstructionError"
  by (induction shares rest acc rule: reconstruct_loop.induct)
    (auto simp: Let_def split: prod.splits option.splits)

lemma reconstruct_loop_collision:
  assumes "(j, xj, yj) \<in> set rest"
    and "\<exists>num den. lagrange_loop j xj shares (1, 1) = (num, den) \<and> pow_inv den PRIME = None"
  shows "reconstruct_loop shares rest acc = Inl ShareReconstructionError"
  using assms
proof (induction shares rest acc rule: reconstruct_loop.induct)
  case (2 shares j' xj' yj' rest acc)
  show ?case
  proof (cases "(j', xj', yj') = (j, xj, yj)")
    case True
    obtain num den where "lagrange_loop j xj shares (1, 1) = (num, den)" "pow_inv den PRIME = None"
      using "2.prems"(2) by auto
    then show ?thesis using True by (simp only: reconstruct_loop.simps prod.inject) simp
  next
    case False
    with "2.prems" have "(j, xj, yj) \<in> set rest" by auto
    then show ?thesis using "2.IH" "2.prems"(2) by (auto simp: Let_def split: prod.splits option.splits)
  qed
qed simp

theorem reconstruct_secret_collision:
  assumes "\<not> distinct_xs pts"
  shows "reconstruct_secret pts = Inl ShareReconstructionError"
proof -
  obtain i j where ij: "i < length pts" "j < length pts" "i \<noteq> j" "xs_of pts i = xs_of pts j"
    using assms by (auto simp: distinct_xs_inj inj_on_def)
  obtain num den where ll: "lagrange_loop j (fst (pts ! j)) (enumerate 0 pts) (1, 1) = (num, den)"
    by (cases "lagrange_loop j (fst (pts ! j)) (enumerate 0 pts) (1, 1)")
  then have "pow_inv den PRIME = None"
    using lagrange_den_zero_iff [OF ll refl] ij by auto
  with ll ij show ?thesis
    unfolding reconstruct_secret_def
    by (intro reconstruct_loop_collision [of j "fst (pts ! j)" "snd (pts ! j)"])
      (auto simp: enumerate_eq_map image_iff)
qed

text \<open>
  Any \<open>m\<close> or more points of one polynomial with \<open>m\<close> coefficients give back its constant term.
\<close>

theorem reconstruct_secret_of_polynomial:
  assumes "distinct_xs pts" "length coeffs \<le> length pts"
    and "\<And>p. p \<in> set pts \<Longrightarrow> snd p mod PRIME = polynom (fst p) coeffs mod PRIME"
  shows "reconstruct_secret pts = Inr (polynom 0 coeffs)"
proof -
  obtain s where s: "reconstruct_secret pts = Inr s" "0 \<le> s" "s < PRIME"
    and val: "gf s = (\<Sum>j<length pts. gf (snd (pts ! j)) * lagrange_basis (length pts) (xs_of pts) j 0)"
    using reconstruct_secret_lagrange [OF assms(1)] by blast
  let ?f = "poly_eval (map gf (rev coeffs))"
  have "gf (snd (pts ! j)) = ?f (xs_of pts j)" if "j < length pts" for j
    using assms(3) [of "pts ! j"] that by (simp add: xs_of_def gf_eq_iff flip: gf_polynom)
  then have "gf s = (\<Sum>j<length pts. ?f (xs_of pts j) * lagrange_basis (length pts) (xs_of pts) j 0)"
    unfolding val by (intro sum.cong) auto
  also have "\<dots> = ?f 0"
    using lagrange_value [of "length coeffs" ?f "length pts" "xs_of pts" 0] assms(1,2)
    by (simp add: is_poly_eval distinct_xs_inj)
  also have "\<dots> = gf (polynom 0 coeffs)" by (simp add: gf_polynom)
  finally have "s = polynom 0 coeffs"
    using s polynom_range [of 0 coeffs] by (simp add: gf_inj)
  with s show ?thesis by simp
qed

section \<open>Generation of shares\<close>

lemma draw_coeffs_props:
  "draw_coeffs k tape = Some (cs, tape') \<Longrightarrow>
   length cs = k \<and> (\<forall>c \<in> set cs. 0 \<le> c \<and> c < PRIME) \<and> k \<le> length tape \<and> tape' = drop k tape"
proof (induction k arbitrary: tape cs)
  case (Suc k)
  then obtain d tape1 cs1 where "tape = d # tape1" "draw_coeffs k tape1 = Some (cs1, tape')"
    "cs = d mod PRIME # cs1"
    by (cases tape) auto
  with Suc.IH show ?case by auto
qed simp

lemma draw_coeffs_Some: "k \<le> length tape \<Longrightarrow> draw_coeffs k tape = Some (map (\<lambda>d. d mod PRIME) (take k tape), drop k tape)"
proof (induction k arbitrary: tape)
  case (Suc k)
  then show ?case by (cases tape) auto
qed simp

text \<open>What \<open>_generate_shares\<close> promises about a row of points.\<close>

definition row_ok :: "nat \<Rightarrow> nat \<Rightarrow> int \<Rightarrow> (int \<times> int) list \<Rightarrow> bool" where
  "row_ok n m secret row \<longleftrightarrow> length row = n \<and> distinct (map fst row) \<and>
     (\<forall>p \<in> set row. 0 < fst p \<and> fst p < PRIME) \<and>
     (\<exists>coeffs. length coeffs = m \<and> last coeffs = secret \<and>
        (\<forall>p \<in> set row. snd p = polynom (fst p) coeffs))"

lemma share_loop_props:
  assumes "share_loop n cs shares x_values tape = Some (row, tape')"
    and "set x_values = fst ` set shares" "distinct (map fst shares)" "int (length shares) \<le> n"
    and "\<forall>p \<in> set shares. 0 < fst p \<and> fst p < PRIME \<and> snd p = polynom (fst p) cs"
  shows "int (length row) = n \<and> distinct (map fst row) \<and>
    (\<forall>p \<in> set row. 0 < fst p \<and> fst p < PRIME \<and> snd p = polynom (fst p) cs)"
  using assms
proof (induction n cs shares x_values tape rule: share_loop.induct)
  case (1 n cs shares x_values)
  then show ?case by (auto split: if_splits)
next
  case (2 n cs shares x_values d tape)
  define x where "x = d mod (PRIME - 1) + 1"
  have x: "0 < x" "x < PRIME"
    using pos_mod_bound [of "PRIME - 1" d] pos_mod_sign [of "PRIME - 1" d] by (auto simp: x_def PRIME_def)
  show ?case
  proof (cases "int (length shares) < n")
    case False
    with "2.prems" show ?thesis by auto
  next
    case less: True
    show ?thesis
    proof (cases "x \<in> set x_values")
      case True
      with "2.IH"(1) [OF less x_def True] "2.prems" less show ?thesis by (simp add: x_def Let_def)
    next
      case False
      with "2.prems"(1) less have
        "share_loop n cs (shares @ [(x, polynom x cs)]) (x # x_values) tape = Some (row, tape')"
        by (simp add: x_def Let_def)
      with "2.IH"(2) [OF less x_def False] "2.prems"(2-) less x False show ?thesis by auto
    qed
  qed
qed

theorem generate_shares_row_ok:
  assumes "generate_shares n m secret tape = Some (row, tape')" "0 \<le> n" "1 \<le> m"
  shows "row_ok (nat n) (nat m) secret row"
proof -
  obtain cs tape1 where cs: "draw_coeffs (nat (m - 1)) tape = Some (cs, tape1)"
    and loop: "share_loop n (cs @ [secret]) [] [] tape1 = Some (row, tape')"
    using assms(1) by (auto simp: generate_shares_def coeff_def split: option.splits)
  have "length (cs @ [secret]) = nat m"
    using draw_coeffs_props [OF cs] assms(3) by (auto simp: nat_diff_distrib)
  with share_loop_props [OF loop] assms(2) show ?thesis
    unfolding row_ok_def by (intro conjI exI [of _ "cs @ [secret]"]) auto
qed

text \<open>The loop ends once the tape has offered enough different x-coordinates.\<close>

lemma share_loop_ends:
  assumes "n \<le> int (card (set x_values \<union> (\<lambda>d. d mod (PRIME - 1) + 1) ` set tape))"
    and "distinct x_values" "length shares = length x_values"
  shows "\<exists>r. share_loop n cs shares x_values tape = Some r"
  using assms
proof (induction n cs shares x_values tape rule: share_loop.induct)
  case (1 n cs shares x_values)
  then show ?case by (simp add: distinct_card)
next
  case (2 n cs shares x_values d tape)
  define x where "x = d mod (PRIME - 1) + 1"
  show ?case
  proof (cases "int (length shares) < n")
    case less: True
    show ?thesis
    proof (cases "x \<in> set x_values")
      case True
      then have "set x_values \<union> (\<lambda>d. d mod (PRIME - 1) + 1) ` set (d # tape) =
          set x_values \<union> (\<lambda>d. d mod (PRIME - 1) + 1) ` set tape"
        by (auto simp: x_def)
      with "2.IH"(1) [OF less x_def True] "2.prems" True less show ?thesis by (simp add: x_def Let_def)
    next
      case False
      with "2.IH"(2) [OF less x_def False] "2.prems" less show ?thesis by (simp add: x_def Let_def)
    qed
  qed simp
qed

theorem generate_shares_ends:
  assumes "nat (m - 1) \<le> length tape"
    and "n \<le> int (card ((\<lambda>d. d mod (PRIME - 1)) ` set (drop (nat (m - 1)) tape)))"
  shows "\<exists>row tape'. generate_shares n m secret tape = Some (row, tape')"
proof -
  let ?t = "drop (nat (m - 1)) tape"
  have "(\<lambda>d. d mod (PRIME - 1) + 1) ` set ?t = (\<lambda>x. x + 1) ` (\<lambda>d. d mod (PRIME - 1)) ` set ?t"
    by (simp add: image_image)
  then have "card ((\<lambda>d. d mod (PRIME - 1) + 1) ` set ?t) = card ((\<lambda>d. d mod (PRIME - 1)) ` set ?t)"
    by (simp add: card_image)
  with assms(2) have "n \<le> int (card (set [] \<union> (\<lambda>d. d mod (PRIME - 1) + 1) ` set ?t))" by simp
  from share_loop_ends [OF this, of "[]" "map (\<lambda>d. d mod PRIME) (take (nat (m - 1)) tape) @ [secret]"]
  show ?thesis using draw_coeffs_Some [OF assms(1)] by (auto simp: generate_shares_def coeff_def)
qed

section \<open>Recovery and secrecy of one row\<close>

lemma polynom_at_zero: "coeffs \<noteq> [] \<Longrightarrow> polynom 0 coeffs = last coeffs mod PRIME"
proof -
  assume ne: "coeffs \<noteq> []"
  then obtain cs c where c: "coeffs = cs @ [c]" by (cases coeffs rule: rev_cases) auto
  have "gf (polynom 0 coeffs) = gf c" by (simp add: gf_polynom c)
  then show ?thesis using polynom_range [of 0 coeffs] by (simp add: gf_eq_iff c)
qed

lemma distinct_xs_row:
  assumes "distinct (map fst pts)" "\<forall>p \<in> set pts. 0 < fst p \<and> fst p < PRIME"
  shows "distinct_xs pts"
proof -
  have eq: "map (\<lambda>p. fst p mod PRIME) pts = map fst pts"
    using assms(2) by (intro map_cong) auto
  show ?thesis unfolding distinct_xs_def eq by (rule assms(1))
qed

theorem reconstruct_row:
  assumes row: "row_ok n m secret row" and secret: "0 \<le> secret" "secret < PRIME"
    and pts: "set pts \<subseteq> set row" "distinct (map fst pts)" "m \<le> length pts" and m: "0 < m"
  shows "reconstruct_secret pts = Inr secret"
proof -
  obtain coeffs where c: "length coeffs = m" "last coeffs = secret"
    "\<forall>p \<in> set row. snd p = polynom (fst p) coeffs"
    using row by (auto simp: row_ok_def)
  have "distinct_xs pts"
    using pts row by (intro distinct_xs_row) (auto simp: row_ok_def)
  then have "reconstruct_secret pts = Inr (polynom 0 coeffs)"
  proof (rule reconstruct_secret_of_polynomial)
    fix p assume "p \<in> set pts"
    with pts(1) c(3) show "snd p mod PRIME = polynom (fst p) coeffs mod PRIME" by auto
  qed (use c(1) pts(3) in simp)
  also have "polynom 0 coeffs = secret"
    using c m secret by (subst polynom_at_zero) auto
  finally show ?thesis .
qed

text \<open>
  Secrecy: fewer than \<open>m\<close> points fix nothing about the secret. For any \<open>m - 1\<close> points with
  distinct non-zero x-coordinates and any candidate secret, exactly one draw of the random
  coefficients explains them.
\<close>

theorem secrecy_below_treshold:
  assumes "distinct (map fst pts)"
    and "\<forall>p \<in> set pts. 0 < fst p \<and> fst p < PRIME \<and> 0 \<le> snd p \<and> snd p < PRIME"
    and secret: "0 \<le> secret" "secret < PRIME"
  shows "\<exists>!cs. length cs = length pts \<and> (\<forall>c \<in> set cs. 0 \<le> c \<and> c < PRIME) \<and>
    (\<forall>p \<in> set pts. snd p = polynom (fst p) (cs @ [secret]))"
proof -
  let ?n = "length pts"
  define x where "x k = (if k = 0 then 0 else xs_of pts (k - 1))" for k
  define y where "y k = (if k = 0 then gf secret else gf (snd (pts ! (k - 1))))" for k
  have dx: "distinct_xs pts" using assms(1,2) by (intro distinct_xs_row) auto
  have nz: "xs_of pts k \<noteq> 0" if "k < ?n" for k
    using bspec [OF assms(2) nth_mem [OF that]] by (simp add: xs_of_def gf_eq_0_iff)
  have inj: "inj_on x {..<Suc ?n}"
  proof (rule inj_onI)
    fix i j assume ij: "i \<in> {..<Suc ?n}" "j \<in> {..<Suc ?n}" "x i = x j"
    show "i = j"
    proof (cases i; cases j)
      fix i' j' assume "i = Suc i'" "j = Suc j'"
      with ij show ?thesis using dx by (auto simp: x_def distinct_xs_inj dest: inj_onD)
    qed (use ij nz in \<open>auto simp: x_def dest: sym\<close>)
  qed
  have expl: "(\<forall>p \<in> set pts. snd p = polynom (fst p) (cs @ [secret])) \<longleftrightarrow>
    (\<forall>k<Suc ?n. poly_eval (gf secret # rev (map gf cs)) (x k) = y k)" for cs
  proof -
    have "snd p = polynom (fst p) (cs @ [secret]) \<longleftrightarrow>
        poly_eval (gf secret # rev (map gf cs)) (gf (fst p)) = gf (snd p)" if "p \<in> set pts" for p
      using assms(2) that polynom_range [of "fst p" "cs @ [secret]"]
        gf_inj [of "polynom (fst p) (cs @ [secret])" "snd p"] gf_polynom [of "fst p" "cs @ [secret]"]
      by (auto simp: rev_map)
    then show ?thesis
      by (auto simp: x_def y_def xs_of_def all_set_conv_all_nth less_Suc_eq_0_disj)
  qed
  obtain ds where ds: "length ds = Suc ?n" "\<forall>k<Suc ?n. poly_eval ds (x k) = y k"
    and uniq: "\<And>es. length es = Suc ?n \<Longrightarrow> \<forall>k<Suc ?n. poly_eval es (x k) = y k \<Longrightarrow> es = ds"
    using interpolation_ex1 [OF inj, of y] by blast
  obtain d ds' where d: "ds = d # ds'" "length ds' = ?n" using ds(1) by (cases ds) auto
  have "d = gf secret" using ds(2) by (auto simp: d x_def y_def)
  show ?thesis
  proof (rule ex1I [of _ "map gf_rep (rev ds')"])
    have "rev (map gf (map gf_rep (rev ds'))) = ds'" by (simp add: rev_map comp_def)
    then show "length (map gf_rep (rev ds')) = ?n \<and> (\<forall>c \<in> set (map gf_rep (rev ds')). 0 \<le> c \<and> c < PRIME) \<and>
      (\<forall>p \<in> set pts. snd p = polynom (fst p) (map gf_rep (rev ds') @ [secret]))"
      using ds d \<open>d = gf secret\<close> by (simp add: expl)
  next
    fix cs assume cs: "length cs = ?n \<and> (\<forall>c \<in> set cs. 0 \<le> c \<and> c < PRIME) \<and>
      (\<forall>p \<in> set pts. snd p = polynom (fst p) (cs @ [secret]))"
    then have "gf secret # rev (map gf cs) = ds"
      by (intro uniq) (auto simp: expl)
    then have "ds' = rev (map gf cs)" using d by simp
    then have "map gf_rep (rev ds') = map (\<lambda>c. c mod PRIME) cs" by simp
    also have "\<dots> = cs" using cs by (auto intro!: map_idI)
    finally show "cs = map gf_rep (rev ds')" by simp
  qed
qed

end
