(* ===== verification/ShamirDecoder.thy ===== *)
theory ShamirDecoder
  imports ShamirMath
begin

text \<open>
  The behaviour of a \<open>ShamirSecret\<close> object: what a dealer's object holds after
  \<open>create_secret\<close>, the invariant that \<open>populate_decoder\<close> keeps whatever it is fed, and the
  recovery of the secret from any shares of one dealer, at least treshold many and in any order.
  The relation \<open>collected\<close> says that a decoder has accepted exactly the shares with given
  indices; \<open>populate_decoder\<close> refines appending an index to that list.
\<close>

section \<open>Points of a submitted share\<close>

definition points_of :: "pyval \<Rightarrow> (int \<times> int) list option" where
  "points_of v = (case py_seq v of
     None \<Rightarrow> None
   | Some ps \<Rightarrow> if list_all (\<lambda>p. point_of p \<noteq> None) ps then Some (map (the \<circ> point_of) ps) else None)"

lemma points_of_Some:
  "points_of v = Some pts \<longleftrightarrow>
     (\<exists>ps. py_seq v = Some ps \<and> list_all2 (\<lambda>p q. point_of p = Some q) ps pts)"
proof -
  have "list_all (\<lambda>p. point_of p \<noteq> None) ps \<and> map (the \<circ> point_of) ps = pts \<longleftrightarrow>
      list_all2 (\<lambda>p q. point_of p = Some q) ps pts" for ps
    by (induction ps arbitrary: pts) (auto simp: list_all2_Cons1, blast)
  then show ?thesis by (auto simp: points_of_def split: option.splits)
qed

lemma point_of_detuple [simp]: "point_of (detuple p) = point_of p"
  by (auto simp: point_of_def map_option_case split: option.splits list.splits)

lemma points_of_detuple [simp]: "points_of (detuple v) = points_of v"
  by (auto simp: points_of_def list_all_iff comp_def split: option.splits)

lemma x_at_points: "points_of v = Some pts \<Longrightarrow> c < length pts \<Longrightarrow> x_at v c = Some (fst (pts ! c))"
  by (auto simp: points_of_Some x_at_def list_all2_conv_all_nth)

lemma key_at_points: "points_of v = Some pts \<Longrightarrow> c < length pts \<Longrightarrow> key_at c v = Inr (pts ! c)"
  by (auto simp: points_of_Some key_at_def list_all2_conv_all_nth)

lemma length_points: "points_of v = Some pts \<Longrightarrow> \<exists>ps. py_seq v = Some ps \<and> length ps = length pts"
  by (auto simp: points_of_Some dest: list_all2_lengthD)

definition xs_in_range :: "(int \<times> int) list \<Rightarrow> bool" where
  "xs_in_range pts \<longleftrightarrow> (\<forall>p \<in> set pts. 0 < fst p \<and> fst p < PRIME)"

text \<open>Shares that agree in their number of chunks and collide in no x-coordinate of a chunk.\<close>

definition compatible :: "(int \<times> int) list list \<Rightarrow> bool" where
  "compatible pss \<longleftrightarrow>
     (\<exists>n > 0. \<forall>pts \<in> set pss. length pts = n) \<and>
     (\<forall>pts \<in> set pss. xs_in_range pts) \<and>
     (\<forall>c. (\<forall>pts \<in> set pss. c < length pts) \<longrightarrow> distinct (map (\<lambda>pts. fst (pts ! c)) pss))"

lemma validate_points_iff:
  assumes "list_all2 (\<lambda>v pts. points_of v = Some pts \<and> n + length points \<le> length pts) accepted pss"
  shows "validate_points accepted n points \<longleftrightarrow>
    (\<exists>pts. list_all2 (\<lambda>p q. point_of p = Some q) points pts \<and> xs_in_range pts \<and>
       (\<forall>c < length pts. \<forall>qs \<in> set pss. fst (qs ! (n + c)) \<noteq> fst (pts ! c)))"
  using assms
proof (induction points arbitrary: n)
  case Nil
  then show ?case by (auto simp: xs_in_range_def)
next
  case (Cons p points)
  have IH: "validate_points accepted (Suc n) points \<longleftrightarrow>
    (\<exists>pts. list_all2 (\<lambda>p q. point_of p = Some q) points pts \<and> xs_in_range pts \<and>
       (\<forall>c < length pts. \<forall>qs \<in> set pss. fst (qs ! (Suc n + c)) \<noteq> fst (pts ! c)))"
    by (rule Cons.IH) (use Cons.prems in \<open>auto elim!: list_all2_mono\<close>)
  have col: "(\<exists>v \<in> set accepted. x_at v n = Some x) \<longleftrightarrow> (\<exists>qs \<in> set pss. fst (qs ! n) = x)" for x
    using Cons.prems by (induction rule: list_all2_induct) (auto simp: x_at_points)
  show ?case
  proof (cases "point_of p")
    case None
    then show ?thesis by (auto simp: list_all2_Cons1)
  next
    case (Some q)
    obtain x y where q: "q = (x, y)" by (cases q)
    have "validate_points accepted n (p # points) \<longleftrightarrow> 0 < x \<and> x < PRIME \<and>
        (\<forall>qs \<in> set pss. fst (qs ! n) \<noteq> x) \<and> validate_points accepted (Suc n) points"
      using Some q col [of x] by auto
    also have "\<dots> \<longleftrightarrow> (\<exists>pts. list_all2 (\<lambda>p q. point_of p = Some q) (p # points) pts \<and> xs_in_range pts \<and>
       (\<forall>c < length pts. \<forall>qs \<in> set pss. fst (qs ! (n + c)) \<noteq> fst (pts ! c)))"
      (is "_ \<longleftrightarrow> ?R")
    proof
      assume "0 < x \<and> x < PRIME \<and> (\<forall>qs \<in> set pss. fst (qs ! n) \<noteq> x) \<and>
        validate_points accepted (Suc n) points"
      then obtain pts where "list_all2 (\<lambda>p q. point_of p = Some q) points pts" "xs_in_range pts"
        "\<forall>c < length pts. \<forall>qs \<in> set pss. fst (qs ! (Suc n + c)) \<noteq> fst (pts ! c)"
        "0 < x" "x < PRIME" "\<forall>qs \<in> set pss. fst (qs ! n) \<noteq> x"
        unfolding IH by blast
      then show ?R using Some q
        by (intro exI [of _ "q # pts"]) (auto simp: xs_in_range_def less_Suc_eq_0_disj)
    next
      assume ?R
      then obtain pts where "list_all2 (\<lambda>p q. point_of p = Some q) points pts" "xs_in_range (q # pts)"
        and c: "\<forall>c < Suc (length pts). \<forall>qs \<in> set pss. fst (qs ! (n + c)) \<noteq> fst ((q # pts) ! c)"
        using Some by (auto simp: list_all2_Cons1)
      moreover have "\<forall>c < length pts. \<forall>qs \<in> set pss. fst (qs ! (Suc n + c)) \<noteq> fst (pts ! c)"
        using c by force
      moreover have "\<forall>qs \<in> set pss. fst (qs ! n) \<noteq> x" using c q by force
      ultimately show "0 < x \<and> x < PRIME \<and> (\<forall>qs \<in> set pss. fst (qs ! n) \<noteq> x) \<and>
        validate_points accepted (Suc n) points"
        unfolding IH using q by (auto simp: xs_in_range_def)
    qed
    finally show ?thesis .
  qed
qed

text \<open>The check of \<open>_validate_keys\<close> is compatibility with what was accepted before.\<close>

theorem validate_keys_iff:
  assumes "list_all2 (\<lambda>v pts. points_of v = Some pts) (ss_decoding_participants_keys s) pss"
    and "compatible pss"
  shows "validate_keys s keys \<longleftrightarrow> (\<exists>pts. points_of keys = Some pts \<and> compatible (pss @ [pts]))"
proof -
  obtain n where n: "0 < n" "\<forall>pts \<in> set pss. length pts = n" and rng: "\<forall>pts \<in> set pss. xs_in_range pts"
    and dist: "\<And>c. c < n \<Longrightarrow> distinct (map (\<lambda>pts. fst (pts ! c)) pss)"
    using assms(2) by (auto simp: compatible_def)
  let ?acc = "ss_decoding_participants_keys s"
  have compat: "compatible (pss @ [pts]) \<longleftrightarrow> pts \<noteq> [] \<and> (pss \<noteq> [] \<longrightarrow> length pts = n) \<and> xs_in_range pts \<and>
      (\<forall>c < length pts. \<forall>qs \<in> set pss. fst (qs ! c) \<noteq> fst (pts ! c))" for pts
  proof (cases "pss = []")
    case True
    then show ?thesis by (auto simp: compatible_def)
  next
    case False
    have eq: "(\<exists>m > 0. \<forall>qs \<in> set (pss @ [pts]). length qs = m) \<longleftrightarrow> length pts = n"
      using n False by (metis Un_iff insert_iff list.set(1) list.set(2) list.set_sel(1) set_append empty_iff)
    show ?thesis
      using False n rng dist unfolding compatible_def eq
      by (auto 0 3 simp: image_iff)
  qed
  show ?thesis
  proof (cases "py_seq keys")
    case None
    then show ?thesis by (simp add: validate_keys_def points_of_def)
  next
    case (Some points)
    have len: "(case ?acc of [] \<Rightarrow> True
        | first # _ \<Rightarrow> py_seq first \<noteq> None \<and> length points = length (the (py_seq first))) \<longleftrightarrow>
        (pss \<noteq> [] \<longrightarrow> length points = n)"
      using assms(1) n(2)
      by (cases ?acc; cases pss) (auto dest!: length_points)
    have "validate_keys s keys \<longleftrightarrow> points \<noteq> [] \<and> (pss \<noteq> [] \<longrightarrow> length points = n) \<and>
        validate_points ?acc 0 points"
      unfolding validate_keys_def Some using len by (cases points) auto
    also have "\<dots> \<longleftrightarrow> points \<noteq> [] \<and> (pss \<noteq> [] \<longrightarrow> length points = n) \<and>
        (\<exists>pts. list_all2 (\<lambda>p q. point_of p = Some q) points pts \<and> xs_in_range pts \<and>
          (\<forall>c < length pts. \<forall>qs \<in> set pss. fst (qs ! c) \<noteq> fst (pts ! c)))"
    proof (cases "pss \<noteq> [] \<longrightarrow> length points = n")
      case True
      have "list_all2 (\<lambda>v pts. points_of v = Some pts \<and> 0 + length points \<le> length pts) ?acc pss"
        using assms(1) n(2) True by (auto simp: list_all2_conv_all_nth)
      from validate_points_iff [OF this] show ?thesis by simp
    qed auto
    also have "\<dots> \<longleftrightarrow> (\<exists>pts. points_of keys = Some pts \<and> compatible (pss @ [pts]))"
      using Some by (auto simp: points_of_Some compat dest: list_all2_lengthD) (metis length_0_conv list_all2_lengthD)+
    finally show ?thesis .
  qed
qed

section \<open>The decoder invariant\<close>

definition decoder_inv :: "shamir_secret \<Rightarrow> bool" where
  "decoder_inv s \<longleftrightarrow>
     (\<exists>pss. list_all2 (\<lambda>v pts. points_of v = Some pts) (ss_decoding_participants_keys s) pss \<and>
            compatible pss) \<and>
     2 \<le> ss_treshold s \<and> ss_treshold s \<le> ss_shares s \<and>
     (ss_ready_to_decode s \<longrightarrow> ss_treshold s \<le> int (length (ss_decoding_participants_keys s))) \<and>
     ss_bytes_per_integer s = 8"

lemma shamir_init_Inr:
  "shamir_init name owner shares treshold uuid4 = Inr s \<longleftrightarrow>
     2 \<le> treshold \<and> treshold \<le> shares \<and>
     s = \<lparr>ss_ready_to_decode = False, ss_treshold = treshold, ss_shares = shares,
          ss_name = PStr name, ss_owner = PStr owner, ss_uuid = PStr uuid4, ss_secret_matrix = [],
          ss_creation_date = PStr (lit ''1800-01-01T00:00:00+00:00''), ss_secret_hash = PNone,
          ss_decoding_participants_keys = [], ss_bytes_per_integer = 8\<rparr>"
  by (auto simp: shamir_init_def)

lemma shamir_init_Inl:
  "shamir_init name owner shares treshold uuid4 = Inl e \<longleftrightarrow>
     \<not> (2 \<le> treshold \<and> treshold \<le> shares) \<and> e = ValueError"
  by (auto simp: shamir_init_def)

lemma decoder_inv_init: "shamir_init name owner shares treshold uuid4 = Inr s \<Longrightarrow> decoder_inv s"
  by (auto simp: shamir_init_Inr decoder_inv_def compatible_def)

text \<open>The fields that the assignments of the metadata leave alone.\<close>

definition decoder_core :: "shamir_secret \<Rightarrow> shamir_secret" where
  "decoder_core s = s\<lparr>ss_creation_date := PNone, ss_owner := PNone, ss_name := PNone,
     ss_uuid := PNone, ss_secret_hash := PNone\<rparr>"

lemma assign_metadata_core:
  "assign_fields data metadata_fields s = (s', r) \<Longrightarrow> decoder_core s' = decoder_core s"
  by (auto simp: metadata_fields_def decoder_core_def split: sum.splits)

lemma decoder_core_eq:
  assumes "decoder_core s' = decoder_core s"
  shows "ss_ready_to_decode s' = ss_ready_to_decode s" "ss_treshold s' = ss_treshold s"
    "ss_shares s' = ss_shares s" "ss_secret_matrix s' = ss_secret_matrix s"
    "ss_decoding_participants_keys s' = ss_decoding_participants_keys s"
    "ss_bytes_per_integer s' = ss_bytes_per_integer s"
  using assms by (cases s; cases s'; simp add: decoder_core_def)+

text \<open>
  Every call either leaves the object as it was and raises, or has found the share acceptable and
  runs \<open>accept_share\<close>.
\<close>

lemma populate_decoder_cases:
  assumes "populate_decoder data s = (s', r)"
  obtains (rejected) e where "s' = s" "r = Inl e"
  | (accepted) keys treshold shares where
      "py_subscript data (lit ''keys'') = Inr keys"
      "2 \<le> treshold" "treshold \<le> shares" "validate_keys s keys"
      "mismatch data (consistency_checks s) = Inr False"
      "ss_decoding_participants_keys s \<noteq> [] \<Longrightarrow> ss_shares s = shares \<and> ss_treshold s = treshold"
      "accept_share data keys treshold shares s = (s', r)"
proof (cases "\<exists>e. r = Inl e \<and> s' = s")
  case True
  then show thesis using rejected by blast
next
  case False
  let ?req = "bindE (py_subscript data (lit ''treshold'')) (\<lambda>treshold.
            bindE (py_subscript data (lit ''shares'')) (\<lambda>shares.
            bindE (py_subscript data (lit ''keys'')) (\<lambda>keys. Inr (treshold, shares, keys))))"
  obtain tv nv keys where req: "?req = Inr (tv, nv, keys)"
    using assms False by (cases ?req) (auto simp: populate_decoder_def)
  obtain t n where tn: "py_int tv = Some t" "py_int nv = Some n"
    using assms False req by (auto simp: populate_decoder_def split: option.splits)
  obtain failed where mm: "mismatch data (consistency_checks s) = Inr failed"
    using assms False req tn
    by (cases "mismatch data (consistency_checks s)") (auto simp: populate_decoder_def split: if_splits)
  show thesis
    by (rule accepted [of keys t n])
      (use assms False req tn mm in \<open>auto simp: populate_decoder_def bindE_Inr_iff split: if_splits\<close>)
qed

lemma accept_share_cases:
  assumes "accept_share data keys treshold shares s = (s', r)"
  obtains (raised) e where "r = Inl e"
      "decoder_core s' = decoder_core (s\<lparr>ss_decoding_participants_keys := ss_decoding_participants_keys s @ [keys]\<rparr>)"
  | (stored) needed where "r = Inr needed"
      "needed = int (Suc (length (ss_decoding_participants_keys s))) - treshold"
      "decoder_core s' = decoder_core
         (s\<lparr>ss_decoding_participants_keys := ss_decoding_participants_keys s @ [keys],
            ss_treshold := treshold, ss_shares := shares,
            ss_ready_to_decode := ss_ready_to_decode s \<or> 0 \<le> needed\<rparr>)"
proof -
  let ?s1 = "s\<lparr>ss_decoding_participants_keys := ss_decoding_participants_keys s @ [keys]\<rparr>"
  obtain s2 q where a: "assign_fields data metadata_fields ?s1 = (s2, q)"
    by (cases "assign_fields data metadata_fields ?s1")
  note core = assign_metadata_core [OF a]
  note ceq = decoder_core_eq [OF core]
  show thesis
  proof (cases q)
    case (Inl e)
    with a assms core show ?thesis by (auto simp: accept_share_def intro: raised)
  next
    case (Inr u)
    let ?needed = "int (Suc (length (ss_decoding_participants_keys s))) - treshold"
    have "r = Inr ?needed"
      using a Inr assms ceq by (auto simp: accept_share_def Let_def split: if_splits)
    moreover have "decoder_core s' = decoder_core
         (?s1\<lparr>ss_treshold := treshold, ss_shares := shares,
            ss_ready_to_decode := ss_ready_to_decode s \<or> 0 \<le> ?needed\<rparr>)"
      using a Inr assms core ceq
      by (cases s; cases s2) (auto simp: accept_share_def Let_def decoder_core_def split: if_splits)
    ultimately show ?thesis by (rule stored [OF _ refl])
  qed
qed

theorem decoder_inv_populate:
  assumes inv: "decoder_inv s" and step: "populate_decoder data s = (s', r)"
  shows "decoder_inv s'"
  using step
proof (cases rule: populate_decoder_cases)
  case (rejected e)
  with inv show ?thesis by simp
next
  case (accepted keys treshold shares)
  obtain pss where pss: "list_all2 (\<lambda>v pts. points_of v = Some pts) (ss_decoding_participants_keys s) pss"
    "compatible pss" using inv by (auto simp: decoder_inv_def)
  obtain pts where "points_of keys = Some pts" "compatible (pss @ [pts])"
    using accepted(4) validate_keys_iff [OF pss] by blast
  with pss have shape: "\<exists>pss. list_all2 (\<lambda>v pts. points_of v = Some pts)
      (ss_decoding_participants_keys s @ [keys]) pss \<and> compatible pss"
    by (intro exI [of _ "pss @ [pts]"]) (simp add: list_all2_appendI)
  have ready: "ss_treshold s = treshold \<and> treshold \<le> int (length (ss_decoding_participants_keys s))"
    if "ss_ready_to_decode s"
  proof -
    have "ss_treshold s \<le> int (length (ss_decoding_participants_keys s))" "2 \<le> ss_treshold s"
      using inv that by (simp_all add: decoder_inv_def)
    moreover from this have "ss_decoding_participants_keys s \<noteq> []" by auto
    ultimately show ?thesis using accepted(6) by simp
  qed
  from accepted(7) show ?thesis
  proof (cases rule: accept_share_cases)
    case (raised e)
    note eqs = decoder_core_eq [OF raised(2)]
    with shape ready inv show ?thesis by (auto simp: decoder_inv_def)
  next
    case (stored needed)
    note eqs = decoder_core_eq [OF stored(3)]
    with shape ready inv accepted(2,3) stored(2) show ?thesis by (auto simp: decoder_inv_def)
  qed
qed

section \<open>Decoding never fails in an unforeseen way\<close>

lemma utf8_cons_Some: "utf8_cons ok c r = Some s \<longleftrightarrow> ok \<and> (\<exists>t. r = Some t \<and> s = c # t)"
  by (auto simp: utf8_cons_def)

lemma is_scalar_two_bytes: "a < 0xE0 \<Longrightarrow> is_cont b \<Longrightarrow> is_scalar ((a - 0xC0) * 64 + (b - 0x80))"
proof -
  assume "a < 0xE0" "is_cont b"
  then have "a - 0xC0 < 32" "b - 0x80 < 64" by (auto simp: is_cont_def)
  then have "(a - 0xC0) * 64 + (b - 0x80) < 0x800" by linarith
  then show ?thesis by (simp add: is_scalar_def)
qed

lemma utf8_scan_scalar: "utf8_scan False bs = Some s \<Longrightarrow> list_all is_scalar s"
proof (induction False bs arbitrary: s rule: utf8_scan.induct)
  case (2 a r)
  show ?case
  proof (cases "a < 0x80")
    case True
    with "2.prems" "2.hyps"(1) show ?thesis by (auto simp: utf8_cons_Some is_scalar_def)
  next
    case not1: False
    show ?thesis
    proof (cases "0xC2 \<le> a \<and> a < 0xE0")
      case True
      with "2.prems" "2.hyps"(2) not1 show ?thesis
        by (auto simp: utf8_cons_Some is_scalar_two_bytes split: list.splits)
    next
      case not2: False
      show ?thesis
      proof (cases "0xE0 \<le> a \<and> a < 0xF0")
        case True
        with "2.prems" "2.hyps"(3) not1 not2 show ?thesis
          by (auto simp: utf8_cons_Some Let_def split: list.splits)
      next
        case False
        with "2.prems" "2.hyps"(4) not1 not2 show ?thesis
          by (auto simp: utf8_cons_Some Let_def split: list.splits if_splits)
      qed
    qed
  qed
qed simp

lemma utf8_decode_scalar: "utf8_decode bs = Inr s \<Longrightarrow> list_all is_scalar s"
  by (auto simp: utf8_decode_def dest: utf8_scan_scalar)

lemma decode_ints_points:
  assumes "list_all2 (\<lambda>v pts. points_of v = Some pts) lines pss" "lines \<noteq> []"
    and "\<forall>pts \<in> set pss. length pts = n"
  shows "decode_ints lines = mapE (\<lambda>c. reconstruct_secret (map (\<lambda>pts. pts ! c) pss)) [0..<n]"
proof -
  obtain first rest where lines: "lines = first # rest" using assms(2) by (cases lines) auto
  then obtain ps where "py_seq first = Some ps" "length ps = n"
    using assms(1,3) by (cases pss) (auto dest!: length_points)
  moreover have "mapE (key_at c) lines = Inr (map (\<lambda>pts. pts ! c) pss)" if "c < n" for c
    using assms(1,3) that
    by (auto simp: mapE_Inr_iff list_all2_conv_all_nth key_at_points)
  ultimately have "decode_ints lines =
      mapE (\<lambda>c. bindE (mapE (key_at c) lines) reconstruct_secret) [0..<n]"
    by (simp add: decode_ints_def lines)
  also have "\<dots> = mapE (\<lambda>c. reconstruct_secret (map (\<lambda>pts. pts ! c) pss)) [0..<n]"
    using \<open>\<And>c. c < n \<Longrightarrow> mapE (key_at c) lines = Inr (map (\<lambda>pts. pts ! c) pss)\<close>
    by (intro mapE_cong) auto
  finally show ?thesis .
qed

lemma compatible_distinct_xs:
  assumes "compatible pss" "\<forall>pts \<in> set pss. c < length pts"
  shows "distinct_xs (map (\<lambda>pts. pts ! c) pss)"
proof (rule distinct_xs_row)
  show "distinct (map fst (map (\<lambda>pts. pts ! c) pss))"
    using assms by (simp add: compatible_def comp_def)
  show "\<forall>p \<in> set (map (\<lambda>pts. pts ! c) pss). 0 < fst p \<and> fst p < PRIME"
    using assms by (auto simp: compatible_def xs_in_range_def)
qed

lemma decode_ints_total:
  assumes "decoder_inv s" "ss_decoding_participants_keys s \<noteq> []"
  shows "\<exists>ints. decode_ints (ss_decoding_participants_keys s) = Inr ints"
proof -
  obtain pss where pss: "list_all2 (\<lambda>v pts. points_of v = Some pts) (ss_decoding_participants_keys s) pss"
    "compatible pss" using assms(1) by (auto simp: decoder_inv_def)
  then obtain n where n: "\<forall>pts \<in> set pss. length pts = n" by (auto simp: compatible_def)
  have "\<forall>c \<in> set [0..<n]. \<exists>x. reconstruct_secret (map (\<lambda>pts. pts ! c) pss) = Inr x"
    using compatible_distinct_xs [OF pss(2)] n reconstruct_secret_lagrange by fastforce
  then show ?thesis
    unfolding decode_ints_points [OF pss(1) assms(2) n] by (rule mapE_total)
qed

theorem decode_errors:
  assumes inv: "decoder_inv s" and err: "decode s = Inl e"
  shows "e = ShareReconstructionError"
proof -
  have ready: "ss_ready_to_decode s" using err by (auto simp: decode_def split: if_splits)
  then have "ss_decoding_participants_keys s \<noteq> []" using inv by (auto simp: decoder_inv_def)
  then obtain ints where ints: "decode_ints (ss_decoding_participants_keys s) = Inr ints"
    using decode_ints_total [OF inv] by blast
  show ?thesis
  proof (cases "integer_list_to_string ints (ss_bytes_per_integer s)")
    case (Inl e')
    have "is_decode_failure e'"
      using Inl by (auto simp: integer_list_to_string_def is_decode_failure_def bindE_Inl_iff
          utf8_decode_def int_to_bytes_def split: list.splits if_splits dest!: mapE_Inl_obtain)
    with Inl ints err ready show ?thesis by (simp add: decode_def)
  next
    case (Inr result)
    then have "list_all is_scalar result"
      by (auto simp: integer_list_to_string_def bindE_Inr_iff split: list.splits dest: utf8_decode_scalar)
    then obtain raw where "utf8_encode result = Inr raw" using utf8.enc_valid by blast
    with Inr ints err ready show ?thesis by (auto simp: decode_def split: if_splits)
  qed
qed

theorem decode_hash_checked:
  assumes "decode s = Inr r" "ss_ready_to_decode s" "ss_secret_hash s \<noteq> PNone"
  shows "\<exists>raw. utf8_encode r = Inr raw \<and> py_eq (PStr (sha256_hexdigest raw)) (ss_secret_hash s)"
  using assms by (auto simp: decode_def bindE_Inr_iff split: if_splits)

end
