(* ===== verification/ShamirRecovery.thy ===== *)
theory ShamirRecovery
  imports ShamirDecoder
begin

text \<open>
  Recovery: the shares that a dealer's object yields, in memory or after a round trip through
  JSON, are accepted by a decoder in any order, and treshold many of them give back the secret.
  The abstract state of a decoder is the list of the indices of the shares it has accepted
  (\<open>collected\<close>); \<open>populate_decoder\<close> appends to it or rejects a repeated share.
\<close>

section \<open>The dealer's object\<close>

definition dealt :: "pystr \<Rightarrow> shamir_secret \<Rightarrow> bool" where
  "dealt secret d \<longleftrightarrow>
     (\<exists>raw ints. utf8_encode secret = Inr raw \<and> length raw \<le> MAX_SECRET_BYTES \<and>
        string_to_integers secret 8 = Inr ints \<and>
        list_all2 (row_ok (nat (ss_shares d)) (nat (ss_treshold d))) ints (ss_secret_matrix d) \<and>
        ss_secret_hash d = PStr (sha256_hexdigest raw)) \<and>
     2 \<le> ss_treshold d \<and> ss_treshold d \<le> ss_shares d \<and>
     (\<exists>date owner name uuid. ss_creation_date d = PStr date \<and> ss_owner d = PStr owner \<and>
        ss_name d = PStr name \<and> ss_uuid d = PStr uuid)"

lemma split_all_rows:
  assumes "split_all n m cs tape = Some (rows, tape')" "0 \<le> n" "1 \<le> m"
  shows "list_all2 (row_ok (nat n) (nat m)) cs rows"
  using assms(1)
proof (induction cs arbitrary: rows tape)
  case (Cons c cs)
  then show ?case
    by (auto split: option.splits prod.splits intro: generate_shares_row_ok [OF _ assms(2,3)])
qed simp

theorem create_secret_dealt:
  assumes init: "shamir_init name owner shares treshold uuid4 = Inr d0"
    and create: "create_secret secret now tape d0 = Some (Inr d, tape')"
  shows "dealt secret d \<and> ss_ready_to_decode d \<and>
    ss_treshold d = treshold \<and> ss_shares d = shares \<and> ss_name d = PStr name \<and>
    ss_owner d = PStr owner \<and> ss_uuid d = PStr uuid4 \<and> ss_creation_date d = PStr now \<and>
    ss_decoding_participants_keys d = []"
proof -
  obtain raw where raw: "utf8_encode secret = Inr raw" "length raw \<le> MAX_SECRET_BYTES"
    using create by (auto simp: create_secret_def split: sum.splits if_splits)
  obtain ints where ints: "string_to_integers secret 8 = Inr ints"
    using string_to_integers_chunks [of 8 secret raw] raw by auto
  obtain rows where rows: "split_all shares treshold ints tape = Some (rows, tape')"
    and d: "d = d0\<lparr>ss_secret_hash := PStr (sha256_hexdigest raw), ss_creation_date := PStr now,
       ss_secret_matrix := rows, ss_ready_to_decode := True\<rparr>"
    using create raw ints init by (auto simp: create_secret_def shamir_init_Inr)
  have "list_all2 (row_ok (nat shares) (nat treshold)) ints rows"
    using split_all_rows [OF rows] init by (auto simp: shamir_init_Inr)
  with raw ints d init show ?thesis by (auto simp: dealt_def shamir_init_Inr)
qed

lemma create_secret_errors:
  assumes "create_secret secret now tape s = Some (Inl e, tape')" "ss_bytes_per_integer s = 8"
  shows "(e = UnicodeEncodeError \<and> \<not> list_all is_scalar secret) \<or>
    (e = ValueError \<and> (\<exists>raw. utf8_encode secret = Inr raw \<and> MAX_SECRET_BYTES < length raw))"
  using assms string_to_integers_chunks [of 8 secret]
  by (auto simp: create_secret_def utf8_encode_def split: sum.splits if_splits)

lemma dealt_matrix:
  assumes "dealt secret d" "row \<in> set (ss_secret_matrix d)"
  shows "length row = nat (ss_shares d)" "distinct (map fst row)"
    "\<forall>p \<in> set row. 0 < fst p \<and> fst p < PRIME"
  using assms by (auto simp: dealt_def row_ok_def list_all2_conv_all_nth in_set_conv_nth; metis)+

lemma dealt_matrix_nonempty: "dealt secret d \<Longrightarrow> ss_secret_matrix d \<noteq> []"
  by (auto simp: dealt_def string_to_integers_def bindE_Inr_iff Let_def dest: list_all2_lengthD)

theorem iterate_participants_dealt:
  assumes "dealt secret d"
  shows "iterate_participants d = Inr (map (participant_data d) [0..<nat (ss_shares d)])"
proof -
  obtain row rows where m: "ss_secret_matrix d = row # rows"
    using dealt_matrix_nonempty [OF assms] by (cases "ss_secret_matrix d") auto
  then have "length r = nat (ss_shares d)" if "r \<in> set (row # rows)" for r
    using dealt_matrix(1) [OF assms] that by simp
  then show ?thesis by (auto simp: iterate_participants_def m)
qed

section \<open>Shares of a dealer\<close>

definition column :: "shamir_secret \<Rightarrow> nat \<Rightarrow> (int \<times> int) list" where
  "column d i = map (\<lambda>row. row ! i) (ss_secret_matrix d)"

text \<open>What a decoder can observe of the \<open>i\<close>-th share: its fields and its points.\<close>

definition share_view :: "shamir_secret \<Rightarrow> nat \<Rightarrow> pyval \<Rightarrow> bool" where
  "share_view d i v \<longleftrightarrow>
     (\<exists>keys. py_subscript v (lit ''keys'') = Inr keys \<and> points_of keys = Some (column d i)) \<and>
     py_subscript v (lit ''creation_date'') = Inr (ss_creation_date d) \<and>
     py_subscript v (lit ''owner'') = Inr (ss_owner d) \<and>
     py_subscript v (lit ''name'') = Inr (ss_name d) \<and>
     py_subscript v (lit ''uuid'') = Inr (ss_uuid d) \<and>
     py_subscript v (lit ''treshold'') = Inr (PInt (ss_treshold d)) \<and>
     py_subscript v (lit ''shares'') = Inr (PInt (ss_shares d)) \<and>
     py_subscript v (lit ''secret_hash'') = Inr (ss_secret_hash d)"

lemma points_of_participant_keys: "points_of (participant_keys m i) = Some (map (\<lambda>row. row ! i) m)"
  by (auto simp: points_of_def participant_keys_def point_of_def list_all_iff)

lemma share_view_participant: "share_view d i (participant_data d i)"
  by (simp add: share_view_def participant_data_def points_of_participant_keys column_def)

lemma share_view_detuple:
  assumes "dealt secret d"
  shows "share_view d i (detuple (participant_data d i))"
proof -
  have "detuple (ss_creation_date d) = ss_creation_date d" "detuple (ss_owner d) = ss_owner d"
    "detuple (ss_name d) = ss_name d" "detuple (ss_uuid d) = ss_uuid d"
    "detuple (ss_secret_hash d) = ss_secret_hash d"
    using assms by (auto simp: dealt_def)
  moreover have "points_of (detuple (participant_keys (ss_secret_matrix d) i)) = Some (column d i)"
    by (simp add: points_of_participant_keys column_def)
  ultimately show ?thesis by (simp add: share_view_def participant_data_def)
qed

lemma columns_compatible:
  assumes "dealt secret d" "distinct idxs" "set idxs \<subseteq> {..<nat (ss_shares d)}"
  shows "compatible (map (column d) idxs)"
proof -
  let ?m = "ss_secret_matrix d"
  have "0 < length ?m" using dealt_matrix_nonempty [OF assms(1)] by simp
  then have "\<exists>n > 0. \<forall>pts \<in> set (map (column d) idxs). length pts = n"
    by (intro exI [of _ "length ?m"]) (simp add: column_def)
  moreover have "xs_in_range (column d i)" if "i \<in> set idxs" for i
    unfolding xs_in_range_def
  proof
    fix p assume "p \<in> set (column d i)"
    then obtain row where row: "row \<in> set ?m" "p = row ! i" by (auto simp: column_def)
    then have "p \<in> set row" using that assms(3) dealt_matrix(1) [OF assms(1) row(1)] by auto
    then show "0 < fst p \<and> fst p < PRIME" using dealt_matrix(3) [OF assms(1) row(1)] by blast
  qed
  moreover have "distinct (map (\<lambda>pts. fst (pts ! c)) (map (column d) idxs))"
    if "\<forall>pts \<in> set (map (column d) idxs). c < length pts" for c
  proof (cases "idxs = []")
    case False
    then have c: "c < length ?m" using that by (cases idxs) (auto simp: column_def)
    then have row: "?m ! c \<in> set ?m" by simp
    have "inj_on (\<lambda>i. fst (?m ! c ! i)) (set idxs)"
    proof (rule inj_onI)
      fix i j assume "i \<in> set idxs" "j \<in> set idxs" "fst (?m ! c ! i) = fst (?m ! c ! j)"
      then show "i = j"
        using assms(3) dealt_matrix(1,2) [OF assms(1) row] by (auto simp: distinct_conv_nth)
    qed
    then show ?thesis using assms(2) c by (simp add: comp_def column_def distinct_map)
  qed simp
  ultimately show ?thesis by (auto simp: compatible_def)
qed

lemma compatible_first: "compatible pss \<Longrightarrow> distinct (map (\<lambda>pts. fst (pts ! 0)) pss)"
  by (auto simp: compatible_def)

section \<open>Equality of values that hold points\<close>

lemma py_eq_py_int: "py_eq v w \<Longrightarrow> py_int v = Some a \<Longrightarrow> py_int w = Some b \<Longrightarrow> a = b"
  by (cases v; cases w) auto

lemma py_eq_seq:
  "py_eq v w \<Longrightarrow> py_seq v = Some xs \<Longrightarrow> py_seq w = Some ys \<Longrightarrow>
   list_all2 (\<lambda>x y. (is_nan x \<and> is_nan y) \<or> py_eq x y) xs ys"
  by (cases v; cases w) auto

lemma is_nan_no_int [simp]: "is_nan v \<Longrightarrow> py_int v = None" "is_nan v \<Longrightarrow> py_seq v = None"
  by (cases v rule: is_nan.cases; simp)+

lemma py_eq_point:
  assumes "(is_nan v \<and> is_nan w) \<or> py_eq v w" "point_of v = Some p" "point_of w = Some q"
  shows "p = q"
proof -
  obtain x y where v: "py_seq v = Some [x, y]" and p: "py_int x = Some (fst p)" "py_int y = Some (snd p)"
    using assms(2) by (auto simp: point_of_def split: option.splits list.splits)
  obtain x' y' where w: "py_seq w = Some [x', y']" and q: "py_int x' = Some (fst q)" "py_int y' = Some (snd q)"
    using assms(3) by (auto simp: point_of_def split: option.splits list.splits)
  have "py_eq v w" using assms(1) v by auto
  from py_eq_seq [OF this v w] have "py_eq x x'" "py_eq y y'"
    using p q by auto
  with p q show ?thesis by (auto intro: prod_eqI dest: py_eq_py_int)
qed

lemma py_eq_points:
  assumes "py_eq v w" "points_of v = Some ps" "points_of w = Some qs"
  shows "ps = qs"
proof -
  obtain vs ws where vs: "py_seq v = Some vs" "list_all2 (\<lambda>p q. point_of p = Some q) vs ps"
    and ws: "py_seq w = Some ws" "list_all2 (\<lambda>p q. point_of p = Some q) ws qs"
    using assms(2,3) by (auto simp: points_of_Some)
  have "list_all2 (\<lambda>x y. (is_nan x \<and> is_nan y) \<or> py_eq x y) vs ws"
    by (rule py_eq_seq [OF assms(1) vs(1) ws(1)])
  then have "ps ! i = qs ! i" if "i < length ps" for i
    using vs(2) ws(2) that py_eq_point [of "vs ! i" "ws ! i" "ps ! i" "qs ! i"]
    by (auto simp: list_all2_conv_all_nth)
  moreover have "length ps = length qs"
    using vs(2) ws(2) \<open>list_all2 _ vs ws\<close> by (auto dest!: list_all2_lengthD)
  ultimately show ?thesis by (auto intro: nth_equalityI)
qed

section \<open>Collecting the shares of a dealer\<close>

definition collected :: "shamir_secret \<Rightarrow> nat list \<Rightarrow> shamir_secret \<Rightarrow> bool" where
  "collected d idxs s \<longleftrightarrow>
     list_all2 (\<lambda>v i. points_of v = Some (column d i)) (ss_decoding_participants_keys s) idxs \<and>
     distinct idxs \<and> set idxs \<subseteq> {..<nat (ss_shares d)} \<and> ss_bytes_per_integer s = 8 \<and>
     (ss_ready_to_decode s \<longleftrightarrow> ss_treshold d \<le> int (length idxs)) \<and>
     (if idxs = [] then ss_name s \<in> {PStr [], ss_name d} \<and> ss_owner s \<in> {PStr [], ss_owner d}
      else ss_creation_date s = ss_creation_date d \<and> ss_owner s = ss_owner d \<and>
           ss_name s = ss_name d \<and> ss_uuid s = ss_uuid d \<and> ss_secret_hash s = ss_secret_hash d \<and>
           ss_treshold s = ss_treshold d \<and> ss_shares s = ss_shares d)"

lemma collected_init:
  assumes "shamir_init name owner shares treshold uuid4 = Inr s" "2 \<le> ss_treshold d"
    and "name = [] \<or> ss_name d = PStr name" "owner = [] \<or> ss_owner d = PStr owner"
  shows "collected d [] s"
  using assms by (auto simp: collected_def shamir_init_Inr)

lemma collected_points:
  "collected d idxs s \<Longrightarrow>
   list_all2 (\<lambda>v pts. points_of v = Some pts) (ss_decoding_participants_keys s) (map (column d) idxs)"
  by (simp add: collected_def list_all2_map2)

lemma collected_keys_empty: "collected d idxs s \<Longrightarrow> ss_decoding_participants_keys s = [] \<longleftrightarrow> idxs = []"
  by (auto simp: collected_def)

lemma collected_consistent:
  assumes "dealt secret d" "collected d idxs s" "share_view d i v"
  shows "mismatch v (consistency_checks s) = Inr False"
proof -
  obtain date owner name uuid h where "ss_creation_date d = PStr date" "ss_owner d = PStr owner"
    "ss_name d = PStr name" "ss_uuid d = PStr uuid" "ss_secret_hash d = PStr h"
    using assms(1) by (auto simp: dealt_def)
  then show ?thesis
    using assms(2,3) collected_keys_empty [OF assms(2)]
    by (auto simp: consistency_checks_def share_view_def collected_def)
qed

theorem collect_new_share:
  assumes dealt: "dealt secret d" and coll: "collected d idxs s"
    and view: "share_view d i v" and new: "i \<notin> set idxs" "i < nat (ss_shares d)"
  shows "\<exists>s'. populate_decoder v s = (s', Inr (int (Suc (length idxs)) - ss_treshold d)) \<and>
    collected d (idxs @ [i]) s'"
proof -
  obtain keys where keys: "py_subscript v (lit ''keys'') = Inr keys" "points_of keys = Some (column d i)"
    using view by (auto simp: share_view_def)
  have idxs: "distinct idxs" "set idxs \<subseteq> {..<nat (ss_shares d)}" using coll by (auto simp: collected_def)
  have compat: "compatible (map (column d) idxs)" "compatible (map (column d) idxs @ [column d i])"
    using columns_compatible [OF dealt idxs] columns_compatible [OF dealt, of "idxs @ [i]"] idxs new
    by auto
  then have valid: "validate_keys s keys"
    using validate_keys_iff [OF collected_points [OF coll] compat(1), of keys] keys(2) by auto
  have fresh: "\<not> py_in keys (ss_decoding_participants_keys s)"
  proof
    assume "py_in keys (ss_decoding_participants_keys s)"
    moreover have "\<not> is_nan keys" using keys(2) by (auto simp: points_of_def)
    ultimately obtain w where "w \<in> set (ss_decoding_participants_keys s)" "py_eq w keys"
      by (auto simp: py_in_def)
    moreover from this obtain k where "k < length (ss_decoding_participants_keys s)"
      "w = ss_decoding_participants_keys s ! k" by (auto simp: in_set_conv_nth)
    then have "k < length idxs" "points_of w = Some (column d (idxs ! k))"
      using coll by (auto simp: collected_def list_all2_conv_all_nth)
    ultimately have same: "column d (idxs ! k) = column d i" and k: "idxs ! k \<in> set idxs"
      using py_eq_points keys(2) by auto
    have "fst (column d i ! 0) \<in> (\<lambda>x. fst (column d x ! 0)) ` set idxs"
      using k by (rule rev_image_eqI) (simp add: same)
    then show False using compatible_first [OF compat(2)] by (simp add: comp_def image_image)
  qed
  let ?s' = "s\<lparr>ss_decoding_participants_keys := ss_decoding_participants_keys s @ [keys],
      ss_creation_date := ss_creation_date d, ss_owner := ss_owner d, ss_name := ss_name d,
      ss_uuid := ss_uuid d, ss_secret_hash := ss_secret_hash d, ss_treshold := ss_treshold d,
      ss_shares := ss_shares d,
      ss_ready_to_decode := ss_ready_to_decode s \<or> ss_treshold d \<le> int (Suc (length idxs))\<rparr>"
  have len: "length (ss_decoding_participants_keys s) = length idxs"
    using coll by (auto simp: collected_def dest: list_all2_lengthD)
  have acc: "accept_share v keys (ss_treshold d) (ss_shares d) s =
      (?s', Inr (int (Suc (length idxs)) - ss_treshold d))"
    using view len by (cases s) (auto simp: accept_share_def metadata_fields_def share_view_def Let_def)
  have t: "2 \<le> ss_treshold d" "ss_treshold d \<le> ss_shares d" using dealt by (auto simp: dealt_def)
  have same: "ss_decoding_participants_keys s \<noteq> [] \<Longrightarrow>
      ss_shares s = ss_shares d \<and> ss_treshold s = ss_treshold d"
    using coll collected_keys_empty [OF coll] by (auto simp: collected_def)
  have "populate_decoder v s = accept_share v keys (ss_treshold d) (ss_shares d) s"
    using view keys valid fresh t same collected_consistent [OF dealt coll view]
    by (auto simp: populate_decoder_def share_view_def)
  moreover have "collected d (idxs @ [i]) ?s'"
    using coll keys(2) new by (auto simp: collected_def list_all2_appendI)
  ultimately show ?thesis using acc by auto
qed

text \<open>A share that was accepted before is rejected and changes nothing.\<close>

theorem collect_repeated_share:
  assumes dealt: "dealt secret d" and coll: "collected d idxs s"
    and view: "share_view d i v" and old: "i \<in> set idxs"
  shows "populate_decoder v s = (s, Inl InvalidShareError)"
proof -
  obtain keys where keys: "py_subscript v (lit ''keys'') = Inr keys" "points_of keys = Some (column d i)"
    using view by (auto simp: share_view_def)
  have idxs: "distinct idxs" "set idxs \<subseteq> {..<nat (ss_shares d)}" using coll by (auto simp: collected_def)
  have "\<not> distinct (map (\<lambda>pts. fst (pts ! 0)) (map (column d) idxs @ [column d i]))"
    using old by auto
  then have "\<not> compatible (map (column d) idxs @ [column d i])"
    using compatible_first by blast
  then have "\<not> validate_keys s keys"
    using validate_keys_iff [OF collected_points [OF coll] columns_compatible [OF dealt idxs], of keys] keys(2)
    by auto
  moreover have "2 \<le> ss_treshold d" "ss_treshold d \<le> ss_shares d" using dealt by (auto simp: dealt_def)
  ultimately show ?thesis using view keys(1) by (auto simp: populate_decoder_def share_view_def)
qed

section \<open>Recovery\<close>

lemma collected_decode_ints:
  assumes dealt: "dealt secret d" and coll: "collected d idxs s"
    and enough: "ss_treshold d \<le> int (length idxs)" and ints: "string_to_integers secret 8 = Inr ints"
  shows "decode_ints (ss_decoding_participants_keys s) = Inr ints"
proof -
  let ?m = "ss_secret_matrix d"
  have t: "2 \<le> ss_treshold d" using dealt by (auto simp: dealt_def)
  then have "ss_decoding_participants_keys s \<noteq> []"
    using enough collected_keys_empty [OF coll] by auto
  then have "decode_ints (ss_decoding_participants_keys s) =
      mapE (\<lambda>c. reconstruct_secret (map (\<lambda>pts. pts ! c) (map (column d) idxs))) [0..<length ?m]"
    by (rule decode_ints_points [OF collected_points [OF coll]]) (simp add: column_def)
  also have "\<dots> = Inr (map ((!) ints) [0..<length ?m])"
  proof (rule mapE_map)
    fix c assume "c \<in> set [0..<length ?m]"
    then have c: "c < length ?m" by simp
    have rows: "list_all2 (row_ok (nat (ss_shares d)) (nat (ss_treshold d))) ints ?m"
      and raw: "\<exists>raw. utf8_encode secret = Inr raw \<and> length raw \<le> MAX_SECRET_BYTES"
      using dealt ints by (auto simp: dealt_def)
    then have row: "row_ok (nat (ss_shares d)) (nat (ss_treshold d)) (ints ! c) (?m ! c)"
      and int: "ints ! c \<in> set ints"
      using c by (auto simp: list_all2_conv_all_nth)
    have idxs: "distinct idxs" "set idxs \<subseteq> {..<nat (ss_shares d)}" using coll by (auto simp: collected_def)
    have pts: "map (\<lambda>pts. pts ! c) (map (column d) idxs) = map (\<lambda>i. ?m ! c ! i) idxs"
      using c by (simp add: column_def)
    show "reconstruct_secret (map (\<lambda>pts. pts ! c) (map (column d) idxs)) = Inr (ints ! c)"
      unfolding pts
    proof (rule reconstruct_row [OF row])
      show "0 \<le> ints ! c" "ints ! c < PRIME"
        using string_to_integers_range [OF _ _ ints int] raw by auto
      show "set (map (\<lambda>i. ?m ! c ! i) idxs) \<subseteq> set (?m ! c)"
        using idxs row by (auto simp: row_ok_def)
      have len: "length (?m ! c) = nat (ss_shares d)" and "distinct (map fst (?m ! c))"
        using row by (auto simp: row_ok_def)
      have "inj_on (\<lambda>i. fst (?m ! c ! i)) (set idxs)"
      proof (rule inj_onI)
        fix a b assume ab: "a \<in> set idxs" "b \<in> set idxs" "fst (?m ! c ! a) = fst (?m ! c ! b)"
        then have "a < length (?m ! c)" "b < length (?m ! c)" using idxs(2) len by auto
        then show "a = b"
          using \<open>distinct (map fst (?m ! c))\<close> ab(3) nth_eq_iff_index_eq [of "map fst (?m ! c)" a b] by simp
      qed
      then show "distinct (map fst (map (\<lambda>i. ?m ! c ! i) idxs))"
        using idxs by (simp add: comp_def distinct_map)
    qed (use enough t in auto)
  qed
  also have "map ((!) ints) [0..<length ?m] = ints"
  proof -
    have "length ?m = length ints" using dealt ints by (auto simp: dealt_def dest: list_all2_lengthD)
    then show ?thesis by (simp add: map_nth)
  qed
  finally show ?thesis .
qed

theorem collected_decode:
  assumes dealt: "dealt secret d" and coll: "collected d idxs s"
    and enough: "ss_treshold d \<le> int (length idxs)"
  shows "decode s = Inr secret"
proof -
  obtain raw ints where raw: "utf8_encode secret = Inr raw"
    and ints: "string_to_integers secret 8 = Inr ints" and h: "ss_secret_hash d = PStr (sha256_hexdigest raw)"
    using dealt by (auto simp: dealt_def)
  have "2 \<le> ss_treshold d" using dealt by (auto simp: dealt_def)
  with enough have "idxs \<noteq> []" by auto
  then have s: "ss_secret_hash s = PStr (sha256_hexdigest raw)" "ss_bytes_per_integer s = 8" "ss_ready_to_decode s"
    using coll enough h by (auto simp: collected_def)
  have "integer_list_to_string ints 8 = Inr secret"
    using string_integers.dec_enc [of secret 7 ints] raw ints
    by (auto simp: utf8_encode_def eval_nat_numeral split: if_splits)
  then show ?thesis
    using s collected_decode_ints [OF dealt coll enough ints] raw by (simp add: decode_def)
qed

lemma collected_too_few:
  assumes "collected d idxs s" "int (length idxs) < ss_treshold d"
  shows "decode s = Inr []"
  using assms by (simp add: collected_def decode_def)

text \<open>Feeding shares one after the other, as the loops of the clients do.\<close>

fun populate_all :: "pyval list \<Rightarrow> shamir_secret \<Rightarrow> shamir_secret py" where
  "populate_all [] s = Inr s"
| "populate_all (v # vs) s = (case populate_decoder v s of
     (s', Inl e) \<Rightarrow> Inl e
   | (s', Inr n) \<Rightarrow> populate_all vs s')"

lemma populate_all_collects:
  assumes "dealt secret d" "collected d idxs s" "list_all2 (share_view d) js vs"
    and "distinct (idxs @ js)" "set js \<subseteq> {..<nat (ss_shares d)}"
  shows "\<exists>s'. populate_all vs s = Inr s' \<and> collected d (idxs @ js) s'"
  using assms(2-)
proof (induction js arbitrary: idxs s vs)
  case (Cons j js)
  then obtain v vs' where vs: "vs = v # vs'" "share_view d j v" "list_all2 (share_view d) js vs'"
    by (auto simp: list_all2_Cons1)
  obtain s1 where s1: "populate_decoder v s = (s1, Inr (int (Suc (length idxs)) - ss_treshold d))"
    "collected d (idxs @ [j]) s1"
    using collect_new_share [OF assms(1) Cons.prems(1) vs(2)] Cons.prems by auto
  from Cons.IH [OF s1(2) vs(3)] Cons.prems s1(1) vs(1) show ?case by auto
qed simp

end
