(* ===== verification/Recovery.thy ===== *)
theory Recovery
  imports PeerClient ShamirRecovery
begin

text \<open>
  What the boot-time initiator and the day-2 client share when they bring a secret back: the
  metadata of KEY1 in the configuration, this host and its trusted peers from \<open>hosts.json\<close>, and a
  decoder that is built from them.
\<close>

section \<open>What is asked for\<close>

text \<open>
  The four options of KEY1. Subscripts raise \<open>KeyError\<close> for a missing option, which the callers turn
  into their own error; \<open>getint\<close> gives \<open>None\<close> instead.
\<close>

definition key1_metadata ::
  "(pystr \<Rightarrow> int option) \<Rightarrow> pyexn \<Rightarrow> pystr dict \<Rightarrow> (pystr \<times> pystr \<times> int option \<times> int option) py" where
  "key1_metadata unicode_int missing section =
     catchE
       (bindE (section_item section (lit ''key1-name'')) (\<lambda>key1_name.
        bindE (section_item section (lit ''key1-uuid'')) (\<lambda>key1_uuid.
        bindE (section_getint unicode_int section (lit ''key1-treshold'')) (\<lambda>key1_treshold.
        bindE (section_getint unicode_int section (lit ''key1-shares'')) (\<lambda>key1_shares.
          Inr (key1_name, key1_uuid, key1_treshold, key1_shares))))))
       (\<lambda>e. e = KeyError) (\<lambda>_. Inl missing)"

text \<open>The own name and the trusted peers, as every command reads them from \<open>hosts.json\<close>.\<close>

definition own_name_and_peers :: "pystr \<Rightarrow> files \<Rightarrow> (pyval \<times> pyval list) py" where
  "own_name_and_peers basedir fs =
     bindE (load_hosts_json basedir fs) (\<lambda>hosts.
     bindE (own_host_entry hosts) (\<lambda>own_host.
     bindE (py_subscript own_host (lit ''name'')) (\<lambda>own_name.
     bindE (trusted_peers hosts own_name) (\<lambda>peers. Inr (own_name, peers)))))"

text \<open>
  The constructor \<open>ShamirSecret(name, owner, shares=..., treshold=...)\<close> on values of any type. A count
  that is not an integer cannot be compared; a float, which no caller's source produces, counts as one
  that cannot.
\<close>

definition shamir_new ::
  "pyval \<Rightarrow> pyval \<Rightarrow> int option \<Rightarrow> int option \<Rightarrow> pystr \<Rightarrow> shamir_secret py" where
  "shamir_new name owner shares treshold uuid4 =
     (case shares of
        None \<Rightarrow> Inl TypeError
      | Some n \<Rightarrow>
          if n < 2 then Inl ValueError
          else case treshold of
            None \<Rightarrow> Inl TypeError
          | Some t \<Rightarrow> bindE (shamir_init [] [] n t uuid4) (\<lambda>s. Inr (s\<lparr>ss_name := name, ss_owner := owner\<rparr>)))"

lemma shamir_new_Inr:
  "shamir_new name owner shares treshold uuid4 = Inr s \<longleftrightarrow>
     (\<exists>n t s0. shares = Some n \<and> treshold = Some t \<and> shamir_init [] [] n t uuid4 = Inr s0 \<and>
        s = s0\<lparr>ss_name := name, ss_owner := owner\<rparr>)"
  by (auto simp: shamir_new_def shamir_init_def bindE_Inr_iff split: option.splits)

lemma shamir_new_valid:
  assumes "2 \<le> t" "t \<le> n"
  shows "\<exists>s. shamir_new name owner (Some n) (Some t) uuid4 = Inr s"
  using assms by (simp add: shamir_new_def shamir_init_def)

lemma shamir_new_collected:
  assumes "shamir_new name owner shares treshold uuid4 = Inr s" "dealt secret d"
    and "ss_name d = name" "ss_owner d = owner"
  shows "collected d [] s"
proof -
  obtain n t s0 where s: "shamir_init [] [] n t uuid4 = Inr s0" "s = s0\<lparr>ss_name := name, ss_owner := owner\<rparr>"
    using assms(1) by (auto simp: shamir_new_Inr)
  have "2 \<le> ss_treshold d" using assms(2) by (auto simp: dealt_def)
  from collected_init [OF s(1) this] s(2) assms(3,4) show ?thesis by (simp add: collected_def)
qed

text \<open>\<open>peer_client.retrieve_share(peer["address"], ...)\<close>\<close>

definition ask_peer :: "'w net \<Rightarrow> int \<Rightarrow> certs \<Rightarrow> pyval \<Rightarrow> pyval \<Rightarrow> ('w, pyval) action" where
  "ask_peer net port certs share_uuid peer =
     doA (pureA (py_subscript peer (lit ''address''))) (\<lambda>address.
       retrieve_share net address port certs share_uuid)"

text \<open>
  What the loops over peers skip: the three classes of their \<open>except\<close> clauses. It is used by the model of the
  loops only; how a peer can fail is said below, independently of it.
\<close>

definition is_unavailable :: "pyexn \<Rightarrow> bool" where
  "is_unavailable e \<longleftrightarrow> is_os_error e \<or> e = ShareNotFoundError \<or> e = PeerRequestError"

section \<open>Peers that hold the shares of a dealer\<close>

text \<open>
  What a host that holds the share in column \<open>i\<close>, or none, can do to the request for a share, as it is seen on
  the network. Any number of times it may not be there, which is an \<open>OSError\<close>, or answer with whatever status
  other than 200, with any body; if it answers with 200 it has sent its share. If it \<open>breaks\<close>, its answers may
  also be no HTTP, or end too early, which is an \<open>HTTPException\<close> of \<open>http.client\<close>.
\<close>

definition honest_response :: "bool \<Rightarrow> shamir_secret \<Rightarrow> nat \<Rightarrow> (nat \<times> byte list) py \<Rightarrow> bool" where
  "honest_response breaks d i r \<longleftrightarrow> (case r of
     Inl e \<Rightarrow> is_os_error e \<or> breaks \<and> e = HTTPException
   | Inr (status, body) \<Rightarrow> status = 200 \<longrightarrow> i < nat (ss_shares d) \<and> (\<exists>v. json_loads_bytes body = Inr v \<and> share_view d i v))"

text \<open>
  The hosts that are asked, each with a name and an address of its own, and in its own column if it holds a
  share, from every state of the world that the network can be in; the certificate files of this host can be
  loaded, or the failure is an \<open>OSError\<close>.
\<close>

definition honest_hosts ::
  "'w net \<Rightarrow> ('w \<Rightarrow> bool) \<Rightarrow> bool \<Rightarrow> int \<Rightarrow> certs \<Rightarrow> pyval \<Rightarrow> shamir_secret \<Rightarrow> (pyval \<Rightarrow> pystr) \<Rightarrow> (pyval \<Rightarrow> nat) \<Rightarrow>
   (pyval \<Rightarrow> pystr) \<Rightarrow> pyval list \<Rightarrow> bool" where
  "honest_hosts net ok breaks port certs uuid d addr idx nm peers \<longleftrightarrow>
     distinct peers \<and> inj_on idx {p \<in> set peers. idx p < nat (ss_shares d)} \<and> inj_on nm (set peers) \<and>
     (\<forall>p \<in> set peers. py_subscript p (lit ''name'') = Inr (PStr (nm p)) \<and>
        (\<exists>a. py_subscript p (lit ''address'') = Inr a \<and> connection_host a = Inr (addr p))) \<and>
     (\<exists>path. request_path (lit ''/shares/'' @ format_value net uuid) = Inr path \<and>
        (\<forall>p \<in> set peers. \<forall>w. ok w \<longrightarrow>
           (case net_exchange net \<lparr>hq_address = addr p, hq_port = port, hq_certs = certs, hq_timeout = 10, hq_method = GET,
               hq_path = path, hq_body = None\<rparr> w of (w', r) \<Rightarrow> ok w' \<and> honest_response breaks d (idx p) r))) \<and>
     (\<forall>w e. ok w \<longrightarrow> net_certs net certs w = Inl e \<longrightarrow> is_os_error e) \<and>
     (\<forall>n w. ok w \<longrightarrow> ok (net_sleep net n w))"

text \<open>
  The same as the requests for shares see it: a status is one of two exceptions of \<open>retrieve_share\<close>.
\<close>

definition honest_answer :: "bool \<Rightarrow> shamir_secret \<Rightarrow> nat \<Rightarrow> pyval py \<Rightarrow> bool" where
  "honest_answer breaks d i r \<longleftrightarrow> (case r of
     Inr v \<Rightarrow> i < nat (ss_shares d) \<and> share_view d i v
   | Inl e \<Rightarrow> is_os_error e \<or> e \<in> {ShareNotFoundError, PeerRequestError} \<or> breaks \<and> e = HTTPException)"

definition honest_peers ::
  "'w net \<Rightarrow> ('w \<Rightarrow> bool) \<Rightarrow> bool \<Rightarrow> int \<Rightarrow> certs \<Rightarrow> pyval \<Rightarrow> shamir_secret \<Rightarrow> (pyval \<Rightarrow> nat) \<Rightarrow> (pyval \<Rightarrow> pystr) \<Rightarrow>
   pyval list \<Rightarrow> bool" where
  "honest_peers net ok breaks port certs uuid d idx nm peers \<longleftrightarrow>
     distinct peers \<and> inj_on idx {p \<in> set peers. idx p < nat (ss_shares d)} \<and> inj_on nm (set peers) \<and>
     (\<forall>p \<in> set peers. py_subscript p (lit ''name'') = Inr (PStr (nm p)) \<and>
        (\<forall>w. ok w \<longrightarrow> ok (fst (ask_peer net port certs uuid p w)) \<and>
           honest_answer breaks d (idx p) (snd (ask_peer net port certs uuid p w)))) \<and>
     (\<forall>n w. ok w \<longrightarrow> ok (net_sleep net n w))"

lemma honest_hosts_peers:
  assumes "honest_hosts net ok breaks port certs uuid d addr idx nm peers"
  shows "honest_peers net ok breaks port certs uuid d idx nm peers"
proof -
  note parts = assms [unfolded honest_hosts_def]
  from parts obtain path where path: "request_path (lit ''/shares/'' @ format_value net uuid) = Inr path"
    and wire: "\<forall>p \<in> set peers. \<forall>w. ok w \<longrightarrow>
      (case net_exchange net \<lparr>hq_address = addr p, hq_port = port, hq_certs = certs, hq_timeout = 10, hq_method = GET,
        hq_path = path, hq_body = None\<rparr> w of (w', r) \<Rightarrow> ok w' \<and> honest_response breaks d (idx p) r)"
    by (elim conjE exE)
  from parts have fields: "\<forall>p \<in> set peers. py_subscript p (lit ''name'') = Inr (PStr (nm p)) \<and>
      (\<exists>a. py_subscript p (lit ''address'') = Inr a \<and> connection_host a = Inr (addr p))"
    and loads: "\<forall>w e. ok w \<longrightarrow> net_certs net certs w = Inl e \<longrightarrow> is_os_error e" by simp_all
  have "ok (fst (ask_peer net port certs uuid p w)) \<and> honest_answer breaks d (idx p) (snd (ask_peer net port certs uuid p w))"
    if p: "p \<in> set peers" and ok: "ok w" for p w
  proof -
    obtain a where a: "py_subscript p (lit ''address'') = Inr a" "connection_host a = Inr (addr p)"
      using fields p by blast
    obtain w' r where ex: "net_exchange net \<lparr>hq_address = addr p, hq_port = port, hq_certs = certs, hq_timeout = 10,
        hq_method = GET, hq_path = path, hq_body = None\<rparr> w = (w', r)" by (rule prod.exhaust)
    have certs: "net_certs net certs w = Inl e \<Longrightarrow> is_os_error e" for e using loads ok by simp
    show ?thesis
    proof (cases "net_certs net certs w")
      case (Inl e)
      then show ?thesis using certs ok
        by (simp add: ask_peer_def retrieve_share_def http_call_def connect_def doA_def a honest_answer_def)
    next
      case (Inr u)
      have ask: "ask_peer net port certs uuid p w = (w', bindE r (\<lambda>(status, body).
          if status = 404 then Inl ShareNotFoundError else if status \<noteq> 200 then Inl PeerRequestError else json_loads_bytes body))"
        using Inr ex by (cases r) (simp_all add: ask_peer_def retrieve_share_def http_call_def connect_def doA_def a path split: prod.split)
      have "ok w'" "honest_response breaks d (idx p) r" using wire p ok ex by fastforce+
      then show ?thesis unfolding ask
        by (cases r) (auto simp: honest_answer_def honest_response_def)
    qed
  qed
  with parts show ?thesis by (simp add: honest_peers_def)
qed

lemma honest_ask:
  assumes "honest_peers net ok breaks port certs uuid d idx nm peers" "p \<in> set peers" "ok w"
    and "ask_peer net port certs uuid p w = (w', r)"
  shows "ok w'" "honest_answer breaks d (idx p) r"
proof -
  have "ok (fst (ask_peer net port certs uuid p w)) \<and> honest_answer breaks d (idx p) (snd (ask_peer net port certs uuid p w))"
    using assms(1-3) by (simp add: honest_peers_def)
  then show "ok w'" "honest_answer breaks d (idx p) r" by (simp_all add: assms(4))
qed

text \<open>A share of a peer that has not contributed is accepted.\<close>

lemma honest_share_accepted:
  assumes "honest_peers net ok breaks port certs uuid d idx nm peers" "dealt secret d"
    and "collected d (map idx ps) decoder" "set ps \<subseteq> set peers" "p \<in> set peers" "p \<notin> set ps" "ok w"
    and "ask_peer net port certs uuid p w = (w', Inr v)"
  obtains decoder' n where "populate_decoder v decoder = (decoder', Inr n)"
    "collected d (map idx (ps @ [p])) decoder'"
proof -
  have view: "idx p < nat (ss_shares d)" "share_view d (idx p) v"
    using honest_ask(2) [OF assms(1,5,7,8)] by (simp_all add: honest_answer_def)
  have "idx p \<notin> set (map idx ps)"
  proof
    assume "idx p \<in> set (map idx ps)"
    then obtain q where q: "q \<in> set ps" "idx q = idx p" by auto
    have inj: "inj_on idx {p \<in> set peers. idx p < nat (ss_shares d)}" using assms(1) by (simp add: honest_peers_def)
    have "q = p" by (rule inj_onD [OF inj q(2)]) (use q view(1) assms(4,5) in auto)
    then show False using q(1) assms(6) by simp
  qed
  with view obtain decoder' where "populate_decoder v decoder =
      (decoder', Inr (int (Suc (length (map idx ps))) - ss_treshold d))"
    "collected d (map idx ps @ [idx p]) decoder'"
    using collect_new_share [OF assms(2,3)] by blast
  then show ?thesis using that by simp
qed

lemma honest_ready:
  assumes "collected d (map idx ps) decoder" "A \<subseteq> set ps" "ss_treshold d \<le> int (card A)"
  shows "ss_ready_to_decode decoder"
proof -
  have "card A \<le> length ps" using assms(2) card_mono [of "set ps" A] card_length [of ps] by simp
  then show ?thesis using assms(1,3) by (simp add: collected_def)
qed

lemma ready_decodes:
  assumes "dealt secret d" "collected d idxs decoder" "ss_ready_to_decode decoder"
  shows "decode decoder = Inr secret"
  using assms collected_decode [OF assms(1,2)] by (simp add: collected_def)

end
