(* ===== verification/JsonRoundtrip.thy ===== *)
theory JsonRoundtrip
  imports Json
begin

text \<open>
  What \<open>json.dumps\<close> writes, \<open>json.loads\<close> reads back, in both layouts, from the text and from its
  bytes; and the bound on nested calls of the scanner never matters.
\<close>

section \<open>Strings\<close>

lemma hex_val_char [simp]: "n < 16 \<Longrightarrow> hex_val (hex_char n) = Some n"
  by (auto simp: hex_val_def hex_char_def)

lemma hex4_val_hex4:
  assumes "n < 0x10000"
  shows "hex4_val (hex_char (n div 4096 mod 16)) (hex_char (n div 256 mod 16))
    (hex_char (n div 16 mod 16)) (hex_char (n mod 16)) = Some n"
proof -
  define a b c where "a = n div 16" and "b = a div 16" and "c = b div 16"
  have "n div 256 = b" "n div 4096 = c"
    by (simp_all add: a_def b_def c_def flip: div_mult2_eq)
  moreover have "c mod 16 = c" using assms by (simp add: a_def b_def c_def flip: div_mult2_eq)
  moreover have "a * 16 + n mod 16 = n" "b * 16 + a mod 16 = a" "c * 16 + b mod 16 = b"
    unfolding a_def b_def c_def by (rule div_mult_mod_eq)+
  ultimately show ?thesis by (simp add: hex4_val_def flip: a_def)
qed

definition unit_ok :: "bool \<times> nat \<Rightarrow> bool" where
  "unit_ok u = (case u of (escaped, c) \<Rightarrow>
     if escaped then c < 0x10000 else c \<in> {8, 9, 10, 12, 13} \<or> (32 \<le> c \<and> c < 127))"

lemma char_units_ok: "c < 0x110000 \<Longrightarrow> list_all unit_ok (char_units c)"
proof -
  assume "c < 0x110000"
  then have "(c - 0x10000) div 1024 < 1024" "(c - 0x10000) mod 1024 < 1024"
    by (auto simp: less_mult_imp_div_less)
  then show ?thesis by (auto simp: char_units_def unit_ok_def)
qed

lemma scan_unit_text:
  assumes "unit_ok u"
  shows "scan_units (unit_text u @ s) = unit_cons u (scan_units s)"
proof (cases u)
  case (Pair escaped c)
  show ?thesis
  proof (cases escaped)
    case True
    then show ?thesis using assms Pair hex4_val_hex4 [of c]
      by (simp add: unit_text_def unit_ok_def hex4_def)
  next
    case False
    then show ?thesis using assms Pair
      by (auto simp: unit_text_def unit_ok_def simple_escape_def)
  qed
qed

lemma scan_units_text:
  "list_all unit_ok us \<Longrightarrow> scan_units (concat (map unit_text us) @ 34 # r) = Some (us, r)"
  by (induction us) (simp_all add: scan_unit_text unit_cons_def)

fun no_pair :: "pystr \<Rightarrow> bool" where
  "no_pair (a # b # s) \<longleftrightarrow> \<not> (is_high a \<and> is_low b) \<and> no_pair (b # s)"
| "no_pair _ \<longleftrightarrow> True"

text \<open>The strings that are read back as they were written.\<close>

definition str_ok :: "pystr \<Rightarrow> bool" where
  "str_ok s \<longleftrightarrow> list_all (\<lambda>c. c < 0x110000) s \<and> no_pair s"

lemma join_units_Cons:
  "\<not> (is_high c \<and> (\<exists>l us'. us = (True, l) # us' \<and> is_low l)) \<Longrightarrow> join_units ((b, c) # us) = c # join_units us"
  by (cases "(b, c) # us" rule: join_units.cases) auto

lemma char_units_head:
  "\<exists>b x us. char_units c = (b, x) # us \<and> (c < 0x10000 \<longrightarrow> x = c \<and> us = []) \<and> (0x10000 \<le> c \<longrightarrow> \<not> is_low x) \<or> 0x110000 \<le> c"
proof (cases "c < 0x110000")
  case True
  then have "(c - 0x10000) div 1024 < 1024" by (auto simp: less_mult_imp_div_less)
  then show ?thesis by (auto simp: char_units_def is_low_def)
qed auto

lemma join_units_chars: "list_all (\<lambda>c. c < 0x110000) s \<Longrightarrow> no_pair s \<Longrightarrow> join_units (concat (map char_units s)) = s"
proof (induction s)
  case (Cons c s)
  have np: "no_pair s" using Cons.prems(2) by (cases s) auto
  then have IH: "join_units (concat (map char_units s)) = s" using Cons by simp
  show ?case
  proof (cases "c < 0x10000")
    case True
    then have "\<exists>b. char_units c = [(b, c)]" using char_units_head [of c] by auto
    then obtain b where u: "char_units c = [(b, c)]" ..
    have "\<not> (is_high c \<and> (\<exists>l us'. concat (map char_units s) = (True, l) # us' \<and> is_low l))"
    proof (cases s)
      case (Cons d t)
      then have "d < 0x110000" "\<not> (is_high c \<and> is_low d)" using Cons.prems by auto
      then show ?thesis using char_units_head [of d] Cons by (cases "d < 0x10000") auto
    qed simp
    from join_units_Cons [OF this, of b] IH u show ?thesis by simp
  next
    case False
    define q where "q = c - 0x10000"
    have c: "c = q + 0x10000" "q < 1024 * 1024" using False Cons.prems(1) by (auto simp: q_def)
    have "q div 1024 < 1024" using c(2) by (simp add: less_mult_imp_div_less)
    moreover have "q mod 1024 < 1024" by simp
    moreover have "char_units c = [(True, 0xD800 + q div 1024), (True, 0xDC00 + q mod 1024)]"
      using c(1) by (simp add: char_units_def)
    moreover have "q div 1024 * 1024 + q mod 1024 = q" by (rule div_mult_mod_eq)
    ultimately show ?thesis using IH c(1) by (simp add: is_high_def is_low_def)
  qed
qed simp

lemma parse_string_text:
  assumes "str_ok s"
  shows "parse_string (tl (string_text s) @ r) = Inr (s, r)"
proof -
  have "list_all unit_ok (concat (map char_units s))"
    using assms char_units_ok by (fastforce simp: str_ok_def list_all_iff)
  from scan_units_text [OF this] show ?thesis
    using assms join_units_chars [of s] by (simp add: parse_string_def string_text_def str_ok_def)
qed

section \<open>White space and brackets\<close>

lemma skip_ws_append: "list_all is_ws w \<Longrightarrow> skip_ws (w @ s) = skip_ws s"
  by (induction w) (simp_all add: skip_ws_def)

lemma newline_ws [simp]: "list_all is_ws (newline ly)"
  by (auto simp: newline_def is_ws_def list_all_iff split: option.splits)

lemma separator_ws: "\<exists>w. separator ly = 44 # w \<and> list_all is_ws w"
  by (auto simp: separator_def lit_def is_ws_def split: option.splits)

lemma skip_ws_stop: "\<not> is_ws c \<Longrightarrow> skip_ws (c # s) = c # s"
  by (simp add: skip_ws_def)

text \<open>A text that starts a value: neither white space nor a closing bracket.\<close>

definition starts :: "pystr \<Rightarrow> bool" where
  "starts s \<longleftrightarrow> (case s of [] \<Rightarrow> False | c # _ \<Rightarrow> \<not> is_ws c \<and> c \<noteq> 93 \<and> c \<noteq> 125)"

lemma starts_skip: "starts s \<Longrightarrow> skip_ws (s @ r) = s @ r"
  by (cases s) (auto simp: starts_def skip_ws_def)

lemma starts_append: "starts s \<Longrightarrow> starts (s @ r)"
  by (cases s) (auto simp: starts_def)

lemma number_end_simps [simp]:
  "number_end (newline ly @ 93 # r)" "number_end (newline ly @ 125 # r)" "number_end (separator ly @ r)"
  by (cases ly; simp add: newline_def separator_def number_end_def is_digit_def lit_def)+


section \<open>Values\<close>

fun json_ok :: "pyval \<Rightarrow> bool" where
  "json_ok (PInt n) = (length (dec_digits (nat \<bar>n\<bar>)) \<le> MAX_STR_DIGITS)"
| "json_ok (PFloat f) = float_ok f"
| "json_ok (PStr s) = str_ok s"
| "json_ok (PList vs) = list_all json_ok vs"
| "json_ok (PTuple vs) = list_all json_ok vs"
| "json_ok (PDict d) = (dict_ok d \<and> list_all (\<lambda>(k, v). str_ok k \<and> json_ok v) d)"
| "json_ok _ = True"

lemma json_ok_ints: "json_ok v \<Longrightarrow> ints_ok v"
  by (induction v rule: json_ok.induct) (auto simp: list_all_iff)

lemma parse_scalar_number:
  assumes "parse_number s = Inr (v, [])" "number_end r"
  shows "parse_scalar scalars (s @ r) = Inr (v, r)"
proof -
  have "literal p w (s @ r) = None" if "(p, w) \<in> set scalars" for p w
  proof -
    obtain c t where s: "s = c # t" using hd_parse_number [OF assms(1)] by (cases s) auto
    consider "is_digit c" | d u where "c = 45" "t = d # u" "is_digit d"
      using hd_parse_number [OF assms(1)] s by (cases t) auto
    then show ?thesis
      by cases (use that s in \<open>auto simp: scalars_def literal_def lit_def is_digit_def\<close>)
  qed
  then have "parse_scalar ps (s @ r) = parse_number (s @ r)" if "set ps \<subseteq> set scalars" for ps
    using that by (induction ps) (auto split: prod.splits)
  then show ?thesis using parse_number_append [OF assms] by simp
qed

lemma parse_value_scalar:
  "s \<noteq> [] \<Longrightarrow> hd s \<notin> {34, 91, 123} \<Longrightarrow> parse_value (Suc n) s = parse_scalar scalars s"
  by (cases s) (simp_all add: parse_value.simps)

lemma parse_value_number:
  assumes "parse_number s = Inr (v, [])" "number_end r"
  shows "parse_value (Suc n) (s @ r) = Inr (v, r)"
proof -
  have "s @ r \<noteq> []" "hd (s @ r) \<notin> {34, 91, 123}"
    using hd_parse_number [OF assms(1)] by (auto simp: is_digit_def)
  then show ?thesis using parse_scalar_number [OF assms] by (simp add: parse_value_scalar)
qed

lemma starts_number: "parse_number s = Inr (v, []) \<Longrightarrow> starts s"
  using hd_parse_number [of s v "[]"] by (cases s) (auto simp: starts_def is_digit_def is_ws_def)

lemma parse_negative_zero: "parse_number (lit ''-0.0'') = Inr (PFloat FNegZero, [])"
  by (simp add: parse_number_def lit_def scan_sign_def scan_int_def scan_frac_def scan_exp_def
      is_digit_def decimal_float_def dec_value_def)

lemma starts_dump: "json_ok v \<Longrightarrow> starts (dump ly v)"
proof (cases v)
  case (PInt n)
  assume "json_ok v"
  then show ?thesis using PInt parse_int_text [of n] starts_number by simp
next
  case (PFloat f)
  assume ok: "json_ok v"
  show ?thesis
  proof (cases f)
    case (FFin m e)
    with ok PFloat show ?thesis using starts_number by (simp del: float_repr.simps)
  qed (auto simp: PFloat starts_def lit_def is_ws_def)
qed (auto simp: starts_def lit_def is_ws_def string_text_def bracketed_def)

lemma parse_items_texts:
  assumes "vs \<noteq> []" "\<forall>v \<in> set vs. starts (f v)"
    and "\<forall>v \<in> set vs. \<forall>n r. number_end r \<longrightarrow> length (f v) < n \<longrightarrow> parse_value n (f v @ r) = Inr (g v, r)"
    and "length (join_texts (separator ly) (map f vs)) + 1 < n"
  shows "parse_items n acc (join_texts (separator ly) (map f vs) @ newline ly' @ 93 # r) =
    Inr (PList (acc @ map g vs), r)"
  using assms
proof (induction vs arbitrary: n acc)
  case (Cons v vs)
  obtain m where n: "n = Suc m" using Cons.prems(4) by (cases n) auto
  show ?case
  proof (cases vs)
    case Nil
    have "parse_value m (f v @ newline ly' @ 93 # r) = Inr (g v, newline ly' @ 93 # r)"
      using Cons.prems(3,4) Nil n by simp
    then show ?thesis
      using Nil n by (simp add: parse_items.simps skip_ws_append skip_ws_stop is_ws_def)
  next
    case (Cons w ws)
    let ?rest = "join_texts (separator ly) (map f vs) @ newline ly' @ 93 # r"
    obtain sp where sp: "separator ly = 44 # sp" "list_all is_ws sp" using separator_ws by blast
    have len: "length (f v) < m" "length (join_texts (separator ly) (map f vs)) + 1 < m"
      using Cons.prems(4) n Cons sp(1) by auto
    have "parse_value m (f v @ separator ly @ ?rest) = Inr (g v, separator ly @ ?rest)"
      using Cons.prems(3) len(1) by simp
    moreover have "starts (join_texts (separator ly) (map f vs))"
      using Cons.prems(2) Cons by (cases ws) (auto intro: starts_append)
    then have "skip_ws (sp @ ?rest) = ?rest" using sp(2) by (simp add: skip_ws_append starts_skip)
    moreover have "parse_items m (acc @ [g v]) ?rest = Inr (PList ((acc @ [g v]) @ map g vs), r)"
      by (rule Cons.IH) (use Cons.prems len Cons in auto)
    ultimately show ?thesis
      using Cons n sp(1) by (simp add: parse_items.simps skip_ws_stop is_ws_def)
  qed
qed simp


definition pair_text :: "(pyval \<Rightarrow> pystr) \<Rightarrow> pystr \<times> pyval \<Rightarrow> pystr" where
  "pair_text f kv = string_text (fst kv) @ lit '': '' @ f (snd kv)"

lemma length_string_text: "0 < length (string_text s)"
  by (simp add: string_text_def)

lemma starts_pair [simp]: "starts (pair_text f kv)"
  by (simp add: pair_text_def string_text_def starts_def is_ws_def)

lemma parse_pair_text:
  assumes "str_ok k" "starts (f v)" "parse_value m (f v @ r) = Inr (u, r)"
  shows "parse_pairs (Suc m) acc (pair_text f (k, v) @ r) =
    (case skip_ws r of
       [] \<Rightarrow> Inl JSONDecodeError
     | c2 # r3 \<Rightarrow>
         if c2 = 125 then Inr (PDict (AList.update k u acc), r3)
         else if c2 = 44 then parse_pairs m (AList.update k u acc) (skip_ws r3)
         else Inl JSONDecodeError)"
proof -
  have t: "pair_text f (k, v) @ r = 34 # tl (string_text k) @ 58 # 32 # f v @ r"
    by (simp add: pair_text_def string_text_def lit_def)
  have "skip_ws (32 # f v @ r) = f v @ r"
    using assms(2) starts_skip [of "f v" r] by (simp add: skip_ws_def is_ws_def)
  then show ?thesis
    unfolding t using parse_string_text [OF assms(1), of "58 # 32 # f v @ r"] assms(3)
    by (simp add: parse_pairs.simps skip_ws_stop is_ws_def)
qed

lemma update_new: "k \<notin> fst ` set acc \<Longrightarrow> AList.update k v acc = acc @ [(k, v)]"
  by (induction acc) auto

lemma parse_pairs_texts:
  assumes "d \<noteq> []" "distinct (map fst acc @ map fst d)"
    and "\<forall>(k, v) \<in> set d. str_ok k \<and> starts (f v) \<and>
      (\<forall>n r. number_end r \<longrightarrow> length (f v) < n \<longrightarrow> parse_value n (f v @ r) = Inr (g v, r))"
    and "length (join_texts (separator ly) (map (pair_text f) d)) < n"
  shows "parse_pairs n acc (join_texts (separator ly) (map (pair_text f) d) @ newline ly' @ 125 # r) =
    Inr (PDict (acc @ map (\<lambda>(k, v). (k, g v)) d), r)"
  using assms
proof (induction d arbitrary: n acc)
  case (Cons kv d)
  obtain k v where kv: "kv = (k, v)" by (cases kv)
  obtain m where n: "n = Suc m" using Cons.prems(4) by (cases n) auto
  have ok: "str_ok k" "starts (f v)"
    and pv: "\<And>n r. number_end r \<Longrightarrow> length (f v) < n \<Longrightarrow> parse_value n (f v @ r) = Inr (g v, r)"
    using Cons.prems(3) kv by auto
  have upd: "AList.update k (g v) acc = acc @ [(k, g v)]"
    using Cons.prems(2) kv by (intro update_new) auto
  have len: "length (f v) < length (pair_text f kv)" by (simp add: kv pair_text_def)
  show ?case
  proof (cases d)
    case Nil
    have "parse_value m (f v @ newline ly' @ 125 # r) = Inr (g v, newline ly' @ 125 # r)"
      using Cons.prems(4) Nil n len by (intro pv) auto
    from parse_pair_text [where f = f, OF ok this] show ?thesis
      using Nil n kv upd by (simp add: skip_ws_append skip_ws_stop is_ws_def)
  next
    case (Cons kv' d')
    let ?rest = "join_texts (separator ly) (map (pair_text f) d) @ newline ly' @ 125 # r"
    obtain sp where sp: "separator ly = 44 # sp" "list_all is_ws sp" using separator_ws by blast
    have len': "length (f v) < m" "length (join_texts (separator ly) (map (pair_text f) d)) < m"
      using Cons.prems(4) n Cons sp(1) len by auto
    have "parse_value m (f v @ separator ly @ ?rest) = Inr (g v, separator ly @ ?rest)"
      using len'(1) by (intro pv) simp_all
    note step = parse_pair_text [where f = f, OF ok this]
    have "starts (join_texts (separator ly) (map (pair_text f) d))"
      using Cons by (cases d') (auto intro: starts_append)
    then have "skip_ws (sp @ ?rest) = ?rest" using sp(2) by (simp add: skip_ws_append starts_skip)
    moreover have "parse_pairs m (acc @ [(k, g v)]) ?rest =
        Inr (PDict ((acc @ [(k, g v)]) @ map (\<lambda>(k, v). (k, g v)) d), r)"
      by (rule Cons.IH) (use Cons.prems len' Cons kv in auto)
    moreover have "join_texts (separator ly) (map (pair_text f) (kv # d)) @ newline ly' @ 125 # r =
        pair_text f (k, v) @ separator ly @ ?rest"
      using Cons kv by simp
    ultimately show ?thesis
      using step n sp(1) kv upd by (simp add: skip_ws_stop is_ws_def)
  qed
qed simp

lemma dump_dict: "dump ly (PDict d) = bracketed ly 123 125 (map (pair_text (dump (inside ly))) d)"
  by (simp add: pair_text_def [abs_def] case_prod_unfold)

lemma bracketed_parts:
  assumes "xs \<noteq> []" "starts (join_texts (separator ly) xs)"
  shows "bracketed ly a b xs @ r = a # newline (inside ly) @ join_texts (separator ly) xs @ newline ly @ b # r"
    and "skip_ws (newline (inside ly) @ join_texts (separator ly) xs @ newline ly @ b # r) =
      join_texts (separator ly) xs @ newline ly @ b # r"
    and "length (join_texts (separator ly) xs) + 2 \<le> length (bracketed ly a b xs)"
  using assms by (simp_all add: bracketed_def skip_ws_append starts_skip)

lemma starts_join: "xs \<noteq> [] \<Longrightarrow> starts (hd xs) \<Longrightarrow> starts (join_texts sep xs)"
  by (cases xs; cases "tl xs") (auto intro: starts_append)

lemma parse_list_dump:
  assumes "\<forall>v \<in> set vs. starts (f v) \<and>
      (\<forall>n r. number_end r \<longrightarrow> length (f v) < n \<longrightarrow> parse_value n (f v @ r) = Inr (detuple v, r))"
    and "length (bracketed ly 91 93 (map f vs)) < n"
  shows "parse_value n (bracketed ly 91 93 (map f vs) @ r) = Inr (PList (map detuple vs), r)"
proof -
  obtain m where n: "n = Suc m" using assms(2) by (cases n) auto
  show ?thesis
  proof (cases "vs = []")
    case True
    then show ?thesis by (simp add: n parse_value.simps bracketed_def skip_ws_stop is_ws_def)
  next
    case False
    have "starts (join_texts (separator ly) (map f vs))"
      using False assms(1) by (intro starts_join) (auto simp: hd_map)
    note b = bracketed_parts(1) [OF _ this, of 91 93] bracketed_parts(2) [OF _ this, of 93]
      bracketed_parts(3) [OF _ this, of 91 93]
    have "parse_items m [] (join_texts (separator ly) (map f vs) @ newline ly @ 93 # r) =
        Inr (PList ([] @ map detuple vs), r)"
      using assms b(3) n False by (intro parse_items_texts) auto
    moreover obtain c t where ct: "join_texts (separator ly) (map f vs) = c # t" "c \<noteq> 93"
      using \<open>starts (join_texts (separator ly) (map f vs))\<close>
      by (auto simp: starts_def split: list.splits)
    ultimately show ?thesis
      using b(1) [of r] b(2) [of r] n False by (simp add: parse_value.simps)
  qed
qed

lemma parse_dict_dump:
  assumes "\<forall>(k, v) \<in> set d. str_ok k \<and> starts (f v) \<and>
      (\<forall>n r. number_end r \<longrightarrow> length (f v) < n \<longrightarrow> parse_value n (f v @ r) = Inr (detuple v, r))"
    and "length (bracketed ly 123 125 (map (pair_text f) d)) < n" "dict_ok d"
  shows "parse_value n (bracketed ly 123 125 (map (pair_text f) d) @ r) =
    Inr (PDict (map (\<lambda>(k, v). (k, detuple v)) d), r)"
proof -
  obtain m where n: "n = Suc m" using assms(2) by (cases n) auto
  show ?thesis
  proof (cases "d = []")
    case True
    then show ?thesis by (simp add: n parse_value.simps bracketed_def skip_ws_stop is_ws_def)
  next
    case False
    have "starts (join_texts (separator ly) (map (pair_text f) d))"
      using False by (intro starts_join) (auto simp: hd_map)
    note b = bracketed_parts(1) [OF _ this, of 123 125] bracketed_parts(2) [OF _ this, of 125]
      bracketed_parts(3) [OF _ this, of 123 125]
    have "parse_pairs m [] (join_texts (separator ly) (map (pair_text f) d) @ newline ly @ 125 # r) =
        Inr (PDict ([] @ map (\<lambda>(k, v). (k, detuple v)) d), r)"
      using assms b(3) n False by (intro parse_pairs_texts) (auto simp: dict_ok_def)
    moreover obtain c t where ct: "join_texts (separator ly) (map (pair_text f) d) = c # t" "c \<noteq> 125"
      using \<open>starts (join_texts (separator ly) (map (pair_text f) d))\<close>
      by (auto simp: starts_def split: list.splits)
    ultimately show ?thesis
      using b(1) [of r] b(2) [of r] n False by (simp add: parse_value.simps)
  qed
qed

theorem parse_value_dump:
  "json_ok v \<Longrightarrow> number_end r \<Longrightarrow> length (dump ly v) < n \<Longrightarrow>
   parse_value n (dump ly v @ r) = Inr (detuple v, r)"
proof (induction ly v arbitrary: n r rule: dump.induct)
  case (1 ly)
  then show ?case by (cases n) (simp_all add: parse_value_scalar lit_def scalars_def literal_def)
next
  case (2 ly b)
  then show ?case by (cases n) (simp_all add: parse_value_scalar lit_def scalars_def literal_def)
next
  case (3 ly i)
  then show ?case using parse_int_text [of i] by (cases n) (simp_all add: parse_value_number)
next
  case (4 ly f)
  obtain m where n: "n = Suc m" using 4 by (cases n) auto
  show ?case
  proof (cases f)
    case FNan
    then show ?thesis by (simp add: n parse_value_scalar lit_def scalars_def literal_def)
  next
    case (FInf neg)
    then show ?thesis by (simp add: n parse_value_scalar lit_def scalars_def literal_def)
  next
    case FNegZero
    then show ?thesis using parse_value_number [OF parse_negative_zero 4(2)] n by simp
  next
    case (FFin a e)
    then show ?thesis using 4(1,2) parse_value_number n by (simp del: float_repr.simps)
  qed
next
  case (5 ly s)
  obtain m where n: "n = Suc m" using 5 by (cases n) auto
  have t: "string_text s @ r = 34 # tl (string_text s) @ r" by (simp add: string_text_def)
  show ?case using parse_string_text [of s r] 5(1) n by (simp add: t parse_value.simps)
next
  case (6 ly vs)
  then show ?case by (auto simp: list_all_iff starts_dump intro!: parse_list_dump)
next
  case (7 ly vs)
  then show ?case by (auto simp: list_all_iff starts_dump intro!: parse_list_dump)
next
  case (8 ly d)
  show ?case unfolding dump_dict detuple.simps
  proof (rule parse_dict_dump)
    show "\<forall>(k, v) \<in> set d. str_ok k \<and> starts (dump (inside ly) v) \<and>
      (\<forall>n r. number_end r \<longrightarrow> length (dump (inside ly) v) < n \<longrightarrow>
        parse_value n (dump (inside ly) v @ r) = Inr (detuple v, r))"
      using 8(1,2) starts_dump by (auto simp: list_all_iff)
  qed (use 8(2,4) in \<open>simp_all only: dump_dict json_ok.simps\<close>)
qed


section \<open>The bound on nested calls\<close>

lemma length_skip_ws: "length (skip_ws s) \<le> length s"
  by (simp add: skip_ws_def length_dropWhile_le)

lemma scan_units_shrinks: "scan_units s = Some (us, r) \<Longrightarrow> length r < length s"
proof (induction s arbitrary: us rule: measure_induct_rule [where f = length])
  case (less s)
  have step: "length r < length s" if "scan_units t = Some (vs, r)" "length t < length s" for t vs
    using less.IH [OF that(2,1)] that(2) by simp
  have cons: "\<exists>vs. m = Some (vs, r)" if "unit_cons u m = Some (us, r)" for u m
    using that by (auto simp: unit_cons_def)
  obtain c t where s: "s = c # t" using less.prems by (cases s) auto
  show ?case
  proof (cases "c = 92")
    case False
    then consider "r = t" | "\<exists>vs. scan_units t = Some (vs, r)"
      using less.prems s cons by (fastforce split: if_splits)
    then show ?thesis using s step [of t] by cases auto
  next
    case True
    then obtain e t' where t: "t = e # t'" using less.prems s by (cases t) auto
    show ?thesis
    proof (cases "e = 117")
      case False
      then have "\<exists>vs. scan_units t' = Some (vs, r)"
        using less.prems s t True cons by (auto split: option.splits)
      then show ?thesis using s t step [of t'] by auto
    next
      case e: True
      then obtain w x y z t'' where t': "t' = w # x # y # z # t''"
        using less.prems s t True by (auto split: list.splits)
      then have "\<exists>vs. scan_units t'' = Some (vs, r)"
        using less.prems s t True e cons by (auto split: option.splits)
      then show ?thesis using s t t' step [of t''] by auto
    qed
  qed
qed

lemma parse_string_shrinks: "parse_string s = Inr (t, r) \<Longrightarrow> length r < length s"
  by (auto simp: parse_string_def dest: scan_units_shrinks split: option.splits)

lemma parse_number_shrinks: "parse_number s = Inr (v, r) \<Longrightarrow> length r < length s"
proof -
  assume a: "parse_number s = Inr (v, r)"
  obtain neg s1 where s1: "scan_sign s = (neg, s1)" by force
  obtain ip s2 where s2: "scan_int s1 = Some (ip, s2)"
    using a s1 by (auto simp: parse_number_def split: option.splits)
  obtain fp s3 where s3: "scan_frac s2 = (fp, s3)" by force
  obtain ex s4 where s4: "scan_exp s3 = (ex, s4)" by force
  have "length r = length s4" using a s1 s2 s3 s4 by (auto simp: parse_number_def split: if_splits)
  moreover have "length s1 \<le> length s" using s1 by (auto simp: scan_sign_def split: list.splits if_splits)
  moreover have "length s2 < length s1"
  proof (cases s1)
    case (Cons c t)
    have "length (dropWhile is_digit t) \<le> length t" by (rule length_dropWhile_le)
    then show ?thesis using s2 Cons by (auto simp: scan_int_def split: if_splits)
  qed (use s2 in \<open>simp add: scan_int_def\<close>)
  moreover have "length s3 \<le> length s2"
    using s3 length_dropWhile_le [of is_digit "tl s2"]
    by (auto simp: scan_frac_def split: list.splits if_splits)
  moreover have "length s4 \<le> length s3"
  proof (cases s3)
    case (Cons c t)
    obtain sg u where sg: "scan_exp_sign t = (sg, u)" by force
    then have "length u \<le> length t" by (auto simp: scan_exp_sign_def split: list.splits if_splits)
    then show ?thesis using s4 Cons sg length_dropWhile_le [of is_digit u]
      by (auto simp: scan_exp_def Let_def split: if_splits)
  qed (use s4 in \<open>simp add: scan_exp_def\<close>)
  ultimately show ?thesis by linarith
qed

lemma parse_scalar_shrinks:
  "parse_scalar ps s = Inr (v, r) \<Longrightarrow> \<forall>(p, w) \<in> set ps. p \<noteq> [] \<Longrightarrow> length r < length s"
proof (induction ps s rule: parse_scalar.induct)
  case (2 p w ps s)
  show ?case
  proof (cases "take (length p) s = p")
    case True
    then have "length p \<le> length s" by (metis length_take min.cobounded1)
    then show ?thesis using True 2(2,3) by (cases p) (auto simp: literal_def)
  qed (use 2 in \<open>auto simp: literal_def\<close>)
qed (simp add: parse_number_shrinks)

lemma scalars_nonempty: "\<forall>(p, w) \<in> set scalars. p \<noteq> []"
  by (simp add: scalars_def lit_def)

lemma parse_shrinks:
  "parse_value n s = Inr (v, r) \<Longrightarrow> length r < length s"
  "parse_items n acc s = Inr (v, r) \<Longrightarrow> length r < length s"
  "parse_pairs n acc' s = Inr (v, r) \<Longrightarrow> length r < length s"
proof (induction n s and n acc s and n acc' s arbitrary: v r and v r and v r
    rule: parse_value_parse_items_parse_pairs.induct)
  case (2 n s)
  show ?case
  proof (cases s)
    case (Cons c t)
    have ws: "length (skip_ws t) \<le> length t" by (rule length_skip_ws)
    consider "c = 34" | "c = 91" | "c = 123" | "c \<notin> {34, 91, 123}" by blast
    then show ?thesis
    proof cases
      case 1
      then show ?thesis using 2(3) Cons
        by (auto simp: parse_value.simps bindE_Inr_iff dest!: parse_string_shrinks)
    next
      case 2
      then show ?thesis using "2.prems" "2.IH"(1) [OF Cons _ 2] Cons ws
        by (cases "skip_ws t") (fastforce simp: parse_value.simps split: if_splits)+
    next
      case 3
      then show ?thesis using "2.prems" "2.IH"(2) [OF Cons _ _ 3] Cons ws
        by (cases "skip_ws t") (fastforce simp: parse_value.simps split: if_splits)+
    next
      case 4
      then have "parse_scalar scalars s = Inr (v, r)" using "2.prems" Cons by (simp add: parse_value.simps)
      then show ?thesis using parse_scalar_shrinks scalars_nonempty by blast
    qed
  qed (use "2.prems" in \<open>simp add: parse_value.simps\<close>)
next
  case (4 n acc s)
  obtain w r1 where v: "parse_value n s = Inr (w, r1)"
    using "4.prems" by (auto simp: parse_items.simps bindE_Inr_iff)
  have l1: "length r1 < length s" by (rule "4.IH"(1) [OF v])
  obtain c r2 where c: "skip_ws r1 = c # r2"
    using "4.prems" v by (auto simp: parse_items.simps split: list.splits)
  then have l2: "length (skip_ws r2) < length s"
    using l1 length_skip_ws [of r1] length_skip_ws [of r2] by simp
  show ?case
  proof (cases "c = 93")
    case True
    then show ?thesis using "4.prems" v c l1 length_skip_ws [of r1] by (simp add: parse_items.simps)
  next
    case False
    then have c2: "c = 44" and "parse_items n (acc @ [w]) (skip_ws r2) = Inr (v, r)"
      using "4.prems" v c by (auto simp: parse_items.simps split: if_splits)
    then have "length r < length (skip_ws r2)"
      using "4.IH"(2) [OF v refl c False c2] by simp
    then show ?thesis using l2 by simp
  qed
next
  case (6 n acc s)
  obtain s' where s: "s = 34 # s'"
    using "6.prems" by (auto simp: parse_pairs.simps split: list.splits if_splits)
  obtain k r0 where k: "parse_string s' = Inr (k, r0)"
    using "6.prems" s by (auto simp: parse_pairs.simps bindE_Inr_iff)
  obtain r1 where r1: "skip_ws r0 = 58 # r1"
    using "6.prems" s k by (auto simp: parse_pairs.simps split: list.splits if_splits)
  obtain w r2 where v: "parse_value n (skip_ws r1) = Inr (w, r2)"
    using "6.prems" s k r1 by (auto simp: parse_pairs.simps bindE_Inr_iff)
  obtain c r3 where c: "skip_ws r2 = c # r3"
    using "6.prems" s k r1 v by (auto simp: parse_pairs.simps split: list.splits)
  have l1: "length r2 < length (skip_ws r1)"
    by (rule "6.IH"(1) [OF s _ k refl r1 _ v]) simp_all
  have l2: "Suc (length r3) \<le> length r2" using length_skip_ws [of r2] c by simp
  have l3: "length (skip_ws r1) < length s"
    using parse_string_shrinks [OF k] length_skip_ws [of r0] length_skip_ws [of r1] r1 s by simp
  show ?case
  proof (cases "c = 125")
    case True
    then have "r = r3" using "6.prems" s k r1 v c by (simp add: parse_pairs.simps)
    then show ?thesis using l1 l2 l3 by simp
  next
    case False
    then have c2: "c = 44" and "parse_pairs n (AList.update k w acc) (skip_ws r3) = Inr (v, r)"
      using "6.prems" s k r1 v c by (auto simp: parse_pairs.simps split: if_splits)
    then have "length r < length (skip_ws r3)"
      using "6.IH"(2) [OF s _ k refl r1 _ v refl c False c2] by simp
    then show ?thesis using l1 l2 l3 length_skip_ws [of r3] by simp
  qed
qed (simp_all add: parse_value.simps parse_items.simps parse_pairs.simps)


lemma parse_fuel:
  "2 * length s < n \<Longrightarrow> 2 * length s < m \<Longrightarrow> parse_value n s = parse_value m s"
  "2 * length s + 1 < n \<Longrightarrow> 2 * length s + 1 < m \<Longrightarrow> parse_items n acc s = parse_items m acc s"
  "2 * length s + 1 < n \<Longrightarrow> 2 * length s + 1 < m \<Longrightarrow> parse_pairs n acc' s = parse_pairs m acc' s"
proof (induction n s and n acc s and n acc' s arbitrary: m and m and m
    rule: parse_value_parse_items_parse_pairs.induct)
  case (2 n s)
  obtain m' where m: "m = Suc m'" using 2(4) by (cases m) auto
  show ?case
  proof (cases s)
    case (Cons c t)
    have ws: "length (skip_ws t) \<le> length t" by (rule length_skip_ws)
    have i: "parse_items n [] (e # r') = parse_items m' [] (e # r')"
      if "c = 91" "skip_ws t = e # r'" "e \<noteq> 93" for e r'
      using that Cons "2.prems" ws m by (intro "2.IH"(1) [OF Cons]) auto
    have p: "parse_pairs n [] (e # r') = parse_pairs m' [] (e # r')"
      if "c = 123" "skip_ws t = e # r'" "e \<noteq> 125" for e r'
      using that Cons "2.prems" ws m by (intro "2.IH"(2) [OF Cons]) auto
    show ?thesis
      using i p by (simp add: m Cons parse_value.simps split: list.split)
  qed (simp add: m parse_value.simps)
next
  case (4 n acc s)
  obtain m' where m: "m = Suc m'" using 4(4) by (cases m) auto
  have v: "parse_value n s = parse_value m' s" using "4.prems" m by (intro "4.IH"(1)) auto
  have i: "parse_items n (acc @ [w]) (skip_ws r') = parse_items m' (acc @ [w]) (skip_ws r')"
    if "parse_value n s = Inr (w, r)" "skip_ws r = c # r'" "c \<noteq> 93" "c = 44" for w r c r'
  proof -
    have "length r < length s" by (rule parse_shrinks(1) [OF that(1)])
    then have "length (skip_ws r') + 2 \<le> length s"
      using length_skip_ws [of r] length_skip_ws [of r'] that(2) by simp
    then show ?thesis using "4.prems" m by (intro "4.IH"(2) [OF that(1) refl that(2-4)]) auto
  qed
  show ?case unfolding m parse_items.simps
    using v i by (intro bindE_cong) (auto split: list.split)
next
  case (6 n acc s)
  obtain m' where m: "m = Suc m'" using 6(4) by (cases m) auto
  show ?case
  proof (cases "\<exists>s' k r0 r1. s = 34 # s' \<and> parse_string s' = Inr (k, r0) \<and> skip_ws r0 = 58 # r1")
    case False
    then show ?thesis by (auto simp: m parse_pairs.simps split: list.split intro!: bindE_cong)
  next
    case True
    then obtain s' k r0 r1 where s: "s = 34 # s'" and k: "parse_string s' = Inr (k, r0)"
      and r1: "skip_ws r0 = 58 # r1" by blast
    have l1: "length (skip_ws r1) + 2 \<le> length s"
      using parse_string_shrinks [OF k] length_skip_ws [of r0] length_skip_ws [of r1] r1 s by simp
    have v: "parse_value n (skip_ws r1) = parse_value m' (skip_ws r1)"
      using "6.prems" l1 m by (intro "6.IH"(1) [OF s _ k refl r1]) auto
    have i: "parse_pairs n (AList.update k w acc) (skip_ws r3) = parse_pairs m' (AList.update k w acc) (skip_ws r3)"
      if "parse_value n (skip_ws r1) = Inr (w, r2)" "skip_ws r2 = c # r3" "c \<noteq> 125" "c = 44" for w r2 c r3
    proof -
      have "length r2 < length (skip_ws r1)" by (rule parse_shrinks(1) [OF that(1)])
      then have "length (skip_ws r3) + 2 \<le> length s"
        using l1 length_skip_ws [of r2] length_skip_ws [of r3] that(2) by simp
      then show ?thesis using "6.prems" m
        by (intro "6.IH"(2) [OF s _ k refl r1 _ that(1) refl that(2-4)]) auto
    qed
    show ?thesis using v i by (auto simp: m parse_pairs.simps s k r1 intro!: bindE_cong split: list.split)
  qed
qed simp_all

theorem parse_value_fuel:
  "2 * length s < n \<Longrightarrow> parse_value n s = parse_value (Suc (2 * length s)) s"
  by (rule parse_fuel(1)) simp_all

section \<open>Round trips\<close>

theorem json_loads_dumps:
  assumes "json_ok v"
  shows "json_loads (dump ly v) = Inr (detuple v)"
proof -
  have st: "starts (dump ly v)" by (rule starts_dump [OF assms])
  then have "skip_ws (dump ly v) = dump ly v" using starts_skip [of "dump ly v" "[]"] by simp
  moreover have "parse_value (Suc (2 * length (dump ly v))) (dump ly v) = Inr (detuple v, [])"
    using parse_value_dump [OF assms, of "[]" ly "Suc (2 * length (dump ly v))"] by (simp add: number_end_def)
  moreover have "take 1 (dump ly v) \<noteq> [0xFEFF]"
  proof
    assume "take 1 (dump ly v) = [0xFEFF]"
    then obtain r where r: "dump ly v = 0xFEFF # r" by (cases "dump ly v") auto
    have "parse_value (Suc (2 * length (dump ly v))) (dump ly v) = Inl JSONDecodeError"
      by (simp add: r parse_value_scalar scalars_def literal_def lit_def parse_number_def scan_sign_def
          scan_int_def is_digit_def)
    with calculation show False by simp
  qed
  ultimately show ?thesis by (simp add: json_loads_def skip_ws_def)
qed


text \<open>Everything is written in ASCII, without the null character.\<close>

definition ascii :: "pystr \<Rightarrow> bool" where
  "ascii s \<longleftrightarrow> list_all (\<lambda>c. 0 < c \<and> c < 128) s"

lemma ascii_simps [simp]:
  "ascii []" "ascii (c # s) \<longleftrightarrow> 0 < c \<and> c < 128 \<and> ascii s" "ascii (s @ t) \<longleftrightarrow> ascii s \<and> ascii t"
  by (auto simp: ascii_def)

lemma ascii_replicate [simp]: "0 < c \<Longrightarrow> c < 128 \<Longrightarrow> ascii (replicate n c)"
  by (auto simp: ascii_def list_all_iff)

lemma ascii_concat: "\<forall>t \<in> set ts. ascii t \<Longrightarrow> ascii (concat ts)"
  by (induction ts) auto

lemma ascii_dec_digits [simp]: "ascii (dec_digits n)"
  using dec_digits_digits [of n] by (auto simp: ascii_def list_all_iff is_digit_def)

lemma ascii_take [simp]: "ascii s \<Longrightarrow> ascii (take n s)"
  by (auto simp: ascii_def list_all_iff dest: in_set_takeD)

lemma ascii_drop [simp]: "ascii s \<Longrightarrow> ascii (drop n s)"
  by (auto simp: ascii_def list_all_iff dest: in_set_dropD)

lemma ascii_strip [simp]: "ascii s \<Longrightarrow> ascii (strip_zeros s)"
  by (auto simp: ascii_def strip_zeros_def list_all_iff dest: set_dropWhileD)

lemma ascii_float_text: "ascii ds \<Longrightarrow> ascii (float_text ds p)"
  by (simp add: float_text_def lit_def Let_def)

lemma ascii_float_repr [simp]: "ascii (float_repr f)"
  by (cases f) (auto simp: lit_def positive_repr_def ascii_float_text split: option.splits)

lemma ascii_string_text [simp]: "ascii (string_text s)"
proof -
  have "ascii (unit_text u)" if "u \<in> set (char_units c)" for u c
  proof -
    have hex: "0 < hex_char (n mod 16) \<and> hex_char (n mod 16) < 128" for n
      using mod_less_divisor [of 16 n] by (simp add: hex_char_def del: mod_less_divisor)
    obtain e n where u: "u = (e, n)" by (cases u)
    have "ascii (hex4 n)" by (simp add: hex4_def hex)
    moreover have "\<not> e \<Longrightarrow> 0 < n \<and> n < 128"
      using that u by (auto simp: char_units_def split: if_splits)
    ultimately show ?thesis by (simp add: u unit_text_def)
  qed
  then show ?thesis by (auto simp: string_text_def intro!: ascii_concat)
qed

lemma ascii_newline [simp]: "ascii (newline ly)"
  by (auto simp: newline_def split: option.splits)

lemma ascii_separator [simp]: "ascii (separator ly)"
  by (auto simp: separator_def lit_def newline_def split: option.splits)

lemma ascii_join: "\<forall>t \<in> set ts. ascii t \<Longrightarrow> ascii sep \<Longrightarrow> ascii (join_texts sep ts)"
  by (induction sep ts rule: join_texts.induct) auto

lemma ascii_bracketed: "\<forall>t \<in> set ts. ascii t \<Longrightarrow> 0 < a \<Longrightarrow> a < 128 \<Longrightarrow> 0 < b \<Longrightarrow> b < 128 \<Longrightarrow> ascii (bracketed ly a b ts)"
  by (auto simp: bracketed_def intro!: ascii_join)

lemma ascii_dump: "ascii (dump ly v)"
proof (induction ly v rule: dump.induct)
  case (8 ly d)
  have "ascii (dump (inside ly) v)" if "(k, v) \<in> set d" for k v
    using 8 [OF that refl] .
  then show ?case unfolding dump_dict
    by (intro ascii_bracketed) (auto simp: pair_text_def lit_def)
qed (auto simp: lit_def int_text_def intro!: ascii_bracketed)

text \<open>ASCII text without null characters is taken for UTF-8 and decodes to itself.\<close>

lemma ascii_scalar: "ascii s \<Longrightarrow> list_all is_scalar s"
  by (auto simp: ascii_def list_all_iff is_scalar_def)

lemma json_text_ascii:
  assumes "ascii s" "utf8_encode s = Inr bs"
  shows "json_text (map unat bs) = Some s"
proof -
  have "utf8_char c = [byte_of c]" if "c \<in> set s" for c
    using that assms(1) by (auto simp: ascii_def list_all_iff utf8_char_def)
  then have bs: "bs = map byte_of s"
    using assms ascii_scalar by (auto simp: utf8_encode_def concat_map_singleton cong: map_cong)
  then have nums: "map unat bs = s" using assms(1) by (auto simp: ascii_def list_all_iff intro!: map_idI)
  have scan: "utf8_scan True s = Some s"
    using assms(1) by (induction s) (simp_all add: utf8_cons_def)
  have nth: "0 < s ! i \<and> s ! i < 128" if "i < length s" for i
    using assms(1) that by (auto simp: ascii_def list_all_length)
  have "s \<noteq> [] \<Longrightarrow> hd s < 128 \<and> 0 < hd s" using assms(1) by (cases s) auto
  then have "take 4 s \<noteq> [0, 0, 0xFE, 0xFF]" "take 4 s \<noteq> [0xFF, 0xFE, 0, 0]" "take 2 s \<noteq> [0xFE, 0xFF]"
    "take 2 s \<noteq> [0xFF, 0xFE]" "take 3 s \<noteq> [0xEF, 0xBB, 0xBF]"
    by (cases s; auto)+
  moreover have "2 \<le> length s \<Longrightarrow> s ! 0 \<noteq> 0 \<and> s ! 1 \<noteq> 0"
    using nth [of 0] nth [of 1] by (cases s; cases "tl s") auto
  ultimately show ?thesis unfolding json_text_def nums using scan
    by (cases "2 \<le> length s") (simp_all add: Let_def)
qed

definition plain_json :: "pyval \<Rightarrow> bool" where
  "plain_json v \<longleftrightarrow> json_ok v \<and> detuple v = v"

text \<open>The compact writer and the reader of bytes, as two codecs in sequence.\<close>

interpretation json_codec: codec_pair json_dumps json_loads plain_json
  utf8_encode "\<lambda>bs. of_opt UnicodeDecodeError (json_text (map unat bs))" ascii
proof
  fix v b assume v: "plain_json v" and "json_dumps v = Inr b"
  then have b: "b = dump None v" by (auto simp: json_dumps_def split: if_splits)
  show "json_loads b = Inr v" using json_loads_dumps [of v None] v b by (simp add: plain_json_def)
  show "ascii b" by (simp add: b ascii_dump)
qed (use json_ok_ints ascii_scalar json_text_ascii in \<open>auto simp: json_dumps_def plain_json_def utf8_encode_def\<close>)

interpretation json_indent_codec: codec_pair json_dumps_indent json_loads plain_json
  utf8_encode "\<lambda>bs. of_opt UnicodeDecodeError (json_text (map unat bs))" ascii
proof
  fix v b assume v: "plain_json v" and "json_dumps_indent v = Inr b"
  then have b: "b = dump (Some 0) v" by (auto simp: json_dumps_indent_def split: if_splits)
  show "json_loads b = Inr v" using json_loads_dumps [of v "Some 0"] v b by (simp add: plain_json_def)
  show "ascii b" by (simp add: b ascii_dump)
qed (use json_ok_ints ascii_scalar json_text_ascii in \<open>auto simp: json_dumps_indent_def plain_json_def utf8_encode_def\<close>)

lemma json_bytes_total: "json_ok v \<Longrightarrow> \<exists>bs. json_bytes v = Inr bs"
  using ascii_scalar [OF ascii_dump] json_ok_ints
  by (simp add: json_bytes_def json_dumps_def utf8_encode_def)

lemma json_loads_bytes_dump:
  assumes "json_ok v" "utf8_encode (dump ly v) = Inr bs"
  shows "json_loads_bytes bs = Inr (detuple v)"
  using json_text_ascii [OF ascii_dump assms(2)] json_loads_dumps [OF assms(1)]
  by (simp add: json_loads_bytes_def)

lemma json_bytes_roundtrip: "json_ok v \<Longrightarrow> json_bytes v = Inr bs \<Longrightarrow> json_loads_bytes bs = Inr (detuple v)"
  by (auto simp: json_bytes_def json_dumps_def bindE_Inr_iff split: if_splits intro: json_loads_bytes_dump)

lemma json_bytes_indent_roundtrip:
  "json_ok v \<Longrightarrow> json_bytes_indent v = Inr bs \<Longrightarrow> json_loads_bytes bs = Inr (detuple v)"
  by (auto simp: json_bytes_indent_def json_dumps_indent_def bindE_Inr_iff split: if_splits
      intro: json_loads_bytes_dump)

end
