(* ===== verification/CryptoFile.thy ===== *)
theory CryptoFile
  imports Files JsonRoundtrip
begin

text \<open>
  The model of \<open>src/cryptofile.py\<close>: the envelope of an encrypted file and the document store on
  top of it. HKDF and AES-GCM come from the package \<open>cryptography\<close>; they are the fields of a record
  that the definitions take. \<open>aead_correct\<close> and \<open>aead_authentic\<close> state the documented behaviour of
  AES-GCM that theorems rely on: what was encrypted decrypts under the same key, nonce and
  associated data, and decryption succeeds on nothing else.
\<close>

section \<open>The primitives\<close>

record crypto =
  hkdf :: "byte list \<Rightarrow> byte list \<Rightarrow> byte list"
  aead_enc :: "byte list \<Rightarrow> byte list \<Rightarrow> byte list \<Rightarrow> byte list \<Rightarrow> byte list"
  aead_dec :: "byte list \<Rightarrow> byte list \<Rightarrow> byte list \<Rightarrow> byte list \<Rightarrow> byte list option"

definition aead_correct :: "crypto \<Rightarrow> bool" where
  "aead_correct cr \<longleftrightarrow>
     (\<forall>key nonce data aad. aead_dec cr key nonce (aead_enc cr key nonce data aad) aad = Some data)"

text \<open>
  The idealised authenticity: a ciphertext opens only under the key and the associated data it was
  made with.
\<close>

definition aead_authentic :: "crypto \<Rightarrow> bool" where
  "aead_authentic cr \<longleftrightarrow>
     (\<forall>key nonce ct aad data key' data' aad'.
        aead_dec cr key nonce ct aad = Some data \<longrightarrow> ct = aead_enc cr key' nonce data' aad' \<longrightarrow>
        key = key' \<and> aad = aad' \<and> data = data') \<and>
     (\<forall>key nonce ct aad data.
        aead_dec cr key nonce ct aad = Some data \<longrightarrow> ct = aead_enc cr key nonce data aad)"

section \<open>The envelope\<close>

definition MAGIC :: "byte list" where
  "MAGIC = [0x53, 0x57, 0x43, 0x46]"

definition VERSION :: "byte" where
  "VERSION = 1"

definition NONCE_SIZE :: nat where
  "NONCE_SIZE = 12"

definition HEADER_SIZE :: nat where
  "HEADER_SIZE = 5"

definition derive_key :: "crypto \<Rightarrow> pystr \<Rightarrow> pystr \<Rightarrow> byte list py" where
  "derive_key cr key1 purpose =
     bindE (utf8_encode purpose) (\<lambda>info. bindE (utf8_encode key1) (\<lambda>secret. Inr (hkdf cr secret info)))"

definition aad_of :: "pystr \<Rightarrow> byte list py" where
  "aad_of purpose = bindE (utf8_encode purpose) (\<lambda>p. Inr (MAGIC @ [VERSION] @ p))"

text \<open>\<open>encrypt\<close>, with the random nonce as an argument.\<close>

definition encrypt :: "crypto \<Rightarrow> pystr \<Rightarrow> pystr \<Rightarrow> byte list \<Rightarrow> byte list \<Rightarrow> byte list py" where
  "encrypt cr key1 purpose nonce plaintext =
     bindE (derive_key cr key1 purpose) (\<lambda>key.
       bindE (aad_of purpose) (\<lambda>aad.
         Inr ((MAGIC @ [VERSION]) @ nonce @ aead_enc cr key nonce plaintext aad)))"

definition decrypt :: "crypto \<Rightarrow> pystr \<Rightarrow> pystr \<Rightarrow> byte list \<Rightarrow> byte list py" where
  "decrypt cr key1 purpose blob =
     (if length blob < HEADER_SIZE + NONCE_SIZE then Inl InvalidCryptoFileError
      else
        let magic = take 4 blob; version = blob ! 4 in
        if magic \<noteq> MAGIC then Inl InvalidCryptoFileError
        else if version \<noteq> VERSION then Inl InvalidCryptoFileError
        else
          let nonce = take NONCE_SIZE (drop HEADER_SIZE blob);
              ciphertext = drop (HEADER_SIZE + NONCE_SIZE) blob in
          bindE (derive_key cr key1 purpose) (\<lambda>key.
            bindE (aad_of purpose) (\<lambda>aad.
              of_opt InvalidCryptoFileError (aead_dec cr key nonce ciphertext aad))))"

section \<open>Documents on disk\<close>

text \<open>The outside of one write: the random nonce, the name of the temporary file, the plan.\<close>

record io =
  io_nonce :: "byte list"
  io_tmp :: path
  io_plan :: plan

definition io_ok :: "io \<Rightarrow> path \<Rightarrow> files \<Rightarrow> bool" where
  "io_ok io path fs \<longleftrightarrow> length (io_nonce io) = NONCE_SIZE \<and> io_tmp io \<noteq> path \<and> fs (io_tmp io) = None"

definition save :: "crypto \<Rightarrow> io \<Rightarrow> path \<Rightarrow> pystr \<Rightarrow> pystr \<Rightarrow> pyval \<Rightarrow> files \<Rightarrow> files \<times> unit py" where
  "save cr io path key1 purpose data fs =
     (case bindE (json_bytes data) (encrypt cr key1 purpose (io_nonce io)) of
        Inl e \<Rightarrow> (fs, Inl e)
      | Inr blob \<Rightarrow> atomic_write_bytes (io_plan io) (io_tmp io) path blob fs)"

definition load :: "crypto \<Rightarrow> path \<Rightarrow> pystr \<Rightarrow> pystr \<Rightarrow> files \<Rightarrow> pyval py" where
  "load cr path key1 purpose fs =
     bindE (read_file fs path) (\<lambda>blob.
       bindE (decrypt cr key1 purpose blob) json_loads_bytes)"

definition ensure ::
  "crypto \<Rightarrow> io \<Rightarrow> path \<Rightarrow> pystr \<Rightarrow> pystr \<Rightarrow> pyval \<Rightarrow> files \<Rightarrow> files \<times> pyval py" where
  "ensure cr io path key1 purpose initial fs =
     (if \<not> path_exists fs path then
        (case save cr io path key1 purpose initial fs of
           (fs', Inl e) \<Rightarrow> (fs', Inl e)
         | (fs', Inr _) \<Rightarrow> (fs', Inr initial))
      else (fs, load cr path key1 purpose fs))"

text \<open>The mirrored variants write twice, so they take two outsides.\<close>

definition save_mirrored ::
  "crypto \<Rightarrow> io \<Rightarrow> io \<Rightarrow> pystr \<Rightarrow> pystr \<Rightarrow> pystr \<Rightarrow> pystr \<Rightarrow> pystr \<Rightarrow> pyval \<Rightarrow> files \<Rightarrow> files \<times> unit py" where
  "save_mirrored cr io1 io2 data_dir encrypted_filename plaintext_filename key1 purpose data fs =
     (case save cr io1 (path_join data_dir encrypted_filename) key1 purpose data fs of
        (fs', Inl e) \<Rightarrow> (fs', Inl e)
      | (fs', Inr _) \<Rightarrow>
          (case json_bytes_indent data of
             Inl e \<Rightarrow> (fs', Inl e)
           | Inr bs \<Rightarrow>
               atomic_write_bytes (io_plan io2) (io_tmp io2) (path_join data_dir plaintext_filename) bs fs'))"

definition ensure_mirrored ::
  "crypto \<Rightarrow> io \<Rightarrow> io \<Rightarrow> pystr \<Rightarrow> pystr \<Rightarrow> pystr \<Rightarrow> pystr \<Rightarrow> pystr \<Rightarrow> pyval \<Rightarrow> files \<Rightarrow> files \<times> pyval py" where
  "ensure_mirrored cr io1 io2 data_dir encrypted_filename plaintext_filename key1 purpose initial fs =
     (if \<not> path_exists fs (path_join data_dir encrypted_filename) then
        (case save_mirrored cr io1 io2 data_dir encrypted_filename plaintext_filename key1 purpose initial fs of
           (fs', Inl e) \<Rightarrow> (fs', Inl e)
         | (fs', Inr _) \<Rightarrow> (fs', Inr initial))
      else (fs, load cr (path_join data_dir encrypted_filename) key1 purpose fs))"

section \<open>The envelope is a codec\<close>

lemma utf8_encode_scalar: "utf8_encode s = Inr bs \<Longrightarrow> list_all is_scalar s"
  by (auto simp: utf8_encode_def split: if_splits)

lemma encrypt_Inr:
  "encrypt cr key1 purpose nonce plaintext = Inr blob \<longleftrightarrow>
     (\<exists>secret info. utf8_encode key1 = Inr secret \<and> utf8_encode purpose = Inr info \<and>
        blob = (MAGIC @ [VERSION]) @ nonce @
          aead_enc cr (hkdf cr secret info) nonce plaintext (MAGIC @ [VERSION] @ info))"
  by (auto simp: encrypt_def derive_key_def aad_of_def bindE_Inr_iff)

lemma decrypt_envelope:
  assumes "length nonce = NONCE_SIZE" "utf8_encode key1 = Inr secret" "utf8_encode purpose = Inr info"
  shows "decrypt cr key1 purpose ((MAGIC @ [VERSION]) @ nonce @ ct) =
    of_opt InvalidCryptoFileError (aead_dec cr (hkdf cr secret info) nonce ct (MAGIC @ [VERSION] @ info))"
  using assms by (simp add: decrypt_def MAGIC_def VERSION_def HEADER_SIZE_def NONCE_SIZE_def derive_key_def
      aad_of_def eval_nat_numeral)

text \<open>A blob that decrypts is exactly an envelope around what it decrypts to.\<close>

lemma decrypt_Inr:
  assumes "decrypt cr key1 purpose blob = Inr pt"
  obtains nonce ct secret info where "blob = (MAGIC @ [VERSION]) @ nonce @ ct" "length nonce = NONCE_SIZE"
    "utf8_encode key1 = Inr secret" "utf8_encode purpose = Inr info"
    "aead_dec cr (hkdf cr secret info) nonce ct (MAGIC @ [VERSION] @ info) = Some pt"
proof -
  have len: "17 \<le> length blob" and magic: "take 4 blob = MAGIC" "blob ! 4 = VERSION"
    using assms by (auto simp: decrypt_def Let_def HEADER_SIZE_def NONCE_SIZE_def split: if_splits)
  obtain secret info where k: "utf8_encode key1 = Inr secret" "utf8_encode purpose = Inr info"
    and dec: "aead_dec cr (hkdf cr secret info) (take 12 (drop 5 blob)) (drop 17 blob)
      (MAGIC @ [VERSION] @ info) = Some pt"
    using assms by (auto simp: decrypt_def Let_def HEADER_SIZE_def NONCE_SIZE_def derive_key_def aad_of_def
        bindE_Inr_iff split: if_splits)
  have "take 5 blob = MAGIC @ [VERSION]"
    using len magic take_Suc_conv_app_nth [of 4 blob] by (simp add: eval_nat_numeral)
  moreover have "take 12 (drop 5 blob) @ drop 17 blob = drop 5 blob"
    using append_take_drop_id [of 12 "drop 5 blob"] by simp
  ultimately have "blob = (MAGIC @ [VERSION]) @ take 12 (drop 5 blob) @ drop 17 blob"
    using append_take_drop_id [of 5 blob] by simp
  then show ?thesis using that [of "take 12 (drop 5 blob)" "drop 17 blob" secret info] k dec len
    by (simp add: NONCE_SIZE_def)
qed

interpretation envelope: codec "encrypt cr key1 purpose nonce" "decrypt cr key1 purpose"
  "\<lambda>_. aead_correct cr \<and> length nonce = NONCE_SIZE \<and> list_all is_scalar key1 \<and> list_all is_scalar purpose"
  for cr key1 purpose nonce
proof
  fix pt assume a: "aead_correct cr \<and> length nonce = NONCE_SIZE \<and> list_all is_scalar key1 \<and> list_all is_scalar purpose"
  then obtain secret info where k: "utf8_encode key1 = Inr secret" "utf8_encode purpose = Inr info"
    using utf8.enc_valid by blast
  then show "\<exists>b. encrypt cr key1 purpose nonce pt = Inr b" by (auto simp: encrypt_Inr)
  fix b assume "encrypt cr key1 purpose nonce pt = Inr b"
  with k have "b = (MAGIC @ [VERSION]) @ nonce @
      aead_enc cr (hkdf cr secret info) nonce pt (MAGIC @ [VERSION] @ info)"
    by (auto simp: encrypt_Inr)
  with decrypt_envelope [OF _ k] a show "decrypt cr key1 purpose b = Inr pt"
    by (simp add: aead_correct_def)
qed

end
