(* ===== verification/KeyHandoff.thy ===== *)
theory KeyHandoff
  imports Bytes
begin

text \<open>
  The model of \<open>src/key_handoff.py\<close>. What arrives at one end of a socket is a list of events: data
  in pieces of any size, or an error of the operating system; the end of the list is the closed
  connection. \<open>recv\<close> returns at most as many bytes as asked for, from the first piece only.
\<close>

section \<open>Sockets\<close>

datatype sock_event = Data "byte list" | Broken pyexn

type_synonym sock = "sock_event list"

fun recv :: "nat \<Rightarrow> sock \<Rightarrow> (byte list \<times> sock) py" where
  "recv n [] = Inr ([], [])"
| "recv n (Broken e # es) = Inl e"
| "recv n (Data bs # es) =
     (if bs = [] then recv n es
      else Inr (take n bs, if length bs \<le> n then es else Data (drop n bs) # es))"

text \<open>\<open>_recv_exact\<close>\<close>

function recv_exact :: "nat \<Rightarrow> sock \<Rightarrow> (byte list \<times> sock) py" where
  "recv_exact remaining s =
     (if remaining = 0 then Inr ([], s)
      else case recv remaining s of
        Inl e \<Rightarrow> Inl e
      | Inr (chunk, s') \<Rightarrow>
          if chunk = [] then Inl ConnectionError
          else case recv_exact (remaining - length chunk) s' of
            Inl e \<Rightarrow> Inl e
          | Inr (rest, s'') \<Rightarrow> Inr (chunk @ rest, s''))"
  by pat_completeness auto
termination
  by (relation "measure fst") auto

declare recv_exact.simps [simp del]

section \<open>The protocol\<close>

definition STATUS_OK :: "byte" where
  "STATUS_OK = 0"

definition STATUS_ERR :: "byte" where
  "STATUS_ERR = 1"

text \<open>A length prefix and a payload, as both directions send them.\<close>

definition frame :: "byte list \<Rightarrow> byte list py" where
  "frame payload = bindE (pack_u32 (length payload)) (\<lambda>n. Inr (n @ payload))"

definition recv_frame :: "sock \<Rightarrow> (byte list \<times> sock) py" where
  "recv_frame s =
     bindE (recv_exact 4 s) (\<lambda>(raw_length, s1).
       bindE (unpack_u32 raw_length) (\<lambda>len. recv_exact len s1))"

text \<open>The bytes that \<open>send_key1\<close> sends before it waits.\<close>

definition key1_message :: "pystr \<Rightarrow> byte list py" where
  "key1_message key1 = bindE (utf8_encode key1) frame"

text \<open>
  The rest of \<open>send_key1\<close>: what it makes of the answer. The texts of caught exceptions and of an
  unexpected status byte are arguments.
\<close>

definition await_status :: "(pyexn \<Rightarrow> pystr) \<Rightarrow> (byte list \<Rightarrow> pystr) \<Rightarrow> sock \<Rightarrow> unit py" where
  "await_status exn_text status_text s =
     (case recv_exact 1 s of
        Inl e \<Rightarrow>
          if is_os_error e
          then Inl (ServerStartupError (lit ''server did not report a startup status: '' @ exn_text e))
          else Inl e
      | Inr (status, s1) \<Rightarrow>
          if status = [STATUS_OK] then Inr ()
          else if status = [STATUS_ERR] then
            bindE (recv_frame s1) (\<lambda>(raw, s2).
              bindE (utf8_decode raw) (\<lambda>message. Inl (ServerStartupError message)))
          else Inl (ServerStartupError (lit ''unexpected status byte from server: '' @ status_text status)))"

text \<open>\<open>send_key1\<close>: the bytes sent (none if \<open>sendall\<close> is not reached) and the result.\<close>

definition send_key1 ::
  "(pyexn \<Rightarrow> pystr) \<Rightarrow> (byte list \<Rightarrow> pystr) \<Rightarrow> pystr \<Rightarrow> unit py \<Rightarrow> sock \<Rightarrow> byte list \<times> unit py" where
  "send_key1 exn_text status_text key1 sendall s =
     (case key1_message key1 of
        Inl e \<Rightarrow> ([], Inl e)
      | Inr msg \<Rightarrow>
          (case sendall of
             Inl e \<Rightarrow> ([], Inl e)
           | Inr _ \<Rightarrow> (msg, await_status exn_text status_text s)))"

definition receive_key1 :: "sock \<Rightarrow> (pystr \<times> sock) py" where
  "receive_key1 s =
     bindE (recv_frame s) (\<lambda>(payload, s1).
       bindE (utf8_decode payload) (\<lambda>key1. Inr (key1, s1)))"

definition send_ready :: "byte list" where
  "send_ready = [STATUS_OK]"

definition send_startup_error :: "pystr \<Rightarrow> byte list py" where
  "send_startup_error message =
     bindE (utf8_encode message) (\<lambda>payload. bindE (frame payload) (\<lambda>f. Inr (STATUS_ERR # f)))"

section \<open>What a socket delivers\<close>

text \<open>The bytes before the first error, and what comes after them.\<close>

fun delivered :: "sock \<Rightarrow> byte list" where
  "delivered [] = []"
| "delivered (Broken e # es) = []"
| "delivered (Data bs # es) = bs @ delivered es"

fun ending :: "sock \<Rightarrow> pyexn" where
  "ending [] = ConnectionError"
| "ending (Broken e # es) = e"
| "ending (Data bs # es) = ending es"

lemma recv_cases:
  assumes "0 < n"
  shows "case recv n s of
      Inl e \<Rightarrow> delivered s = [] \<and> e = ending s
    | Inr (c, s') \<Rightarrow> delivered s = c @ delivered s' \<and> length c \<le> n \<and> ending s' = ending s \<and>
        (c = [] \<longrightarrow> delivered s = [] \<and> ending s = ConnectionError)"
  using assms by (induction n s rule: recv.induct) (auto split: sum.splits prod.splits)

text \<open>\<open>_recv_exact\<close> does not depend on how the bytes were cut into pieces.\<close>

theorem recv_exact_spec:
  "case recv_exact n s of
      Inr (bs, s') \<Rightarrow> n \<le> length (delivered s) \<and> bs = take n (delivered s) \<and>
        delivered s' = drop n (delivered s) \<and> ending s' = ending s
    | Inl e \<Rightarrow> length (delivered s) < n \<and> e = ending s"
proof (induction n s rule: recv_exact.induct)
  case (1 n s)
  show ?case
  proof (cases "n = 0")
    case True
    then show ?thesis by (simp add: recv_exact.simps)
  next
    case False
    then have rc: "case recv n s of
      Inl e \<Rightarrow> delivered s = [] \<and> e = ending s
    | Inr (c, s') \<Rightarrow> delivered s = c @ delivered s' \<and> length c \<le> n \<and> ending s' = ending s \<and>
        (c = [] \<longrightarrow> delivered s = [] \<and> ending s = ConnectionError)"
      by (intro recv_cases) simp
    show ?thesis
    proof (cases "recv n s")
      case (Inl e)
      then show ?thesis using rc False by (simp add: recv_exact.simps [of n])
    next
      case (Inr p)
      obtain c s' where p: "p = (c, s')" by (cases p)
      show ?thesis
      proof (cases "c = []")
        case True
        then have "delivered s = []" "ending s = ConnectionError"
          using rc unfolding Inr p sum.case prod.case by blast+
        then show ?thesis using True False Inr p by (simp add: recv_exact.simps [of n])
      next
        case c: False
        from "1.IH" [OF False Inr p [symmetric] c] show ?thesis
          using rc False Inr p c
          by (cases "recv_exact (n - length c) s'") (auto simp: recv_exact.simps [of n s])
      qed
    qed
  qed
qed

lemma recv_exact_enough:
  assumes "delivered s = bs @ rest" "length bs = n"
  obtains s' where "recv_exact n s = Inr (bs, s')" "delivered s' = rest" "ending s' = ending s"
  using recv_exact_spec [where n = n and s = s] assms by (cases "recv_exact n s") auto

lemma recv_frame_frame:
  assumes "frame payload = Inr msg" "delivered s = msg @ rest"
  obtains s' where "recv_frame s = Inr (payload, s')" "delivered s' = rest" "ending s' = ending s"
proof -
  obtain n where n: "pack_u32 (length payload) = Inr n" "msg = n @ payload"
    using assms(1) by (auto simp: frame_def bindE_Inr_iff)
  then have len: "length n = 4" "length payload < 2 ^ 32" by (auto simp: pack_u32_def split: if_splits)
  obtain s1 where s1: "recv_exact 4 s = Inr (n, s1)" "delivered s1 = payload @ rest" "ending s1 = ending s"
    using recv_exact_enough [where s = s and bs = n and rest = "payload @ rest" and n = 4] assms(2) n(2) len(1) by auto
  obtain s2 where s2: "recv_exact (length payload) s1 = Inr (payload, s2)" "delivered s2 = rest"
    "ending s2 = ending s1" by (rule recv_exact_enough [OF s1(2) refl])
  have "unpack_u32 n = Inr (length payload)" using u32.dec_enc [OF len(2) n(1)] .
  then show ?thesis using that [of s2] s1 s2 by (simp add: recv_frame_def)
qed

lemma frame_valid: "length payload < 2 ^ 32 \<Longrightarrow> \<exists>msg. frame payload = Inr msg"
  using u32.enc_valid [of "length payload"] by (auto simp: frame_def)

text \<open>A frame that arrives in one piece: both directions use the same codec.\<close>

interpretation frame_codec: codec frame "\<lambda>bs. bindE (recv_frame [Data bs]) (\<lambda>(p, s). Inr p)"
  "\<lambda>payload. length payload < 2 ^ 32"
proof
  fix payload msg assume f: "frame payload = Inr msg"
  obtain s' where "recv_frame [Data msg] = Inr (payload, s')"
    by (rule recv_frame_frame [OF f, of "[Data msg]" "[]"]) simp
  then show "bindE (recv_frame [Data msg]) (\<lambda>(p, s). Inr p) = Inr payload" by simp
qed (rule frame_valid)

lemma receive_key1_message:
  assumes "key1_message key1 = Inr msg" "delivered s = msg @ rest"
  obtains s' where "receive_key1 s = Inr (key1, s')" "delivered s' = rest" "ending s' = ending s"
proof -
  obtain payload where p: "utf8_encode key1 = Inr payload" "frame payload = Inr msg"
    using assms(1) by (auto simp: key1_message_def bindE_Inr_iff)
  show ?thesis
    by (rule recv_frame_frame [OF p(2) assms(2)])
       (use that p(1) in \<open>simp add: receive_key1_def utf8_decode_encode\<close>)
qed

lemma await_status_ready: "delivered s = STATUS_OK # rest \<Longrightarrow> await_status xt st s = Inr ()"
  by (rule recv_exact_enough [where s = s and bs = "[STATUS_OK]" and rest = rest and n = 1]) (simp_all add: await_status_def)

lemma await_status_error:
  assumes "send_startup_error m = Inr bs" "delivered s = bs @ rest"
  shows "await_status xt st s = Inl (ServerStartupError m)"
proof -
  obtain payload f where p: "utf8_encode m = Inr payload" "frame payload = Inr f" "bs = STATUS_ERR # f"
    using assms(1) by (auto simp: send_startup_error_def bindE_Inr_iff)
  obtain s1 where s1: "recv_exact 1 s = Inr ([STATUS_ERR], s1)" "delivered s1 = f @ rest"
    by (rule recv_exact_enough [where s = s and bs = "[STATUS_ERR]" and rest = "f @ rest" and n = 1]) (use assms(2) p(3) in simp_all)
  obtain s2 where "recv_frame s1 = Inr (payload, s2)" by (rule recv_frame_frame [OF p(2) s1(2)])
  then show ?thesis using s1(1) p(1)
    by (simp add: await_status_def STATUS_OK_def STATUS_ERR_def utf8_decode_encode)
qed

section \<open>Properties\<close>

text \<open>
  C32: the handoff of KEY1. Whatever pieces the bytes of \<open>send_key1\<close> arrive in, \<open>receive_key1\<close>
  returns exactly the key and leaves what follows it on the socket; a stream that ends or breaks
  before the message is complete raises the error of its end and never yields a part of a key.
\<close>

theorem handoff_roundtrip:
  assumes "key1_message key1 = Inr msg"
  shows "(delivered s = msg @ rest \<longrightarrow> (\<exists>s'. receive_key1 s = Inr (key1, s') \<and> delivered s' = rest)) \<and>
    (strict_prefix (delivered s) msg \<longrightarrow> receive_key1 s = Inl (ending s))"
proof (intro conjI impI)
  assume "delivered s = msg @ rest"
  from receive_key1_message [OF assms this] show "\<exists>s'. receive_key1 s = Inr (key1, s') \<and> delivered s' = rest"
    by blast
next
  assume pre: "strict_prefix (delivered s) msg"
  obtain payload n where p: "pack_u32 (length payload) = Inr n" "msg = n @ payload"
    using assms by (auto simp: key1_message_def frame_def bindE_Inr_iff)
  then have len: "length n = 4" "length payload < 2 ^ 32" by (auto simp: pack_u32_def split: if_splits)
  have short: "length (delivered s) < length msg" using pre by (rule prefix_length_less)
  obtain t where t: "msg = delivered s @ t" using pre by (auto simp: strict_prefix_def prefix_def)
  show "receive_key1 s = Inl (ending s)"
  proof (cases "recv_exact 4 s")
    case (Inl e)
    then show ?thesis using recv_exact_spec [where n = 4 and s = s] by (simp add: receive_key1_def recv_frame_def)
  next
    case (Inr q)
    then obtain s1 where q: "q = (take 4 (delivered s), s1)" "4 \<le> length (delivered s)"
      "delivered s1 = drop 4 (delivered s)" "ending s1 = ending s"
      using recv_exact_spec [where n = 4 and s = s] by (cases q) auto
    have "take 4 (delivered s) = n" using t p(2) q(2) len(1)
      by (metis append_eq_append_conv_if append_eq_conv_conj)
    then have un: "unpack_u32 (take 4 (delivered s)) = Inr (length payload)"
      using u32.dec_enc [OF len(2) p(1)] by simp
    have "length (delivered s1) < length payload" using short p(2) q(2,3) len(1) by simp
    then have "recv_exact (length payload) s1 = Inl (ending s1)"
      using recv_exact_spec [where n = "length payload" and s = s1] by (cases "recv_exact (length payload) s1") auto
    then show ?thesis using Inr q un by (simp add: receive_key1_def recv_frame_def)
  qed
qed

theorem handoff_roundtrip_witness:
  "\<exists>msg. key1_message (lit ''k'') = Inr msg \<and>
    (\<exists>s'. receive_key1 (map (\<lambda>b. Data [b]) msg @ [Data [9]]) = Inr (lit ''k'', s') \<and> delivered s' = [9]) \<and>
    receive_key1 [Data (butlast msg), Broken TimeoutError] = Inl TimeoutError"
proof -
  have "length (utf8_char c) < 5" for c by (simp add: utf8_char_def)
  then have "\<exists>msg. key1_message (lit ''k'') = Inr msg"
    using frame_valid [of "utf8_char 107"]
    by (auto simp: key1_message_def utf8_encode_def lit_def is_scalar_def utf8_char_def)
  then obtain msg where msg: "key1_message (lit ''k'') = Inr msg" by blast
  then obtain n p where "pack_u32 (length p) = Inr n" "msg = n @ p"
    by (auto simp: key1_message_def frame_def bindE_Inr_iff)
  moreover from this have "length n = 4" by (auto simp: pack_u32_def split: if_splits)
  ultimately have ne: "msg \<noteq> []" by auto
  have d: "delivered (map (\<lambda>b. Data [b]) bs @ [Data [9]]) = bs @ [9]" for bs
    by (induction bs) auto
  have "strict_prefix (butlast msg) msg"
    unfolding strict_prefix_def
    using ne append_butlast_last_id [OF ne] prefixI [of msg "butlast msg" "[last msg]"]
    by (metis append_self_conv not_Cons_self2)
  then show ?thesis
    using handoff_roundtrip [OF msg, of "map (\<lambda>b. Data [b]) msg @ [Data [9]]" "[9]"]
      handoff_roundtrip [OF msg, of "[Data (butlast msg), Broken TimeoutError]"] d [of msg] msg
    by auto
qed

text \<open>
  The answer of the server. A server that reports \<open>send_ready\<close> makes \<open>send_key1\<close> return; one
  that reports \<open>send_startup_error\<close> makes it raise \<open>ServerStartupError\<close> with exactly that message;
  a connection that closes, breaks or times out before any answer, or answers with another byte,
  is a \<open>ServerStartupError\<close> too.
\<close>

theorem startup_answer:
  assumes "key1_message key1 = Inr msg"
  shows "(delivered s = send_ready @ rest \<longrightarrow> send_key1 xt st key1 (Inr ()) s = (msg, Inr ())) \<and>
    (\<forall>m bs. send_startup_error m = Inr bs \<longrightarrow> delivered s = bs @ rest \<longrightarrow>
       send_key1 xt st key1 (Inr ()) s = (msg, Inl (ServerStartupError m))) \<and>
    (delivered s = [] \<and> is_os_error (ending s) \<longrightarrow>
       (\<exists>m. send_key1 xt st key1 (Inr ()) s = (msg, Inl (ServerStartupError m)))) \<and>
    (delivered s = b # rest \<and> b \<noteq> STATUS_OK \<and> b \<noteq> STATUS_ERR \<longrightarrow>
       (\<exists>m. send_key1 xt st key1 (Inr ()) s = (msg, Inl (ServerStartupError m))))"
proof -
  have "\<exists>m. await_status xt st s = Inl (ServerStartupError m)" if "delivered s = []" "is_os_error (ending s)"
    using recv_exact_spec [where n = 1 and s = s] that by (cases "recv_exact 1 s") (auto simp: await_status_def)
  moreover have "\<exists>m. await_status xt st s = Inl (ServerStartupError m)"
    if "delivered s = b # rest" "b \<noteq> STATUS_OK" "b \<noteq> STATUS_ERR"
    by (rule recv_exact_enough [where s = s and bs = "[b]" and rest = rest and n = 1]) (use that in \<open>simp_all add: await_status_def\<close>)
  ultimately show ?thesis
    using assms await_status_ready [of s rest xt st] await_status_error [of _ _ s rest xt st]
    by (auto simp: send_key1_def send_ready_def)
qed

theorem startup_answer_witness:
  "\<forall>xt st. send_key1 xt st [] (Inr ()) [Data send_ready] = (be_digits 4 0, Inr ())"
proof -
  have "key1_message [] = Inr (be_digits 4 0)"
    by (simp add: key1_message_def utf8_encode_def frame_def pack_u32_def)
  from startup_answer [OF this, of "[Data send_ready]" "[]"] show ?thesis by simp
qed

end
