(* ===== verification/Server.thy ===== *)
theory Server
  imports ShamirRecovery CryptoFile KeyHandoff Config
begin

text \<open>
  The model of \<open>src/server.py\<close>: the request handlers over the configuration of the application
  and the files, the dispatch of a request, and the startup with its report to the initiator.
  bottle, ssl and the socket are outside: a request carries the parsed body that
  \<open>bottle.request.json\<close> gives (or the error it raises), the subject of the client certificate
  that the TLS layer verified, the current time and the outside of the one file write; binding the
  port is an argument of the startup.
\<close>

section \<open>Names of files and purposes\<close>

definition HOSTS_FILENAME :: pystr where "HOSTS_FILENAME = lit ''hosts.dta''"
definition HOSTS_FILE_PURPOSE :: pystr where "HOSTS_FILE_PURPOSE = lit ''secretweb-hosts-v1''"
definition SITES_FILENAME :: pystr where "SITES_FILENAME = lit ''sites.dta''"
definition SITES_PLAINTEXT_FILENAME :: pystr where "SITES_PLAINTEXT_FILENAME = lit ''sites.json''"
definition SITES_FILE_PURPOSE :: pystr where "SITES_FILE_PURPOSE = lit ''secretweb-sites-v1''"
definition SECRETS_FILENAME :: pystr where "SECRETS_FILENAME = lit ''secrets.dta''"
definition SECRETS_FILE_PURPOSE :: pystr where "SECRETS_FILE_PURPOSE = lit ''secretweb-secrets-v1''"
definition SHARES_FILENAME :: pystr where "SHARES_FILENAME = lit ''shares.dta''"
definition SHARES_FILE_PURPOSE :: pystr where "SHARES_FILE_PURPOSE = lit ''secretweb-shares-v1''"

section \<open>The platform and the application\<close>

text \<open>
  What the code takes from outside the repository: the ciphers, Unicode's lower case and decimal
  digits beyond ASCII, and the texts of exceptions.
\<close>

record platform =
  pf_crypto :: crypto
  pf_lower :: "pystr \<Rightarrow> pystr"
  pf_int :: "pystr \<Rightarrow> int option"
  pf_exn_text :: "pyexn \<Rightarrow> pystr"

text \<open>\<open>app.config\<close>, and the files of the host.\<close>

record app_config =
  ac_basedir :: pystr
  ac_key1 :: pystr
  ac_hosts :: pyval
  ac_sites :: pyval
  ac_secrets :: pyval
  ac_shares :: pyval
  ac_files :: files

record request =
  rq_peercert :: "(pystr \<times> pystr) list list option"
  rq_json :: "pyval py"
  rq_now :: pystr
  rq_io :: io

type_synonym response = "(nat \<times> pyval) py"

section \<open>Who is calling\<close>

text \<open>\<open>_client_common_name\<close>: the first common name in the subject of the certificate.\<close>

definition client_common_name :: "(pystr \<times> pystr) list list option \<Rightarrow> pystr option" where
  "client_common_name peercert = (case peercert of
     None \<Rightarrow> None
   | Some rdns \<Rightarrow> map_option snd (List.find (\<lambda>(key, value). key = lit ''commonName'') (concat rdns)))"

definition hostname_from_common_name :: "pystr \<Rightarrow> pystr" where
  "hostname_from_common_name common_name = first_label common_name"

definition require_owner_matches_client_cert ::
  "platform \<Rightarrow> request \<Rightarrow> pyval \<Rightarrow> unit py" where
  "require_owner_matches_client_cert pf rq owner =
     (case client_common_name (rq_peercert rq) of
        None \<Rightarrow> Inl (HTTPError 403)
      | Some common_name \<Rightarrow>
          (case owner of
             PStr name \<Rightarrow>
               if str_lower (pf_lower pf) (hostname_from_common_name common_name) \<noteq> str_lower (pf_lower pf) name
               then Inl (HTTPError 403) else Inr ()
           | _ \<Rightarrow> Inl AttributeError))"

section \<open>Tables\<close>

text \<open>
  \<open>app.config["shares"]["shares"]\<close> and its like. What is no dictionary has no \<open>get\<close>; assigning an
  item of it is a \<open>TypeError\<close>.
\<close>

definition table :: "pyval \<Rightarrow> pystr \<Rightarrow> pyval dict py" where
  "table config k =
     bindE (py_subscript config k) (\<lambda>t. case t of PDict d \<Rightarrow> Inr d | _ \<Rightarrow> Inl AttributeError)"

definition table_to_assign :: "pyval \<Rightarrow> pystr \<Rightarrow> pyval dict py" where
  "table_to_assign config k = catchE (table config k) (\<lambda>e. e = AttributeError) (\<lambda>_. Inl TypeError)"

lemma table_to_assign_Inr [simp]: "table config k = Inr d \<Longrightarrow> table_to_assign config k = Inr d"
  by (simp add: table_to_assign_def)

lemma table_to_assign_InrD [dest]: "table_to_assign config k = Inr d \<Longrightarrow> table config k = Inr d"
  by (cases "table config k") (auto simp: table_to_assign_def split: if_splits)

definition table_put :: "pyval \<Rightarrow> pystr \<Rightarrow> pystr \<Rightarrow> pyval \<Rightarrow> pyval" where
  "table_put config k entry v = (case config of
     PDict c \<Rightarrow> (case map_of c k of
         Some (PDict d) \<Rightarrow> PDict (AList.update k (PDict (AList.update entry v d)) c)
       | _ \<Rightarrow> config)
   | _ \<Rightarrow> config)"

definition data_path :: "app_config \<Rightarrow> pystr \<Rightarrow> path" where
  "data_path ac name = path_join (path_join (ac_basedir ac) (lit ''data'')) name"

definition persist_shares :: "platform \<Rightarrow> io \<Rightarrow> app_config \<Rightarrow> app_config \<times> unit py" where
  "persist_shares pf io ac =
     (case save (pf_crypto pf) io (data_path ac SHARES_FILENAME) (ac_key1 ac) SHARES_FILE_PURPOSE
             (ac_shares ac) (ac_files ac) of
        (fs, r) \<Rightarrow> (ac\<lparr>ac_files := fs\<rparr>, r))"

definition persist_secrets :: "platform \<Rightarrow> io \<Rightarrow> app_config \<Rightarrow> app_config \<times> unit py" where
  "persist_secrets pf io ac =
     (case save (pf_crypto pf) io (data_path ac SECRETS_FILENAME) (ac_key1 ac) SECRETS_FILE_PURPOSE
             (ac_secrets ac) (ac_files ac) of
        (fs, r) \<Rightarrow> (ac\<lparr>ac_files := fs\<rparr>, r))"

section \<open>Handlers\<close>

definition index :: "app_config \<Rightarrow> app_config \<times> response" where
  "index ac = (ac, Inr (200, PStr (lit ''OK'')))"

text \<open>The check of the body by a fresh decoder, its exceptions turned into status 400.\<close>

definition check_share :: "pyval \<Rightarrow> unit py" where
  "check_share payload =
     bindE (shamir_init_default [] [] []) (\<lambda>decoder.
       case snd (populate_decoder payload decoder) of
         Inl e \<Rightarrow> if e = KeyError \<or> e = InvalidShareError then Inl (HTTPError 400) else Inl e
       | Inr _ \<Rightarrow> Inr ())"

definition status_doc :: "string \<Rightarrow> pyval" where
  "status_doc s = PDict [(lit ''status'', PStr (lit s))]"

definition store_share :: "platform \<Rightarrow> pystr \<Rightarrow> request \<Rightarrow> app_config \<Rightarrow> app_config \<times> response" where
  "store_share pf share_uuid rq ac =
     (case bindE (rq_json rq) (\<lambda>payload.
             case payload of
               PDict d \<Rightarrow>
                 if \<not> py_eq (dict_get d (lit ''uuid'')) (PStr share_uuid) then Inl (HTTPError 400)
                 else bindE (check_share payload) (\<lambda>_.
                   bindE (py_subscript payload (lit ''owner'')) (\<lambda>owner.
                   bindE (require_owner_matches_client_cert pf rq owner) (\<lambda>_.
                   bindE (table (ac_shares ac) (lit ''shares'')) (\<lambda>shares.
                     Inr (payload, dict_get shares share_uuid)))))
             | _ \<Rightarrow> Inl (HTTPError 400)) of
        Inl e \<Rightarrow> (ac, Inl e)
      | Inr (payload, existing) \<Rightarrow>
          if py_eq existing payload then (ac, Inr (200, status_doc ''already-stored''))
          else if existing \<noteq> PNone then (ac, Inl (HTTPError 409))
          else
            (case persist_shares pf (rq_io rq)
                    (ac\<lparr>ac_shares := table_put (ac_shares ac) (lit ''shares'') share_uuid payload\<rparr>) of
               (ac', Inl e) \<Rightarrow> (ac', Inl e)
             | (ac', Inr _) \<Rightarrow> (ac', Inr (201, status_doc ''stored''))))"

definition get_share :: "platform \<Rightarrow> pystr \<Rightarrow> request \<Rightarrow> app_config \<Rightarrow> app_config \<times> response" where
  "get_share pf share_uuid rq ac =
     (ac, bindE (table (ac_shares ac) (lit ''shares'')) (\<lambda>shares.
        let share = dict_get shares share_uuid in
        if share = PNone then Inl (HTTPError 404)
        else bindE (py_subscript share (lit ''owner'')) (\<lambda>owner.
          bindE (require_owner_matches_client_cert pf rq owner) (\<lambda>_. Inr (200, share)))))"

text \<open>The own name, from the entry of \<open>hosts.dta\<close> with the status \<open>local\<close>.\<close>

definition own_name_of :: "app_config \<Rightarrow> pyval py" where
  "own_name_of ac = bindE (own_host_entry (ac_hosts ac)) (\<lambda>h. py_subscript h (lit ''name''))"

definition metadata_of :: "platform \<Rightarrow> pyval \<Rightarrow> (pyval \<times> int \<times> int) py" where
  "metadata_of pf payload =
     catchE
       (bindE (py_subscript payload (lit ''uuid'')) (\<lambda>uuid.
          bindE (bindE (py_subscript payload (lit ''treshold'')) (py_int_of (pf_int pf))) (\<lambda>treshold.
          bindE (bindE (py_subscript payload (lit ''shares_saved'')) (py_int_of (pf_int pf))) (\<lambda>shares_saved.
            Inr (uuid, treshold, shares_saved)))))
       (\<lambda>e. e = KeyError \<or> e = TypeError \<or> is_value_error e) (\<lambda>e. Inl (HTTPError 400))"

definition secret_record :: "pyval \<Rightarrow> int \<Rightarrow> int \<Rightarrow> pystr \<Rightarrow> pyval" where
  "secret_record uuid treshold shares_saved now = PDict
     [(lit ''uuid'', uuid), (lit ''treshold'', PInt treshold), (lit ''shares_saved'', PInt shares_saved),
      (lit ''last_updated'', PStr now)]"

definition store_secret_metadata ::
  "platform \<Rightarrow> pystr \<Rightarrow> request \<Rightarrow> app_config \<Rightarrow> app_config \<times> response" where
  "store_secret_metadata pf name rq ac =
     (case bindE (rq_json rq) (\<lambda>payload.
             case payload of
               PDict d \<Rightarrow>
                 bindE (metadata_of pf payload) (\<lambda>(uuid, treshold, shares_saved).
                   bindE (own_name_of ac) (\<lambda>own_name.
                   bindE (require_owner_matches_client_cert pf rq own_name) (\<lambda>_.
                   bindE (table_to_assign (ac_secrets ac) (lit ''secrets'')) (\<lambda>_.
                     Inr (secret_record uuid treshold shares_saved (rq_now rq))))))
             | _ \<Rightarrow> Inl (HTTPError 400)) of
        Inl e \<Rightarrow> (ac, Inl e)
      | Inr rec \<Rightarrow>
          (case persist_secrets pf (rq_io rq)
                  (ac\<lparr>ac_secrets := table_put (ac_secrets ac) (lit ''secrets'') name rec\<rparr>) of
             (ac', Inl e) \<Rightarrow> (ac', Inl e)
           | (ac', Inr _) \<Rightarrow> (ac', Inr (201, rec))))"

definition get_secret_metadata :: "platform \<Rightarrow> pystr \<Rightarrow> request \<Rightarrow> app_config \<Rightarrow> app_config \<times> response" where
  "get_secret_metadata pf name rq ac =
     (ac, bindE (own_name_of ac) (\<lambda>own_name.
        bindE (require_owner_matches_client_cert pf rq own_name) (\<lambda>_.
        bindE (table (ac_secrets ac) (lit ''secrets'')) (\<lambda>secrets.
          let rec = dict_get secrets name in
          if rec = PNone then Inl (HTTPError 404) else Inr (200, rec)))))"

section \<open>Dispatch\<close>

datatype route =
  Index | PostShare pystr | GetShare pystr | PostSecret pystr | GetSecret pystr

fun handle :: "platform \<Rightarrow> route \<Rightarrow> request \<Rightarrow> app_config \<Rightarrow> app_config \<times> response" where
  "handle pf Index rq ac = index ac"
| "handle pf (PostShare u) rq ac = store_share pf u rq ac"
| "handle pf (GetShare u) rq ac = get_share pf u rq ac"
| "handle pf (PostSecret n) rq ac = store_secret_metadata pf n rq ac"
| "handle pf (GetSecret n) rq ac = get_secret_metadata pf n rq ac"

text \<open>What the client sees: bottle answers 500 to an exception that is not an HTTP error.\<close>

fun status_of :: "response \<Rightarrow> nat" where
  "status_of (Inr (code, body)) = code"
| "status_of (Inl (HTTPError code)) = code"
| "status_of (Inl _) = 500"


section \<open>Startup\<close>

text \<open>
  The outside of one start: the host name, the clock, the six file writes that may be needed, and
  the result of loading the certificates and binding the port.
\<close>

record startup =
  su_hostname :: pystr
  su_now :: pystr
  su_hosts_io :: "io \<times> io"
  su_sites_io :: "io \<times> io"
  su_secrets_io :: io
  su_shares_io :: io
  su_bind :: "pystr \<times> pystr \<times> pystr \<Rightarrow> pystr \<Rightarrow> int \<Rightarrow> unit py"

definition default_hosts_data :: "pystr \<Rightarrow> pystr \<Rightarrow> int \<Rightarrow> pyval" where
  "default_hosts_data hostname now own_port =
     (let address = PStr (lit ''127.0.0.1'') in
      PDict [(lit ''hosts'', PDict [(hostname, PDict
        [(lit ''address'', address), (lit ''all_addresses'', PList [address]), (lit ''port'', PInt own_port),
         (lit ''role'', PStr (lit ''server'')), (lit ''status'', PStr (lit ''local'')), (lit ''site'', PStr []),
         (lit ''online'', PStr (lit ''unknown'')), (lit ''last_updated'', PStr now)])])])"

definition default_sites_data :: "pyval" where
  "default_sites_data = PDict [(lit ''sites'', PDict [])]"

definition default_secrets_data :: "pyval" where
  "default_secrets_data = PDict [(lit ''secrets'', PDict [])]"

definition default_shares_data :: "pyval" where
  "default_shares_data = PDict [(lit ''shares'', PDict [])]"

definition ensure_hosts_file ::
  "platform \<Rightarrow> startup \<Rightarrow> pystr \<Rightarrow> pystr \<Rightarrow> int \<Rightarrow> files \<Rightarrow> files \<times> pyval py" where
  "ensure_hosts_file pf su basedir key1 own_port fs =
     ensure_mirrored (pf_crypto pf) (fst (su_hosts_io su)) (snd (su_hosts_io su))
       (path_join basedir (lit ''data'')) HOSTS_FILENAME HOSTS_PLAINTEXT_FILENAME key1 HOSTS_FILE_PURPOSE
       (default_hosts_data (su_hostname su) (su_now su) own_port) fs"

definition ensure_sites_file ::
  "platform \<Rightarrow> startup \<Rightarrow> pystr \<Rightarrow> pystr \<Rightarrow> files \<Rightarrow> files \<times> pyval py" where
  "ensure_sites_file pf su basedir key1 fs =
     ensure_mirrored (pf_crypto pf) (fst (su_sites_io su)) (snd (su_sites_io su))
       (path_join basedir (lit ''data'')) SITES_FILENAME SITES_PLAINTEXT_FILENAME key1 SITES_FILE_PURPOSE
       default_sites_data fs"

definition ensure_secrets_file ::
  "platform \<Rightarrow> startup \<Rightarrow> pystr \<Rightarrow> pystr \<Rightarrow> files \<Rightarrow> files \<times> pyval py" where
  "ensure_secrets_file pf su basedir key1 fs =
     ensure (pf_crypto pf) (su_secrets_io su)
       (path_join (path_join basedir (lit ''data'')) SECRETS_FILENAME) key1 SECRETS_FILE_PURPOSE
       default_secrets_data fs"

definition ensure_shares_file ::
  "platform \<Rightarrow> startup \<Rightarrow> pystr \<Rightarrow> pystr \<Rightarrow> files \<Rightarrow> files \<times> pyval py" where
  "ensure_shares_file pf su basedir key1 fs =
     ensure (pf_crypto pf) (su_shares_io su)
       (path_join (path_join basedir (lit ''data'')) SHARES_FILENAME) key1 SHARES_FILE_PURPOSE
       default_shares_data fs"

text \<open>
  The report of a failed start: the bytes that go to the initiator, which is there to take them, and
  the exception that goes on.
  A message that cannot be sent raises in place of the original exception.
\<close>

definition report_failure :: "pystr \<Rightarrow> pyexn \<Rightarrow> byte list \<times> pyexn" where
  "report_failure message e =
     (if \<not> is_exception e then ([], e)
      else case send_startup_error message of
        Inl e' \<Rightarrow> ([], e')
      | Inr bs \<Rightarrow> (bs, e))"

text \<open>\<open>_startup_guard\<close> around the step that sets up one file.\<close>

definition startup_guard ::
  "platform \<Rightarrow> string \<Rightarrow> files \<times> pyval py \<Rightarrow> (pyval \<Rightarrow> files \<Rightarrow> files \<times> byte list \<times> app_config py) \<Rightarrow>
   files \<times> byte list \<times> app_config py" where
  "startup_guard pf description step continue =
     (case step of
        (fs, Inl e) \<Rightarrow>
          (case report_failure (lit ''failed to initialize '' @ lit description @ lit '': '' @ pf_exn_text pf e) e of
             (bs, e') \<Rightarrow> (fs, bs, Inl e'))
      | (fs, Inr doc) \<Rightarrow> continue doc fs)"

text \<open>\<open>MTLSWSGIRefServer.run\<close> up to \<open>serve_forever\<close>.\<close>

definition serve_start ::
  "platform \<Rightarrow> unit py \<Rightarrow> app_config \<Rightarrow> files \<Rightarrow> files \<times> byte list \<times> app_config py" where
  "serve_start pf bound ac fs =
     (case bound of
        Inl e \<Rightarrow> (case report_failure (pf_exn_text pf e) e of (bs, e') \<Rightarrow> (fs, bs, Inl e'))
      | Inr _ \<Rightarrow> (fs, send_ready, Inr ac))"

text \<open>
  \<open>main\<close>: the files afterwards, the bytes sent to the initiator, and the application that serves or
  the exception that ended the process.
\<close>

definition server_main ::
  "platform \<Rightarrow> startup \<Rightarrow> pystr \<Rightarrow> config \<Rightarrow> sock \<Rightarrow> files \<Rightarrow> files \<times> byte list \<times> app_config py" where
  "server_main pf su basedir cfg handoff fs =
     (case bindE (cfg_getint (pf_int pf) cfg (lit ''server-port'') (Some 59222)) (\<lambda>port.
             bindE (receive_key1 handoff) (\<lambda>(key1, _). Inr (port, key1))) of
        Inl e \<Rightarrow> (fs, [], Inl e)
      | Inr (port, key1) \<Rightarrow>
          startup_guard pf ''hosts.dta'' (ensure_hosts_file pf su basedir key1 port fs) (\<lambda>hosts fs1.
          startup_guard pf ''sites.dta'' (ensure_sites_file pf su basedir key1 fs1) (\<lambda>sites fs2.
          startup_guard pf ''secrets.dta'' (ensure_secrets_file pf su basedir key1 fs2) (\<lambda>secrets fs3.
          startup_guard pf ''shares.dta'' (ensure_shares_file pf su basedir key1 fs3) (\<lambda>shares fs4.
            serve_start pf
              (su_bind su (cert_paths basedir cfg) (cfg_get cfg (lit ''bind-address'') (lit ''0.0.0.0'')) port)
              \<lparr>ac_basedir = basedir, ac_key1 = key1, ac_hosts = hosts, ac_sites = sites,
                 ac_secrets = secrets, ac_shares = shares, ac_files = fs4\<rparr> fs4)))))"

end
