(* ===== verification/Initiator.thy ===== *)
theory Initiator
  imports Recovery CryptoFile KeyHandoff Server
begin

text \<open>
  The model of \<open>src/initiator.py\<close>: bringing KEY1 back from the peers at boot, starting the server
  and handing KEY1 over, and stopping it by its pidfile. Loops without a bound are partial: they are
  \<open>None\<close> when they do not end.
\<close>

section \<open>Collecting KEY1\<close>

text \<open>The names that contributed are a set in the code; only hashable values can be asked for in it.\<close>

definition hashable :: "pyval \<Rightarrow> unit py" where
  "hashable v = (case v of PList _ \<Rightarrow> Inl TypeError | PDict _ \<Rightarrow> Inl TypeError | _ \<Rightarrow> Inr ())"

fun not_contributed :: "pyval list \<Rightarrow> pyval list \<Rightarrow> pyval list py" where
  "not_contributed contributed [] = Inr []"
| "not_contributed contributed (p # peers) =
     bindE (py_subscript p (lit ''name'')) (\<lambda>name.
     bindE (hashable name) (\<lambda>_.
     bindE (not_contributed contributed peers) (\<lambda>rest.
       Inr (if py_in name contributed then rest else p # rest))))"

text \<open>One round: every candidate is asked, until the decoder is ready.\<close>

fun ask_candidates ::
  "'w net \<Rightarrow> int \<Rightarrow> certs \<Rightarrow> pystr \<Rightarrow> pyval list \<Rightarrow> shamir_secret \<times> pyval list \<Rightarrow>
   ('w, shamir_secret \<times> pyval list) action" where
  "ask_candidates net port certs key1_uuid [] (decoder, contributed) = pureA (Inr (decoder, contributed))"
| "ask_candidates net port certs key1_uuid (peer # candidates) (decoder, contributed) =
     (if ss_ready_to_decode decoder then pureA (Inr (decoder, contributed))
      else
        doA (tryA (doA (ask_peer net port certs (PStr key1_uuid) peer) (\<lambda>v. pureA (Inr (Some v))))
               is_unavailable (\<lambda>_. pureA (Inr None)))
          (\<lambda>answer. case answer of
             None \<Rightarrow> ask_candidates net port certs key1_uuid candidates (decoder, contributed)
           | Some share \<Rightarrow>
               (case populate_decoder share decoder of
                  (decoder', Inl e) \<Rightarrow>
                    if e = InvalidShareError
                    then ask_candidates net port certs key1_uuid candidates (decoder', contributed)
                    else pureA (Inl e)
                | (decoder', Inr _) \<Rightarrow>
                    doA (pureA (py_subscript peer (lit ''name''))) (\<lambda>name.
                    doA (pureA (hashable name)) (\<lambda>_.
                      ask_candidates net port certs key1_uuid candidates (decoder', contributed @ [name]))))))"

definition POLL_INTERVAL_SECONDS :: nat where
  "POLL_INTERVAL_SECONDS = 10"

text \<open>\<open>while not decoder.ready_to_decode\<close>: rounds, with a pause after each that was not enough.\<close>

partial_function (option) collect_rounds ::
  "'w net \<Rightarrow> int \<Rightarrow> certs \<Rightarrow> pystr \<Rightarrow> pyval list \<Rightarrow> shamir_secret \<times> pyval list \<Rightarrow> 'w \<Rightarrow>
   ('w \<times> shamir_secret py) option" where
  "collect_rounds net port certs key1_uuid peers st w =
     (if ss_ready_to_decode (fst st) then Some (w, Inr (fst st))
      else case not_contributed (snd st) peers of
        Inl e \<Rightarrow> Some (w, Inl e)
      | Inr candidates \<Rightarrow>
          (case ask_candidates net port certs key1_uuid (net_shuffle net w candidates) st w of
             (w', Inl e) \<Rightarrow> Some (w', Inl e)
           | (w', Inr st') \<Rightarrow>
               collect_rounds net port certs key1_uuid peers st'
                 (if ss_ready_to_decode (fst st') then w' else net_sleep net POLL_INTERVAL_SECONDS w')))"

definition collect_key1 ::
  "'w net \<Rightarrow> platform \<Rightarrow> pystr \<Rightarrow> pystr \<Rightarrow> config \<Rightarrow> files \<Rightarrow> 'w \<Rightarrow> ('w \<times> pystr py) option" where
  "collect_key1 net pf uuid4 basedir cfg fs w =
     (case bindE (of_opt KeyError cfg) (\<lambda>section.
        bindE (key1_metadata (pf_int pf) Key1ReconstructionError section)
          (\<lambda>(key1_name, key1_uuid, key1_treshold, key1_shares).
        bindE (catchE (own_name_and_peers basedir fs) (\<lambda>e. e = OwnHostNotFoundError)
            (\<lambda>_. Inl Key1ReconstructionError)) (\<lambda>(own_name, peers).
        if peers = [] then Inl Key1ReconstructionError
        else bindE (cfg_getint (pf_int pf) cfg (lit ''server-port'') None) (\<lambda>port.
          bindE (shamir_new (PStr key1_name) own_name key1_shares key1_treshold uuid4) (\<lambda>decoder.
            Inr (key1_uuid, peers, port, decoder)))))) of
        Inl e \<Rightarrow> Some (w, Inl e)
      | Inr (key1_uuid, peers, port, decoder) \<Rightarrow>
          map_option (\<lambda>(w', r). (w', bindE r decode))
            (collect_rounds net port (cert_paths basedir cfg) key1_uuid peers (decoder, []) w))"

section \<open>Processes\<close>

text \<open>
  What the module takes from the operating system: starting a process on a socket pair, what that
  process makes of the bytes on its socket (whether they could be sent, and what comes back), signals,
  the clock in microseconds, and the outside of the write of the pidfile.
\<close>

record 'w sys =
  sy_spawn :: "pystr list \<Rightarrow> ('w session, int) action"
  sy_child :: "int \<Rightarrow> byte list \<Rightarrow> 'w session \<Rightarrow> 'w session \<times> unit py \<times> sock"
  sy_kill :: "int \<Rightarrow> nat \<Rightarrow> ('w, unit) action"
  sy_clock :: "'w \<Rightarrow> int"
  sy_nap :: "int \<Rightarrow> 'w \<Rightarrow> 'w"
  sy_pid_io :: io
  sy_status_text :: "byte list \<Rightarrow> pystr"

definition PID_FILENAME :: pystr where
  "PID_FILENAME = lit ''server.pid''"

definition pid_file_path :: "pystr \<Rightarrow> path" where
  "pid_file_path basedir = path_join (path_join basedir (lit ''data'')) PID_FILENAME"

text \<open>\<open>os.kill(pid, 0)\<close>; 15 and 9 are \<open>SIGTERM\<close> and \<open>SIGKILL\<close>.\<close>

definition pid_is_alive :: "'w sys \<Rightarrow> int \<Rightarrow> ('w, bool) action" where
  "pid_is_alive sys pid w = (case sy_kill sys pid 0 w of
     (w', Inl e) \<Rightarrow>
       if e = ProcessLookupError then (w', Inr False)
       else if e = PermissionError then (w', Inr True)
       else (w', Inl e)
   | (w', Inr _) \<Rightarrow> (w', Inr True))"

text \<open>
  \<open>start_server\<close>: the process, the handoff, and only after a positive answer the pidfile. The
  returned object is the number of the process.
\<close>

definition start_server ::
  "'w sys \<Rightarrow> platform \<Rightarrow> pystr \<Rightarrow> pystr \<Rightarrow> pystr \<Rightarrow> ('w session, int) action" where
  "start_server sys pf basedir config_file key1 =
     doA (sy_spawn sys [lit ''--basedir'', basedir, lit ''--config-file'', config_file]) (\<lambda>pid s.
       case sy_child sys pid (case key1_message key1 of Inl _ \<Rightarrow> [] | Inr msg \<Rightarrow> msg) s of
         (s', sendall, answer) \<Rightarrow>
           (case snd (send_key1 (pf_exn_text pf) (sy_status_text sys) key1 sendall answer) of
              Inl e \<Rightarrow> (s', Inl e)
            | Inr _ \<Rightarrow>
                doA (pureA (utf8_encode (int_text pid))) (\<lambda>bs.
                doA (filesA (atomic_write_bytes (io_plan (sy_pid_io sys)) (io_tmp (sy_pid_io sys))
                       (pid_file_path basedir) bs)) (\<lambda>_. pureA (Inr pid))) s'))"

text \<open>
  The wait of \<open>stop_server\<close> for the process to end, by polling ten times a second up to the deadline.
\<close>

partial_function (option) await_exit :: "'w sys \<Rightarrow> int \<Rightarrow> int \<Rightarrow> 'w \<Rightarrow> ('w \<times> unit py) option" where
  "await_exit sys pid deadline w =
     (if sy_clock sys w < deadline then
        (case pid_is_alive sys pid w of
           (w', Inl e) \<Rightarrow> Some (w', Inl e)
         | (w', Inr alive) \<Rightarrow>
             if alive then await_exit sys pid deadline (sy_nap sys 100000 w') else Some (w', Inr ()))
      else Some (w, Inr ()))"

text \<open>The body of \<open>if _pid_is_alive(pid)\<close>: \<open>True\<close> if there was a process to stop.\<close>

definition terminate_pid :: "'w sys \<Rightarrow> int \<Rightarrow> int \<Rightarrow> 'w \<Rightarrow> ('w \<times> bool py) option" where
  "terminate_pid sys timeout pid w =
     (case pid_is_alive sys pid w of
        (w1, Inl e) \<Rightarrow> Some (w1, Inl e)
      | (w1, Inr alive) \<Rightarrow>
          if \<not> alive then Some (w1, Inr False)
          else (case sy_kill sys pid 15 w1 of
            (w2, Inl e) \<Rightarrow> Some (w2, Inl e)
          | (w2, Inr _) \<Rightarrow>
              (case await_exit sys pid (sy_clock sys w2 + timeout) w2 of
                 None \<Rightarrow> None
               | Some (w3, Inl e) \<Rightarrow> Some (w3, Inl e)
               | Some (w3, Inr _) \<Rightarrow> Some
                   (doA (pid_is_alive sys pid) (\<lambda>still. doA (if still then sy_kill sys pid 9 else pureA (Inr ()))
                      (\<lambda>_. pureA (Inr True))) w3))))"

definition read_pid :: "platform \<Rightarrow> path \<Rightarrow> files \<Rightarrow> int py" where
  "read_pid pf p fs =
     bindE (read_file fs p) (\<lambda>bs. bindE (utf8_decode bs) (\<lambda>text. int_of_text (pf_int pf) (str_strip text)))"

definition stop_server ::
  "'w sys \<Rightarrow> platform \<Rightarrow> pystr \<Rightarrow> int \<Rightarrow> 'w session \<Rightarrow> ('w session \<times> bool py) option" where
  "stop_server sys pf basedir timeout s =
     (case read_pid pf (pid_file_path basedir) (se_files s) of
        Inl e \<Rightarrow> Some (s, if e = FileNotFoundError \<or> is_value_error e then Inr False else Inl e)
      | Inr pid \<Rightarrow>
          (case terminate_pid sys timeout pid (se_world s) of
             None \<Rightarrow> None
           | Some (w, Inl e) \<Rightarrow> Some (s\<lparr>se_world := w\<rparr>, Inl e)
           | Some (w, Inr stopped) \<Rightarrow>
               Some (s\<lparr>se_world := w, se_files := (se_files s)(pid_file_path basedir := None)\<rparr>, Inr stopped)))"

definition STOP_TIMEOUT :: int where
  "STOP_TIMEOUT = 5000000"

section \<open>The command\<close>

text \<open>
  \<open>main\<close>, with the configuration that the library reads from \<open>config_file\<close>. A message that ends in the
  text of an exception takes it from the platform.
\<close>

definition is_recovery_error :: "pyexn \<Rightarrow> bool" where
  "is_recovery_error e \<longleftrightarrow> e = Key1ReconstructionError \<or> e = ShareReconstructionError"

definition is_start_error :: "pyexn \<Rightarrow> bool" where
  "is_start_error e \<longleftrightarrow> is_os_error e \<or> (case e of ServerStartupError _ \<Rightarrow> True | _ \<Rightarrow> False)"

definition failed_with :: "platform \<Rightarrow> string \<Rightarrow> pyexn \<Rightarrow> ('w session, 'a) action" where
  "failed_with pf message e =
     doA (echoA [Out (lit message @ pf_exn_text pf e)]) (\<lambda>_. pureA (Inl (SystemExit 1)))"

definition initiator_main ::
  "'w net \<Rightarrow> 'w sys \<Rightarrow> platform \<Rightarrow> pystr \<Rightarrow> pystr \<Rightarrow> pystr \<Rightarrow> bool \<Rightarrow> config \<Rightarrow> 'w session \<Rightarrow>
   ('w session \<times> unit py) option" where
  "initiator_main net sys pf uuid4 basedir config_file stop cfg s =
     (if stop then
        map_option (\<lambda>(s', r). (case r of
            Inl e \<Rightarrow> (s', Inl e)
          | Inr True \<Rightarrow> echoA [Out (lit ''status: OK - server stopped'')] s'
          | Inr False \<Rightarrow> echoA [Out (lit ''status: OK - nothing to stop'')] s'))
          (stop_server sys pf basedir STOP_TIMEOUT s)
      else case cfg_getboolean cfg (lit ''initiated'') of
        Inl e \<Rightarrow> Some (s, Inl e)
      | Inr False \<Rightarrow>
          Some (echoA [Out (lit ''status: not yet initiated - nothing to do (run setup_secretweb.py first)'')] s)
      | Inr True \<Rightarrow>
          map_option (\<lambda>(w, r).
              doA (tryA (\<lambda>s. (s, r)) is_recovery_error (failed_with pf ''status: FAILED to reconstruct key1: ''))
                (\<lambda>key1.
              doA (tryA (start_server sys pf basedir config_file key1) is_start_error
                     (failed_with pf ''status: FAILED to start server: ''))
                (\<lambda>_. echoA [Out (lit ''status: OK - key1 reconstructed, server started, port bound'')]))
              (s\<lparr>se_world := w\<rparr>))
            (collect_key1 net pf uuid4 basedir cfg (se_files s) (se_world s)))"

end
