(* ===== verification/ConfigFile.thy ===== *)
theory ConfigFile
  imports Config CryptoFile
begin

text \<open>
  The file \<open>config.ini\<close>: \<open>configparser\<close>'s reader and writer with the settings that the programs use
  (no inline comments, the prefixes \<open>#\<close> and \<open>;\<close>, the delimiters \<open>=\<close> and \<open>:\<close>, strict), and \<open>load_config\<close>,
  which three modules define alike. What is written is read back. The text of a file is decoded as a
  whole, and every error of the parser is \<open>ConfigError\<close>; interpolation, which leaves a value without a
  percent sign as it is, is not modelled.
\<close>

section \<open>Lines\<close>

text \<open>Universal newlines: the two carriage return forms become a line feed.\<close>

fun newlines :: "bool \<Rightarrow> pystr \<Rightarrow> pystr" where
  "newlines cr [] = []"
| "newlines cr (c # s) =
     (if c = 10 \<and> cr then newlines False s
      else if c = 13 then 10 # newlines True s
      else c # newlines False s)"

fun file_lines :: "pystr \<Rightarrow> pystr list" where
  "file_lines [] = []"
| "file_lines (c # s) =
     (if c = 10 then [] # file_lines s
      else case file_lines s of [] \<Rightarrow> [[c]] | l # ls \<Rightarrow> (c # l) # ls)"

definition rstrip :: "pystr \<Rightarrow> pystr" where
  "rstrip s = rev (dropWhile is_space (rev s))"

text \<open>The two regular expressions, on a stripped line: \<open>[header]\<close> up to the last bracket, and \<open>option = value\<close>.\<close>

definition section_header :: "pystr \<Rightarrow> pystr option" where
  "section_header line = (case line of
     [] \<Rightarrow> None
   | c # s \<Rightarrow>
       if c \<noteq> 91 then None
       else case dropWhile (\<lambda>c. c \<noteq> 93) (rev s) of
         [] \<Rightarrow> None
       | _ # header \<Rightarrow> if header = [] then None else Some (rev header))"

definition is_delimiter :: "nat \<Rightarrow> bool" where
  "is_delimiter c \<longleftrightarrow> c = 61 \<or> c = 58"

definition split_option :: "pystr \<Rightarrow> (pystr \<times> pystr) option" where
  "split_option line = (case dropWhile (\<lambda>c. \<not> is_delimiter c) line of
     [] \<Rightarrow> None
   | _ # v \<Rightarrow> Some (rstrip (takeWhile (\<lambda>c. \<not> is_delimiter c) line), str_strip v))"

section \<open>Reading\<close>

text \<open>The tables of a file, that of the defaults first. While it is read, a value is the list of its lines.\<close>

type_synonym ini = "(pystr \<times> pystr dict) list"

definition DEFAULT_SECTION :: pystr where
  "DEFAULT_SECTION = lit ''DEFAULT''"

record reader =
  rd_tables :: "(pystr \<times> pystr list dict) list"
  rd_section :: "pystr option"
  rd_option :: "pystr option"
  rd_indent :: nat

definition add_to_option :: "pystr \<Rightarrow> reader \<Rightarrow> reader" where
  "add_to_option v rd = (case (rd_section rd, rd_option rd) of
     (Some sec, Some opt) \<Rightarrow>
       rd\<lparr>rd_tables := map (\<lambda>(s, os). (s, if s = sec then map (\<lambda>(k, ls). (k, if k = opt then ls @ [v] else ls)) os else os))
            (rd_tables rd)\<rparr>
   | _ \<Rightarrow> rd)"

definition open_section :: "pystr \<Rightarrow> nat \<Rightarrow> reader \<Rightarrow> reader py" where
  "open_section name indent rd =
     (if name \<in> fst ` set (rd_tables rd) \<and> name \<noteq> DEFAULT_SECTION then Inl ConfigError
      else Inr (rd\<lparr>rd_tables := (if name = DEFAULT_SECTION then rd_tables rd else rd_tables rd @ [(name, [])]),
                  rd_section := Some name, rd_option := None, rd_indent := indent\<rparr>))"

definition new_option :: "pystr \<Rightarrow> pystr \<Rightarrow> pystr \<Rightarrow> nat \<Rightarrow> reader \<Rightarrow> reader py" where
  "new_option sec opt v indent rd =
     (if opt = [] \<or> (\<exists>(s, os) \<in> set (rd_tables rd). s = sec \<and> opt \<in> fst ` set os) then Inl ConfigError
      else Inr (rd\<lparr>rd_tables := map (\<lambda>(s, os). (s, if s = sec then os @ [(opt, [v])] else os)) (rd_tables rd),
                  rd_option := Some opt, rd_indent := indent\<rparr>))"

definition read_line :: "(pystr \<Rightarrow> pystr) \<Rightarrow> pystr \<Rightarrow> reader \<Rightarrow> reader py" where
  "read_line lower line rd =
     (let text = str_strip line; indent = length (takeWhile is_space line) in
      if take 1 text = [35] \<or> take 1 text = [59] then Inr rd
      else if text = [] then Inr (add_to_option [] rd)
      else if rd_option rd \<noteq> None \<and> rd_indent rd < indent then Inr (add_to_option text rd)
      else case section_header text of
        Some name \<Rightarrow> open_section name indent rd
      | None \<Rightarrow>
          (case (rd_section rd, split_option text) of
             (Some sec, Some (opt, v)) \<Rightarrow> new_option sec (lower opt) v indent rd
           | _ \<Rightarrow> Inl ConfigError))"

fun read_lines :: "(pystr \<Rightarrow> pystr) \<Rightarrow> pystr list \<Rightarrow> reader \<Rightarrow> reader py" where
  "read_lines lower [] rd = Inr rd"
| "read_lines lower (line # lines) rd = bindE (read_line lower line rd) (read_lines lower lines)"

fun join_lines :: "pystr list \<Rightarrow> pystr" where
  "join_lines [] = []"
| "join_lines [l] = l"
| "join_lines (l # ls) = l @ 10 # join_lines ls"

definition joined_tables :: "(pystr \<times> pystr list dict) list \<Rightarrow> ini" where
  "joined_tables = map (\<lambda>(s, os). (s, map (\<lambda>(k, ls). (k, rstrip (join_lines ls))) os))"

definition read_ini :: "(pystr \<Rightarrow> pystr) \<Rightarrow> pystr \<Rightarrow> ini py" where
  "read_ini lower text =
     bindE (read_lines lower (file_lines (newlines False text))
        \<lparr>rd_tables = [(DEFAULT_SECTION, [])], rd_section = None, rd_option = None, rd_indent = 0\<rparr>)
       (\<lambda>rd. Inr (joined_tables (rd_tables rd)))"

text \<open>\<open>load_config\<close>: a file that cannot be opened counts as empty.\<close>

definition load_config :: "(pystr \<Rightarrow> pystr) \<Rightarrow> path \<Rightarrow> files \<Rightarrow> ini py" where
  "load_config lower config_file fs = (case read_file fs config_file of
     Inl e \<Rightarrow> if is_os_error e then Inr [(DEFAULT_SECTION, [])] else Inl e
   | Inr bs \<Rightarrow> bindE (utf8_decode bs) (read_ini lower))"

text \<open>The options of the section \<open>secretweb\<close>, those of the defaults among them.\<close>

definition secretweb_section :: "ini \<Rightarrow> config" where
  "secretweb_section ini = (case map_of ini (lit ''secretweb'') of
     None \<Rightarrow> None
   | Some own \<Rightarrow> Some (dict_merge (case map_of ini DEFAULT_SECTION of None \<Rightarrow> [] | Some d \<Rightarrow> d) own))"

text \<open>
  The path of the file: every command takes it as an option.
\<close>

definition config_path :: "pystr \<Rightarrow> pystr option \<Rightarrow> path" where
  "config_path basedir config_file = (case config_file of
     None \<Rightarrow> path_join (path_join basedir (lit ''data'')) (lit ''config.ini'')
   | Some p \<Rightarrow> p)"

text \<open>A change to the section's own options.\<close>

definition with_options :: "(pystr dict \<Rightarrow> pystr dict) \<Rightarrow> ini \<Rightarrow> ini" where
  "with_options f ini =
     AList.update (lit ''secretweb'') (f (case map_of ini (lit ''secretweb'') of None \<Rightarrow> [] | Some own \<Rightarrow> own)) ini"

section \<open>Writing\<close>

definition option_line :: "pystr \<times> pystr \<Rightarrow> pystr" where
  "option_line = (\<lambda>(k, v). k @ lit '' = '' @ concat (map (\<lambda>c. if c = 10 then [10, 9] else [c]) v))"

definition section_text :: "pystr \<times> pystr dict \<Rightarrow> pystr" where
  "section_text = (\<lambda>(name, opts). [91] @ name @ [93, 10] @ concat (map (\<lambda>kv. option_line kv @ [10]) opts) @ [10])"

text \<open>\<open>config.write\<close>: the defaults only if there are any.\<close>

definition write_ini :: "ini \<Rightarrow> pystr" where
  "write_ini ini = concat (map section_text (filter (\<lambda>(name, opts). name \<noteq> DEFAULT_SECTION \<or> opts \<noteq> []) ini))"

section \<open>What is written is read back\<close>

text \<open>Texts that fit on their line: no line break, no space at either end.\<close>

definition one_line :: "pystr \<Rightarrow> bool" where
  "one_line s \<longleftrightarrow> 10 \<notin> set s \<and> 13 \<notin> set s \<and> (s \<noteq> [] \<longrightarrow> \<not> is_space (hd s) \<and> \<not> is_space (last s))"

definition name_ok :: "(pystr \<Rightarrow> pystr) \<Rightarrow> pystr \<Rightarrow> bool" where
  "name_ok lower k \<longleftrightarrow> k \<noteq> [] \<and> one_line k \<and> list_all (\<lambda>c. \<not> is_delimiter c) k \<and> hd k \<notin> {35, 59, 91} \<and> lower k = k"

definition option_ok :: "(pystr \<Rightarrow> pystr) \<Rightarrow> pystr \<times> pystr \<Rightarrow> bool" where
  "option_ok lower = (\<lambda>(k, v). name_ok lower k \<and> one_line v)"

definition table_ok_ini :: "(pystr \<Rightarrow> pystr) \<Rightarrow> pystr \<times> pystr dict \<Rightarrow> bool" where
  "table_ok_ini lower = (\<lambda>(name, opts). name \<noteq> [] \<and> 10 \<notin> set name \<and> 13 \<notin> set name \<and> dict_ok opts \<and>
     list_all (option_ok lower) opts)"

definition ini_ok :: "(pystr \<Rightarrow> pystr) \<Rightarrow> ini \<Rightarrow> bool" where
  "ini_ok lower ini \<longleftrightarrow> (\<exists>defaults tables. ini = (DEFAULT_SECTION, defaults) # tables) \<and>
     distinct (map fst ini) \<and> list_all (table_ok_ini lower) ini"

lemma dropWhile_hd: "\<not> P (hd s) \<Longrightarrow> dropWhile P s = s"
  by (cases s) auto

lemma rstrip_Nil [simp]: "rstrip [] = []"
  by (simp add: rstrip_def)

lemma rstrip_last: "\<not> is_space (last s) \<Longrightarrow> rstrip s = s"
  by (cases s rule: rev_cases) (auto simp: rstrip_def)

lemma str_strip_rstrip: "str_strip s = rstrip (dropWhile is_space s)"
  by (simp add: str_strip_def rstrip_def)

lemma rstrip_spaces: "list_all is_space t \<Longrightarrow> rstrip (s @ t) = rstrip s"
  by (simp add: rstrip_def dropWhile_append list_all_iff)

lemma one_line_rstrip: "one_line s \<Longrightarrow> rstrip s = s"
  by (cases "s = []") (auto simp: one_line_def rstrip_last)

lemma one_line_strip: "one_line s \<Longrightarrow> str_strip s = s"
  by (cases "s = []") (auto simp: one_line_def str_strip_rstrip dropWhile_hd rstrip_last)

lemma spaces: "is_space 32" "is_space 10" "\<not> is_space 61" "\<not> is_space 91" "\<not> is_space 93" "is_delimiter 61" "\<not> is_delimiter 32"
  by (simp_all add: is_space_def is_delimiter_def)

text \<open>The lines of what is written.\<close>

lemma newlines_plain: "13 \<notin> set s \<Longrightarrow> newlines False s = s"
  by (induction s) auto

lemma file_lines_step: "10 \<notin> set l \<Longrightarrow> file_lines (l @ 10 # s) = l # file_lines s"
  by (induction l) auto

definition plain_option :: "pystr \<times> pystr \<Rightarrow> pystr" where
  "plain_option = (\<lambda>(k, v). k @ [32, 61, 32] @ v)"

definition section_lines :: "pystr \<times> pystr dict \<Rightarrow> pystr list" where
  "section_lines = (\<lambda>(name, opts). ([91] @ name @ [93]) # map plain_option opts @ [[]])"

lemma option_line_plain:
  assumes "option_ok lower kv"
  shows "option_line kv = plain_option kv" "10 \<notin> set (plain_option kv)" "13 \<notin> set (plain_option kv)"
proof -
  obtain k v where kv: "kv = (k, v)" by (rule prod.exhaust)
  have "10 \<notin> set v" using assms kv by (simp add: option_ok_def name_ok_def one_line_def)
  then have "concat (map (\<lambda>c. if c = 10 then [10, 9] else [c]) v) = v" by (induction v) auto
  then show "option_line kv = plain_option kv" by (simp add: kv option_line_def plain_option_def lit_def)
  show "10 \<notin> set (plain_option kv)" "13 \<notin> set (plain_option kv)"
    using assms kv by (auto simp: option_ok_def name_ok_def one_line_def plain_option_def)
qed

lemma file_lines_options:
  assumes "list_all (option_ok lower) opts"
  shows "file_lines (concat (map (\<lambda>kv. option_line kv @ [10]) opts) @ s) = map plain_option opts @ file_lines s"
  using assms
proof (induction opts)
  case (Cons kv opts)
  then have kv: "option_ok lower kv" by simp
  from Cons file_lines_step [OF option_line_plain(2) [OF kv]] show ?case by (simp add: option_line_plain(1) [OF kv])
qed simp

lemma file_lines_sections:
  assumes "list_all (table_ok_ini lower) tables"
  shows "file_lines (concat (map section_text tables)) = concat (map section_lines tables)"
  using assms
proof (induction tables)
  case (Cons table tables)
  obtain name opts where t: "table = (name, opts)" by (rule prod.exhaust)
  then have ok: "10 \<notin> set ([91] @ name @ [93])" "list_all (option_ok lower) opts"
    using Cons.prems by (auto simp: table_ok_ini_def)
  have "file_lines (section_text table @ s) = section_lines table @ file_lines s" for s
    using file_lines_step [OF ok(1), of "concat (map (\<lambda>kv. option_line kv @ [10]) opts) @ 10 # s"]
      file_lines_options [OF ok(2), of "10 # s"] by (simp add: t section_text_def section_lines_def)
  then show ?case using Cons by simp
qed simp

lemma section_text_no_return:
  assumes "table_ok_ini lower table"
  shows "13 \<notin> set (section_text table)"
proof -
  obtain name opts where t: "table = (name, opts)" by (rule prod.exhaust)
  then have ok: "13 \<notin> set name" "\<forall>kv \<in> set opts. option_ok lower kv"
    using assms by (auto simp: table_ok_ini_def list_all_iff)
  then have "\<forall>kv \<in> set opts. 13 \<notin> set (option_line kv)" using option_line_plain(1,3) by metis
  then show ?thesis using ok(1) by (simp add: t section_text_def)
qed

text \<open>Reading one line of each kind.\<close>

lemma read_header:
  assumes "name \<noteq> []" "rd_indent rd = 0"
  shows "read_line lower ([91] @ name @ [93]) rd = open_section name 0 rd"
proof -
  have "str_strip ([91] @ name @ [93]) = [91] @ name @ [93]"
    by (simp add: str_strip_rstrip rstrip_last spaces)
  moreover have "section_header ([91] @ name @ [93]) = Some name"
    using assms(1) by (simp add: section_header_def)
  ultimately show ?thesis using assms(2) by (simp add: read_line_def spaces)
qed

lemma read_option:
  assumes "option_ok lower (k, v)" "rd_indent rd = 0" "rd_section rd = Some sec"
  shows "read_line lower (plain_option (k, v)) rd = new_option sec k v 0 rd"
proof -
  obtain c k' where k: "k = c # k'" "\<not> is_space c" "c \<notin> {35, 59, 91}"
    using assms(1) by (cases k) (auto simp: option_ok_def name_ok_def one_line_def)
  have nd: "list_all (\<lambda>c. \<not> is_delimiter c) k" "lower k = k" using assms(1) by (auto simp: option_ok_def name_ok_def)
  define t where "t = str_strip (plain_option (k, v))"
  have t: "t = (if v = [] then k @ [32, 61] else plain_option (k, v))"
  proof (cases "v = []")
    case True
    have "rstrip (k @ [32, 61] @ [32]) = rstrip (k @ [32, 61])" using rstrip_spaces [of "[32]" "k @ [32, 61]"] by (simp add: spaces)
    also have "\<dots> = k @ [32, 61]" by (simp add: rstrip_last spaces)
    finally show ?thesis using True k(1,2) by (simp add: t_def str_strip_rstrip plain_option_def)
  next
    case False
    then have "\<not> is_space (last v)" using assms(1) by (simp add: option_ok_def name_ok_def one_line_def)
    then show ?thesis using False k(1,2) by (simp add: t_def str_strip_rstrip plain_option_def rstrip_last)
  qed
  have "takeWhile (\<lambda>c. \<not> is_delimiter c) t = k @ [32]" "dropWhile (\<lambda>c. \<not> is_delimiter c) t = (if v = [] then [61] else [61, 32] @ v)"
    using nd(1) by (auto simp: t plain_option_def takeWhile_append dropWhile_append list_all_iff spaces)
  moreover have "rstrip (k @ [32]) = k" using rstrip_spaces [of "[32]" k] one_line_rstrip [of k] assms(1) by (simp add: spaces option_ok_def name_ok_def)
  moreover have "str_strip ([32] @ v) = v" using one_line_strip [of v] assms(1) by (simp add: option_ok_def name_ok_def str_strip_def spaces)
  moreover have "str_strip [] = []" by (simp add: str_strip_def)
  ultimately have "split_option t = Some (k, v)" by (auto simp: split_option_def)
  moreover have "section_header t = None" "take 1 t = [c]" using k(1,3) by (auto simp: t section_header_def plain_option_def)
  moreover have "takeWhile is_space (plain_option (k, v)) = []" using k(1,2) by (simp add: plain_option_def)
  ultimately show ?thesis using assms(2,3) k nd(2) unfolding read_line_def t_def [symmetric] Let_def
    by (auto simp: t plain_option_def)
qed

lemma read_blank: "read_line lower [] rd = Inr (add_to_option [] rd)"
  by (simp add: read_line_def str_strip_def)

text \<open>Reading sections, one after the other.\<close>

lemma read_lines_append: "read_lines lower (xs @ ys) rd = bindE (read_lines lower xs rd) (read_lines lower ys)"
proof (induction xs arbitrary: rd)
  case (Cons x xs)
  then show ?case by (cases "read_line lower x rd") simp_all
qed simp

lemma read_options:
  assumes "list_all (option_ok lower) opts" "dict_ok (os @ map (\<lambda>(k, v). (k, [v])) opts)"
    and "rd_tables rd = tables @ [(sec, os)]" "sec \<notin> fst ` set tables" "rd_section rd = Some sec" "rd_indent rd = 0"
  shows "\<exists>rd'. read_lines lower (map plain_option opts) rd = Inr rd' \<and>
    rd_tables rd' = tables @ [(sec, os @ map (\<lambda>(k, v). (k, [v])) opts)] \<and> rd_indent rd' = 0"
  using assms
proof (induction opts arbitrary: os rd)
  case (Cons kv opts)
  obtain k v where kv: "kv = (k, v)" by (rule prod.exhaust)
  have new: "k \<noteq> []" "k \<notin> fst ` set os" using Cons.prems(1,2) kv by (auto simp: option_ok_def name_ok_def dict_ok_def)
  define rd1 where "rd1 = rd\<lparr>rd_tables := tables @ [(sec, os @ [(k, [v])])], rd_option := Some k, rd_indent := 0\<rparr>"
  have "map (\<lambda>(s, os). (s, if s = sec then os @ [(k, [v])] else os)) tables = tables"
    using Cons.prems(4) by (intro map_idI) force
  then have "new_option sec k v 0 rd = Inr rd1"
    using new Cons.prems(3,4) by (force simp: new_option_def rd1_def)
  then have "read_line lower (plain_option kv) rd = Inr rd1"
    using read_option [of lower k v rd sec] Cons.prems(1,5,6) kv by simp
  moreover obtain rd' where "read_lines lower (map plain_option opts) rd1 = Inr rd'"
      "rd_tables rd' = tables @ [(sec, (os @ [(k, [v])]) @ map (\<lambda>(k, v). (k, [v])) opts)]" "rd_indent rd' = 0"
    using Cons.IH [of "os @ [(k, [v])]" rd1] Cons.prems kv by (auto simp: rd1_def)
  ultimately show ?case using kv by simp
qed simp

lemma joined_blank: "rstrip (join_lines (ls @ [[]])) = rstrip (join_lines ls)"
proof -
  have "join_lines (ls @ [[]]) = (if ls = [] then [] else join_lines ls @ [10])"
    by (induction ls rule: join_lines.induct) auto
  then show ?thesis using rstrip_spaces [of "[10]"] by (auto simp: spaces)
qed

lemma add_blank: "joined_tables (rd_tables (add_to_option [] rd)) = joined_tables (rd_tables rd)"
  by (auto simp: add_to_option_def joined_tables_def joined_blank split: option.splits)

lemma add_blank_indent: "rd_indent (add_to_option v rd) = rd_indent rd"
  by (simp add: add_to_option_def split: option.splits)

lemma joined_names: "fst ` set (joined_tables tables) = fst ` set tables"
  by (force simp: joined_tables_def)

lemma read_section:
  assumes "table_ok_ini lower (name, opts)" "rd_indent rd = 0"
    and "rd_tables rd = (if name = DEFAULT_SECTION then [(DEFAULT_SECTION, [])] else tables)"
    and "name \<noteq> DEFAULT_SECTION \<Longrightarrow> name \<notin> fst ` set tables"
    and "name = DEFAULT_SECTION \<Longrightarrow> tables = []"
  shows "\<exists>rd'. read_lines lower (section_lines (name, opts)) rd = Inr rd' \<and>
    joined_tables (rd_tables rd') = joined_tables tables @ [(name, opts)] \<and> rd_indent rd' = 0"
proof -
  have ok: "name \<noteq> []" "dict_ok opts" "list_all (option_ok lower) opts" using assms(1) by (simp_all add: table_ok_ini_def)
  define rd1 where "rd1 = rd\<lparr>rd_tables := tables @ [(name, [])], rd_section := Some name, rd_option := None, rd_indent := 0\<rparr>"
  have head: "read_line lower ([91] @ name @ [93]) rd = Inr rd1"
    unfolding read_header [OF ok(1) assms(2)]
  proof (cases "name = DEFAULT_SECTION")
    case True
    then show "open_section name 0 rd = Inr rd1"
      using assms(3) assms(5) [OF True] by (simp add: open_section_def rd1_def)
  next
    case False
    then show "open_section name 0 rd = Inr rd1"
      using assms(3) assms(4) [OF False] by (simp add: open_section_def rd1_def)
  qed
  have fresh: "name \<notin> fst ` set tables" using assms(4,5) by (cases "name = DEFAULT_SECTION") auto
  have "map (fst \<circ> (\<lambda>(k, v). (k, [v]))) opts = map fst opts" by auto
  then have opts: "dict_ok ([] @ map (\<lambda>(k, v). (k, [v])) opts)" using ok(2) by (simp add: dict_ok_def del: map_eq_conv)
  have start: "rd_tables rd1 = tables @ [(name, [])]" "rd_section rd1 = Some name" "rd_indent rd1 = 0" by (simp_all add: rd1_def)
  obtain rd2 where rd2: "read_lines lower (map plain_option opts) rd1 = Inr rd2"
      "rd_tables rd2 = tables @ [(name, map (\<lambda>(k, v). (k, [v])) opts)]" "rd_indent rd2 = 0"
    using read_options [OF ok(3) opts start(1) fresh start(2,3)] unfolding append_Nil by blast
  have "map (\<lambda>(k, ls). (k, rstrip (join_lines ls))) (map (\<lambda>(k, v). (k, [v])) opts) = opts"
    using ok(3) by (induction opts) (auto simp: option_ok_def name_ok_def one_line_rstrip)
  then have "joined_tables (rd_tables rd2) = joined_tables tables @ [(name, opts)]"
    by (simp add: rd2(2) joined_tables_def)
  then show ?thesis using head rd2(1,3)
    by (simp add: section_lines_def read_lines_append read_blank add_blank add_blank_indent)
qed

lemma read_sections:
  assumes "list_all (table_ok_ini lower) ini" "distinct (map fst ini)" "rd_indent rd = 0"
    and "fst ` set ini \<inter> fst ` set (rd_tables rd) = {}" "DEFAULT_SECTION \<notin> fst ` set ini"
  shows "\<exists>rd'. read_lines lower (concat (map section_lines ini)) rd = Inr rd' \<and>
    joined_tables (rd_tables rd') = joined_tables (rd_tables rd) @ ini"
  using assms
proof (induction ini arbitrary: rd)
  case (Cons table ini)
  obtain name opts where t: "table = (name, opts)" by (rule prod.exhaust)
  have "name \<noteq> DEFAULT_SECTION" "name \<notin> fst ` set (rd_tables rd)" using Cons.prems(4,5) t by auto
  then obtain rd1 where rd1: "read_lines lower (section_lines (name, opts)) rd = Inr rd1"
      "joined_tables (rd_tables rd1) = joined_tables (rd_tables rd) @ [(name, opts)]" "rd_indent rd1 = 0"
    using read_section [of lower name opts rd "rd_tables rd"] Cons.prems(1,3) t by auto
  have "fst ` set (rd_tables rd1) = insert name (fst ` set (rd_tables rd))"
    using arg_cong [OF rd1(2), of "\<lambda>x. fst ` set x"] by (simp add: joined_names)
  then have "fst ` set ini \<inter> fst ` set (rd_tables rd1) = {}" using Cons.prems(2,4) t by auto
  then obtain rd' where "read_lines lower (concat (map section_lines ini)) rd1 = Inr rd'"
      "joined_tables (rd_tables rd') = joined_tables (rd_tables rd1) @ ini"
    using Cons.IH [of rd1] Cons.prems rd1(3) by auto
  then show ?case using rd1 t by (simp add: read_lines_append)
qed simp

lemma written_lines:
  assumes "list_all (table_ok_ini lower) ini"
  shows "file_lines (newlines False (write_ini ini)) =
    concat (map section_lines (filter (\<lambda>(name, opts). name \<noteq> DEFAULT_SECTION \<or> opts \<noteq> []) ini))"
proof -
  let ?shown = "filter (\<lambda>(name, opts). name \<noteq> DEFAULT_SECTION \<or> opts \<noteq> []) ini"
  have ok: "list_all (table_ok_ini lower) ?shown" using assms by (auto simp: list_all_iff)
  then have "13 \<notin> set (write_ini ini)" using section_text_no_return [of lower] by (auto simp: write_ini_def list_all_iff)
  then show ?thesis using file_lines_sections [OF ok] by (simp add: newlines_plain write_ini_def)
qed

lemma read_written_ini:
  assumes "ini_ok lower ini"
  shows "read_ini lower (write_ini ini) = Inr ini"
proof -
  obtain defaults tables where ini: "ini = (DEFAULT_SECTION, defaults) # tables" using assms by (auto simp: ini_ok_def)
  have ok: "list_all (table_ok_ini lower) tables" "distinct (map fst tables)" "DEFAULT_SECTION \<notin> fst ` set tables"
    "table_ok_ini lower (DEFAULT_SECTION, defaults)" "list_all (table_ok_ini lower) ini"
    using assms ini by (auto simp: ini_ok_def)
  have shown: "filter (\<lambda>(name, opts). name \<noteq> DEFAULT_SECTION \<or> opts \<noteq> []) tables = tables"
    using ok(3) by (induction tables) auto
  let ?rd = "\<lparr>rd_tables = [(DEFAULT_SECTION, [])], rd_section = None, rd_option = None, rd_indent = 0\<rparr>"
  have "\<exists>rd1. read_lines lower (if defaults = [] then [] else section_lines (DEFAULT_SECTION, defaults)) ?rd = Inr rd1 \<and>
      joined_tables (rd_tables rd1) = [(DEFAULT_SECTION, defaults)] \<and> rd_indent rd1 = 0"
    using read_section [OF ok(4), of ?rd "[]"] by (cases "defaults = []") (simp_all add: joined_tables_def)
  then obtain rd1 where rd1: "read_lines lower (if defaults = [] then [] else section_lines (DEFAULT_SECTION, defaults)) ?rd = Inr rd1"
      "joined_tables (rd_tables rd1) = [(DEFAULT_SECTION, defaults)]" "rd_indent rd1 = 0" by blast
  have "fst ` set (rd_tables rd1) = {DEFAULT_SECTION}"
    using arg_cong [OF rd1(2), of "\<lambda>x. fst ` set x"] by (simp add: joined_names)
  then obtain rd' where rd': "read_lines lower (concat (map section_lines tables)) rd1 = Inr rd'"
      "joined_tables (rd_tables rd') = ini"
    using read_sections [OF ok(1,2) rd1(3) _ ok(3)] ok(3) rd1(2) by (auto simp: ini)
  have "file_lines (newlines False (write_ini ini)) =
      (if defaults = [] then [] else section_lines (DEFAULT_SECTION, defaults)) @ concat (map section_lines tables)"
    using written_lines [OF ok(5)] unfolding ini filter.simps shown by simp
  then show ?thesis using rd1(1) rd' by (simp add: read_ini_def read_lines_append)
qed

text \<open>The writer and the reader as codecs, of texts and of bytes.\<close>

interpretation config_codec: codec_pair "\<lambda>ini. Inr (write_ini ini)" "read_ini lower"
  "\<lambda>ini. ini_ok lower ini \<and> list_all is_scalar (write_ini ini)" utf8_encode utf8_decode "list_all is_scalar" for lower
  by unfold_locales (auto simp: read_written_ini)

lemma load_written_config:
  assumes "ini_ok lower ini" "utf8_encode (write_ini ini) = Inr bs" "fs config_file = Some bs"
  shows "load_config lower config_file fs = Inr ini"
proof -
  have "list_all is_scalar (write_ini ini)"
    using assms(2) by (cases "list_all is_scalar (write_ini ini)") (simp_all add: utf8_encode_def)
  then show ?thesis
    using config_codec.both.dec_enc [of lower ini bs] assms by (simp add: load_config_def read_file_def)
qed

end
