(* ===== verification/Setup.thy ===== *)
theory Setup
  imports Initiator ConfigFile "HOL-Library.List_Lexorder"
begin

text \<open>
  The model of \<open>src/setup_secretweb.py\<close>: the interactive bootstrap of a host. The answers at the
  prompts are a list of the texts that \<open>click\<close> returns, in order; a confirmation is the text \<open>y\<close> or
  another. Reading a certificate, today's date, the fresh KEY1 and the like are arguments.
\<close>

section \<open>Existing data\<close>

definition DATA_FILENAMES :: "pystr list" where
  "DATA_FILENAMES = [HOSTS_FILENAME, HOSTS_PLAINTEXT_FILENAME, SITES_FILENAME, SITES_PLAINTEXT_FILENAME,
     SECRETS_FILENAME]"

definition MIN_SERVERS :: nat where "MIN_SERVERS = 3"
definition MIN_CONTROLLERS :: nat where "MIN_CONTROLLERS = 1"
definition CONFIRM_PHRASE :: pystr where "CONFIRM_PHRASE = lit ''yes, erase everything''"

definition existing_data_files :: "pystr \<Rightarrow> files \<Rightarrow> pystr list" where
  "existing_data_files data_dir fs = filter (\<lambda>name. path_exists fs (path_join data_dir name)) DATA_FILENAMES"

definition reset_warning :: "pystr list \<Rightarrow> echo list" where
  "reset_warning existing =
     [Out [], Out (lit ''WARNING: existing secretweb data was found on this host:'')] @
     map (\<lambda>name. Out (lit ''  - '' @ name)) existing @
     [Out [], Out (lit ''Continuing will generate a brand new KEY1 and replace these files.''),
      Out (lit ''The old files are renamed, not deleted - but without the old KEY1''),
      Out (lit ''(which is never kept), they can never be decrypted again. Every host''),
      Out (lit ''and secret this host currently knows about is effectively gone.''), Out []]"

definition confirm_destructive_reset :: "pystr list \<Rightarrow> ('w session, unit) action" where
  "confirm_destructive_reset existing =
     doA (echoA (reset_warning existing)) (\<lambda>_.
     doA inputA (\<lambda>typed.
       if str_strip typed \<noteq> CONFIRM_PHRASE
       then doA (echoA [Out (lit ''Aborted - nothing was changed.'')]) (\<lambda>_. pureA (Inl (SystemExit 1)))
       else pureA (Inr ())))"

definition stop_existing_server :: "'w sys \<Rightarrow> platform \<Rightarrow> pystr \<Rightarrow> ('w session, unit) partial_action" where
  "stop_existing_server sys pf basedir =
     doP (stop_server sys pf basedir STOP_TIMEOUT) (\<lambda>stopped. totalP
       (echoA (if stopped then [Out (lit ''stopped a previously running server for this basedir.'')] else [])))"

text \<open>\<open>_archive_path\<close>: the first free name. The loop ends unless there are infinitely many files.\<close>

partial_function (option) archive_candidate :: "files \<Rightarrow> path \<Rightarrow> pystr \<Rightarrow> nat \<Rightarrow> path option" where
  "archive_candidate fs path tag counter =
     (let candidate = path @ lit ''.old.'' @ tag @ (if counter = 0 then [] else lit ''-'' @ dec_digits counter) in
      if path_exists fs candidate then archive_candidate fs path tag (Suc counter) else Some candidate)"

definition archive_path :: "files \<Rightarrow> path \<Rightarrow> pystr \<Rightarrow> path option" where
  "archive_path fs path tag = archive_candidate fs path tag 0"

definition rename :: "path \<Rightarrow> path \<Rightarrow> files \<Rightarrow> files \<times> unit py" where
  "rename src dst fs = (case fs src of
     None \<Rightarrow> (fs, Inl FileNotFoundError)
   | Some bs \<Rightarrow> (fs(src := None, dst := Some bs), Inr ()))"

definition basename :: "path \<Rightarrow> pystr" where
  "basename p = rev (takeWhile (\<lambda>c. c \<noteq> 47) (rev p))"

fun archive_existing_files :: "pystr \<Rightarrow> pystr \<Rightarrow> pystr list \<Rightarrow> ('w session, unit) partial_action" where
  "archive_existing_files data_dir tag [] s = Some (s, Inr ())"
| "archive_existing_files data_dir tag (name # existing) s =
     (let path = path_join data_dir name in
      case archive_path (se_files s) path tag of
        None \<Rightarrow> None
      | Some archived \<Rightarrow>
          doP (totalP (doA (filesA (rename path archived)) (\<lambda>_.
                 echoA [Out (lit ''renamed '' @ name @ lit '' -> '' @ basename archived)])))
            (\<lambda>_. archive_existing_files data_dir tag existing) s)"

section \<open>The list of hosts\<close>

record setup_host =
  sh_name :: pystr
  sh_addresses :: "pystr list"
  sh_role :: pystr

text \<open>\<open>raw.split(",")\<close>\<close>

fun split_on :: "nat \<Rightarrow> pystr \<Rightarrow> pystr list" where
  "split_on c [] = [[]]"
| "split_on c (x # xs) =
     (if x = c then [] # split_on c xs
      else case split_on c xs of [] \<Rightarrow> [[x]] | p # ps \<Rightarrow> (x # p) # ps)"

definition addresses_of :: "pystr \<Rightarrow> pystr list" where
  "addresses_of raw = map str_strip (filter (\<lambda>a. str_strip a \<noteq> []) (split_on 44 raw))"

fun prompt_addresses :: "pystr list dialog" where
  "prompt_addresses [] = ([], [], Inl Abort)"
| "prompt_addresses (raw # input) =
     (if addresses_of raw \<noteq> [] then (input, [], Inr (addresses_of raw))
      else case prompt_addresses input of
        (rest, es, r) \<Rightarrow> (rest, Out (lit ''at least one address is required'') # es, r))"

fun prompt_role :: "pystr dialog" where
  "prompt_role [] = ([], [], Inl Abort)"
| "prompt_role (role # input) = (input, [], Inr role)"

fun prompt_host :: "setup_host option dialog" where
  "prompt_host [] = ([], [], Inl Abort)"
| "prompt_host (name # input) =
     (if name = [] then (input, [], Inr None)
      else case prompt_addresses input of
        (input1, es1, Inl e) \<Rightarrow> (input1, es1, Inl e)
      | (input1, es1, Inr addresses) \<Rightarrow>
          (case prompt_role input1 of
             (input2, es2, Inl e) \<Rightarrow> (input2, es1 @ es2, Inl e)
           | (input2, es2, Inr role) \<Rightarrow> (input2, es1 @ es2,
               Inr (Some \<lparr>sh_name = name, sh_addresses = addresses, sh_role = role\<rparr>))))"

definition tally :: "setup_host list \<Rightarrow> nat \<times> nat" where
  "tally hosts = (length (filter (\<lambda>h. sh_role h = lit ''server'') hosts),
     length (filter (\<lambda>h. sh_role h = lit ''controller'') hosts))"

definition tally_line :: "setup_host list \<Rightarrow> echo" where
  "tally_line hosts = Out (lit ''(so far: '' @ dec_digits (fst (tally hosts)) @ lit '' server(s), '' @
     dec_digits (snd (tally hosts)) @ lit '' controller(s))'')"

definition minimum_met :: "setup_host list \<Rightarrow> bool" where
  "minimum_met hosts \<longleftrightarrow> MIN_SERVERS \<le> fst (tally hosts) \<and> MIN_CONTROLLERS \<le> snd (tally hosts)"

lemma prompt_addresses_rest: "length (fst (prompt_addresses input)) \<le> length input"
  by (induction input) (auto split: prod.split)

lemma prompt_role_rest: "length (fst (prompt_role input)) \<le> length input"
  by (cases input) auto

lemma prompt_host_rest: "prompt_host input = (rest, es, Inr h) \<Longrightarrow> length rest < length input"
proof (cases input)
  case (Cons name input')
  assume "prompt_host input = (rest, es, Inr h)"
  with Cons prompt_addresses_rest [of input'] show ?thesis
    by (auto split: if_splits prod.splits sum.splits) (metis fst_conv le_trans less_Suc_eq_le prompt_role_rest)
qed simp

text \<open>The loop of \<open>_collect_hosts\<close>; every round reads at least one answer.\<close>

function collect_loop :: "setup_host list \<Rightarrow> setup_host list dialog" where
  "collect_loop hosts input =
     (case prompt_host input of
        (rest, es, Inl e) \<Rightarrow> (rest, tally_line hosts # es, Inl e)
      | (rest, es, Inr None) \<Rightarrow>
          if minimum_met hosts \<and> hosts \<noteq> [] then (rest, tally_line hosts # es, Inr hosts)
          else (case collect_loop hosts rest of
            (rest', es', r) \<Rightarrow> (rest', tally_line hosts # es @ Out (lit ''Need at least 3 servers and 1 '' @
               lit ''controller before finishing - a host is required'') # es', r))
      | (rest, es, Inr (Some host)) \<Rightarrow>
          (case collect_loop (hosts @ [host]) rest of
            (rest', es', r) \<Rightarrow> (rest', tally_line hosts # es @ es', r)))"
  by pat_completeness auto
termination
  by (relation "measure (length \<circ> snd)") (auto dest: prompt_host_rest [OF sym])

declare collect_loop.simps [simp del]

definition collect_hosts :: "setup_host list dialog" where
  "collect_hosts input =
     (case collect_loop [] input of (rest, es, r) \<Rightarrow>
        (rest, [Out [], Out (lit ''A minimum of 3 servers and 1 controller is needed for the initial bootstrap '' @
           lit ''to succeed. Enter every host in the network, including this one.'')] @ es, r))"

section \<open>This host\<close>

definition own_hostname_from_cert ::
  "(byte list \<Rightarrow> pystr py) \<Rightarrow> pystr \<Rightarrow> config \<Rightarrow> files \<Rightarrow> pystr py" where
  "own_hostname_from_cert common_name basedir cfg fs =
     bindE (read_file fs (fst (cert_paths basedir cfg))) (\<lambda>pem.
       bindE (common_name pem) (\<lambda>cn. Inr (hostname_from_common_name cn)))"

definition no_match_lines :: "pystr \<Rightarrow> echo list" where
  "no_match_lines own_hostname =
     [Out [], Out (lit ''ERROR: this host'' @ [39] @ lit ''s certificate identifies it as '' @ [39] @ own_hostname @ [39] @
        lit '', which isn'' @ [39] @ lit ''t in the list you just entered.''),
      Out (lit ''Add it and run this script again.'')]"

fun match_own_host :: "setup_host list \<Rightarrow> pystr \<Rightarrow> ('w session, pystr) action" where
  "match_own_host [] own_hostname =
     doA (echoA (no_match_lines own_hostname)) (\<lambda>_. pureA (Inl (SystemExit 1)))"
| "match_own_host (host # hosts) own_hostname =
     (if hostname_from_common_name (sh_name host) = own_hostname then pureA (Inr (sh_name host))
      else match_own_host hosts own_hostname)"

definition first_address :: "setup_host \<Rightarrow> pystr py" where
  "first_address host = (case sh_addresses host of [] \<Rightarrow> Inl IndexError | a # _ \<Rightarrow> Inr a)"

definition host_record :: "setup_host \<Rightarrow> pystr \<Rightarrow> pystr \<Rightarrow> int \<Rightarrow> pystr \<Rightarrow> pyval" where
  "host_record host address own_name own_port now = PDict
     [(lit ''address'', PStr address),
      (lit ''all_addresses'', PList (map PStr (sh_addresses host))),
      (lit ''port'', PInt own_port), (lit ''role'', PStr (sh_role host)),
      (lit ''status'', PStr (if sh_name host = own_name then lit ''local'' else lit ''default'')),
      (lit ''site'', PStr []), (lit ''online'', PStr (lit ''unknown'')), (lit ''last_updated'', PStr now)]"

text \<open>\<open>_build_hosts_data\<close>; the clock is read once for every host.\<close>

fun add_records :: "(nat \<Rightarrow> pystr) \<Rightarrow> nat \<Rightarrow> pystr \<Rightarrow> int \<Rightarrow> setup_host list \<Rightarrow> pyval dict \<Rightarrow> pyval dict py" where
  "add_records now i own_name own_port [] records = Inr records"
| "add_records now i own_name own_port (host # hosts) records =
     bindE (first_address host) (\<lambda>address.
       add_records now (Suc i) own_name own_port hosts
         (AList.update (sh_name host) (host_record host address own_name own_port (now i)) records))"

definition build_hosts_data :: "(nat \<Rightarrow> pystr) \<Rightarrow> setup_host list \<Rightarrow> pystr \<Rightarrow> int \<Rightarrow> pyval py" where
  "build_hosts_data now hosts own_name own_port =
     bindE (add_records now 0 own_name own_port hosts []) (\<lambda>records.
       Inr (PDict [(lit ''hosts'', PDict records)]))"

definition config_defaults :: "pystr dict" where
  "config_defaults = [(lit ''server-port'', lit ''59222''), (lit ''bind-address'', lit ''0.0.0.0''),
     (lit ''cert-file'', lit ''cert.pem''), (lit ''key-file'', lit ''private.pem''), (lit ''ca-file'', lit ''ca.crt'')]"

definition set_default :: "pystr \<times> pystr \<Rightarrow> ini \<Rightarrow> ini" where
  "set_default kv ini = (case secretweb_section ini of
     None \<Rightarrow> ini
   | Some opts \<Rightarrow> if map_of opts (fst kv) = None then with_options (AList.update (fst kv) (snd kv)) ini else ini)"

definition load_or_default_config :: "(pystr \<Rightarrow> pystr) \<Rightarrow> path \<Rightarrow> files \<Rightarrow> ini py" where
  "load_or_default_config lower config_file fs =
     bindE (load_config lower config_file fs) (\<lambda>ini.
       Inr (fold set_default config_defaults
         (if map_of ini (lit ''secretweb'') = None then ini @ [(lit ''secretweb'', [])] else ini)))"

section \<open>Publishing KEY1\<close>

text \<open>\<open>_shares_and_treshold\<close>, for KEY1\<close>

definition key1_shares_and_treshold :: "setup_host list \<Rightarrow> int \<times> int" where
  "key1_shares_and_treshold other_hosts =
     (let shares = int (length other_hosts) in (shares, shares div 2 + 1))"

definition other_hosts :: "setup_host list \<Rightarrow> pystr \<Rightarrow> setup_host list" where
  "other_hosts hosts own_name = filter (\<lambda>h. sh_name h \<noteq> own_name) hosts"

text \<open>One round of polling: the names that were waited for, and those that still are.\<close>

fun poll_round ::
  "'w net \<Rightarrow> int \<Rightarrow> certs \<Rightarrow> setup_host dict \<Rightarrow> setup_host dict \<Rightarrow> ('w session, setup_host dict) action" where
  "poll_round net port certs [] remaining = pureA (Inr remaining)"
| "poll_round net port certs ((name, host) # names) remaining =
     doA (pureA (first_address host)) (\<lambda>address.
     doA (worldA (is_reachable net (PStr address) port certs)) (\<lambda>up.
       if up then doA (echoA [Out (lit ''  '' @ name @ lit '': online'')])
                    (\<lambda>_. poll_round net port certs names (AList.delete name remaining))
       else poll_round net port certs names remaining))"

definition waiting_line :: "setup_host dict \<Rightarrow> nat \<Rightarrow> echo" where
  "waiting_line remaining round_num = Out (lit ''  still waiting on: '' @
     join_texts (lit '', '') (sort (map fst remaining)) @ lit '' (round '' @ dec_digits round_num @ lit '')'')"

definition sleepA :: "'w net \<Rightarrow> nat \<Rightarrow> ('w session, unit) action" where
  "sleepA net seconds = worldA (\<lambda>w. (net_sleep net seconds w, Inr ()))"

partial_function (option) poll_rounds ::
  "'w net \<Rightarrow> int \<Rightarrow> certs \<Rightarrow> setup_host dict \<Rightarrow> nat \<Rightarrow> 'w session \<Rightarrow> ('w session \<times> unit py) option" where
  "poll_rounds net port certs remaining round_num s =
     (if remaining = [] then Some (s, Inr ())
      else case poll_round net port certs remaining remaining s of
        (s', Inl e) \<Rightarrow> Some (s', Inl e)
      | (s', Inr remaining') \<Rightarrow>
          poll_rounds net port certs remaining' (Suc round_num)
            (if remaining' = [] then s'
             else fst (doA (echoA [waiting_line remaining' round_num]) (\<lambda>_. sleepA net POLL_INTERVAL_SECONDS) s')))"

definition by_name :: "setup_host list \<Rightarrow> setup_host dict" where
  "by_name hosts = fold (\<lambda>h. AList.update (sh_name h) h) hosts []"

definition poll_for_hosts_online ::
  "'w net \<Rightarrow> platform \<Rightarrow> pystr \<Rightarrow> setup_host list \<Rightarrow> pystr \<Rightarrow> config \<Rightarrow> ('w session, unit) partial_action" where
  "poll_for_hosts_online net pf basedir hosts own_name cfg =
     doP (totalP (pureA (cfg_getint (pf_int pf) cfg (lit ''server-port'') None))) (\<lambda>port.
     doP (totalP (echoA [Out [], Out (lit ''Waiting for all '' @ dec_digits (length (other_hosts hosts own_name)) @
            lit '' other host(s) to come online (Ctrl+C to give up)...'')])) (\<lambda>_.
     doP (poll_rounds net port (cert_paths basedir cfg) (by_name (other_hosts hosts own_name)) 1) (\<lambda>_.
       totalP (echoA [Out (lit ''all hosts online.'')]))))"

definition publish_failed_lines :: "platform \<Rightarrow> setup_host \<Rightarrow> pyexn \<Rightarrow> echo list" where
  "publish_failed_lines pf host e =
     [Out [], Out (lit ''ERROR: failed to publish key1 share to '' @ sh_name host @ lit '': '' @ pf_exn_text pf e),
      Out (lit ''Nothing more was published - fix the problem and rerun this script.'')]"

text \<open>All shares have to be stored; the first failure ends the program.\<close>

fun publish_all ::
  "'w net \<Rightarrow> platform \<Rightarrow> int \<Rightarrow> certs \<Rightarrow> (setup_host \<times> pyval) list \<Rightarrow> ('w session, unit) action" where
  "publish_all net pf port certs [] = pureA (Inr ())"
| "publish_all net pf port certs ((host, share) # rest) =
     doA (pureA (first_address host)) (\<lambda>address.
     doA (tryA (worldA (send_share net (PStr address) port certs share))
            (\<lambda>e. is_os_error e \<or> e = PeerRequestError)
            (\<lambda>e. doA (echoA (publish_failed_lines pf host e)) (\<lambda>_. pureA (Inl (SystemExit 1))))) (\<lambda>_.
     doA (echoA [Out (lit ''  stored on '' @ sh_name host)]) (\<lambda>_.
       publish_all net pf port certs rest)))"

text \<open>\<open>_publish_key1_to_network\<close>, with the uuid, the treshold and the share count it returns.\<close>

definition publish_key1_to_network ::
  "'w net \<Rightarrow> platform \<Rightarrow> int list \<Rightarrow> pystr \<Rightarrow> pystr \<Rightarrow> pystr \<Rightarrow> pystr \<Rightarrow> setup_host list \<Rightarrow> pystr \<Rightarrow> config \<Rightarrow>
   ('w session, pyval \<times> int \<times> int) partial_action" where
  "publish_key1_to_network net pf tape uuid4 now basedir key1 hosts own_name cfg =
     (let (shares, treshold) = key1_shares_and_treshold (other_hosts hosts own_name) in
      doP (totalP (pureA (cfg_getint (pf_int pf) cfg (lit ''server-port'') None))) (\<lambda>port.
      doP (totalP (pureA (shamir_init (lit ''key1'') own_name shares treshold uuid4))) (\<lambda>secret s.
        case create_secret key1 now tape secret of
          None \<Rightarrow> None
        | Some (Inl e, _) \<Rightarrow> Some (s, Inl e)
        | Some (Inr dealer, _) \<Rightarrow> Some
            (doA (echoA [Out [], Out (lit ''Publishing key1 as '' @ int_text shares @ lit '' share(s), treshold '' @
               int_text treshold @ lit ''...'')]) (\<lambda>_.
             doA (pureA (iterate_participants dealer)) (\<lambda>participants.
             doA (publish_all net pf port (cert_paths basedir cfg)
                    (zip (other_hosts hosts own_name) participants)) (\<lambda>_.
             doA (echoA [Out (lit ''key1 published to the network.'')]) (\<lambda>_.
               pureA (Inr (ss_uuid dealer, treshold, shares)))))) s))))"

section \<open>Handing over to systemd\<close>

definition handoff_lines :: "echo list" where
  "handoff_lines = map Out
     [[], lit ''key1 has been published to the network - this script'' @ [39] @ lit ''s job here is done.'', [],
      lit ''What happens next matters for the REST of the network, not just this host:'',
      lit ''this host is about to go through a gap between the temporary server'',
      lit ''stopping and the real systemd-managed one starting - and when it starts,'',
      lit ''it reconstructs its own key1 by asking peers for shares back, which only'',
      lit ''works if enough of THEM are reachable at that moment. If multiple hosts'',
      lit ''go through this gap at once, everyone'' @ [39] @ lit ''s reconstruction can fail together.'', [],
      lit ''So: go through hosts ONE AT A TIME. Before continuing here, every OTHER'',
      lit ''host in the network must be either still safely waiting in its own setup'',
      lit ''script (like this one), or already fully switched over to systemd.'', []]"

fun confirm_loop :: "unit dialog" where
  "confirm_loop [] = ([], [], Inl Abort)"
| "confirm_loop (answer # input) =
     (if answer = lit ''y'' then (input, [], Inr ())
      else case confirm_loop input of
        (rest, es, r) \<Rightarrow> (rest, Out (lit ''Take your time - check on the other hosts, then confirm here.'') # es, r))"

definition manual_systemd_handoff ::
  "'w sys \<Rightarrow> platform \<Rightarrow> pystr \<Rightarrow> config \<Rightarrow> ('w session, unit) partial_action" where
  "manual_systemd_handoff sys pf basedir cfg =
     doP (totalP (echoA handoff_lines)) (\<lambda>_.
     doP (totalP (dialogA confirm_loop)) (\<lambda>_.
     doP (stop_server sys pf basedir STOP_TIMEOUT) (\<lambda>_.
       let unit_name = cfg_get cfg (lit ''systemd-unit-name'') (lit ''secretweb'') in
       totalP (echoA (map Out
         [[], lit ''temporary server stopped.'', lit ''Now run:   sudo systemctl start '' @ unit_name,
          lit ''Then confirm it'' @ [39] @ lit ''s up:   sudo systemctl status '' @ unit_name,
          lit ''Only once that'' @ [39] @ lit ''s running should you move on to the next host.''])))))"

section \<open>The command\<close>

text \<open>
  What \<open>main\<close> takes from outside: today's date, the parser of certificates, the fresh KEY1, the clock,
  the random draws and the uuid of the split, the outsides of the file writes and the plain write of
  a file.
\<close>

record bootstrap =
  bs_today :: pystr
  bs_common_name :: "byte list \<Rightarrow> pystr py"
  bs_key1 :: pystr
  bs_now :: "nat \<Rightarrow> pystr"
  bs_tape :: "int list"
  bs_uuid :: pystr
  bs_split_time :: pystr
  bs_hosts_io :: "io \<times> io"
  bs_sites_io :: "io \<times> io"
  bs_secrets_io :: io
  bs_write :: "path \<Rightarrow> byte list \<Rightarrow> files \<Rightarrow> files \<times> unit py"

text \<open>The data files, in the order in which \<open>main\<close> writes them, and the configuration.\<close>

definition write_data ::
  "platform \<Rightarrow> bootstrap \<Rightarrow> pystr \<Rightarrow> setup_host list \<Rightarrow> pystr \<Rightarrow> int \<Rightarrow> ('w session, unit) action" where
  "write_data pf bs data_dir hosts own_name own_port =
     doA (pureA (build_hosts_data (bs_now bs) hosts own_name own_port)) (\<lambda>hosts_data.
     doA (filesA (save_mirrored (pf_crypto pf) (fst (bs_hosts_io bs)) (snd (bs_hosts_io bs)) data_dir
            HOSTS_FILENAME HOSTS_PLAINTEXT_FILENAME (bs_key1 bs) HOSTS_FILE_PURPOSE hosts_data)) (\<lambda>_.
     doA (filesA (save_mirrored (pf_crypto pf) (fst (bs_sites_io bs)) (snd (bs_sites_io bs)) data_dir
            SITES_FILENAME SITES_PLAINTEXT_FILENAME (bs_key1 bs) SITES_FILE_PURPOSE default_sites_data)) (\<lambda>_.
       filesA (save (pf_crypto pf) (bs_secrets_io bs) (path_join data_dir SECRETS_FILENAME) (bs_key1 bs)
            SECRETS_FILE_PURPOSE default_secrets_data))))"

definition add_key1_metadata :: "pyval \<Rightarrow> int \<Rightarrow> int \<Rightarrow> (pyval \<Rightarrow> pystr) \<Rightarrow> pystr dict \<Rightarrow> pystr dict" where
  "add_key1_metadata uuid treshold shares str_of opts =
     AList.update (lit ''key1-shares'') (int_text shares)
       (AList.update (lit ''key1-treshold'') (int_text treshold)
         (AList.update (lit ''key1-uuid'') (str_of uuid)
           (AList.update (lit ''key1-name'') (lit ''key1'') opts)))"

text \<open>From the decision to go on to the list of hosts and the own name.\<close>

definition clear_old_data ::
  "'w sys \<Rightarrow> platform \<Rightarrow> bootstrap \<Rightarrow> pystr \<Rightarrow> ('w session, unit) partial_action" where
  "clear_old_data sys pf bs basedir s =
     (let data_dir = path_join basedir (lit ''data'');
          existing = existing_data_files data_dir (se_files s) in
      if existing = [] then Some (s, Inr ())
      else doP (totalP (confirm_destructive_reset existing)) (\<lambda>_.
           doP (stop_existing_server sys pf basedir) (\<lambda>_.
             archive_existing_files data_dir (bs_today bs) existing)) s)"

definition ask_hosts ::
  "bootstrap \<Rightarrow> pystr \<Rightarrow> config \<Rightarrow> ('w session, setup_host list \<times> pystr) action" where
  "ask_hosts bs basedir cfg =
     doA (\<lambda>s. (s, own_hostname_from_cert (bs_common_name bs) basedir cfg (se_files s))) (\<lambda>own_hostname.
     doA (echoA [Out [], Out (lit ''This host'' @ [39] @ lit ''s certificate identifies it as: '' @ own_hostname),
            Out (lit ''Make sure to include it in the host list below.'')]) (\<lambda>_.
     doA (dialogA collect_hosts) (\<lambda>hosts.
     doA (match_own_host hosts own_hostname) (\<lambda>own_name. pureA (Inr (hosts, own_name))))))"

text \<open>
  The file is opened for writing and the text goes into it. A text with a lone surrogate, which no file
  that could be read holds, would leave the file cut short.
\<close>

definition write_config :: "bootstrap \<Rightarrow> path \<Rightarrow> ini \<Rightarrow> ('w session, unit) action" where
  "write_config bs config_file ini = (case utf8_encode (write_ini ini) of
     Inl e \<Rightarrow> doA (filesA (bs_write bs config_file [])) (\<lambda>_. pureA (Inl e))
   | Inr text \<Rightarrow> filesA (bs_write bs config_file text))"

definition setup_main ::
  "'w net \<Rightarrow> 'w sys \<Rightarrow> platform \<Rightarrow> bootstrap \<Rightarrow> pystr \<Rightarrow> pystr option \<Rightarrow> ('w session, ini) partial_action" where
  "setup_main net sys pf bs basedir config_file =
     doP (clear_old_data sys pf bs basedir) (\<lambda>_.
     let path = config_path basedir config_file in
     doP (totalP (\<lambda>s. (s, load_or_default_config (str_lower (pf_lower pf)) path (se_files s)))) (\<lambda>ini.
     let cfg = secretweb_section ini in
     doP (totalP (ask_hosts bs basedir cfg)) (\<lambda>(hosts, own_name).
     doP (totalP (pureA (cfg_getint (pf_int pf) cfg (lit ''server-port'') None))) (\<lambda>own_port.
     doP (totalP (write_data pf bs (path_join basedir (lit ''data'')) hosts own_name own_port)) (\<lambda>_.
     let ini1 = with_options (AList.update (lit ''initiated'') (lit ''True'')) ini in
     doP (totalP (write_config bs path ini1)) (\<lambda>_.
     doP (totalP (echoA [Out [], Out (lit ''data files written, starting server...'')])) (\<lambda>_.
     doP (totalP (tryA (start_server sys pf basedir path (bs_key1 bs)) is_start_error
            (failed_with pf ''status: FAILED to start server: ''))) (\<lambda>_.
     doP (totalP (echoA [Out (lit ''server is running.'')])) (\<lambda>_.
     doP (poll_for_hosts_online net pf basedir hosts own_name (secretweb_section ini1)) (\<lambda>_.
     doP (publish_key1_to_network net pf (bs_tape bs) (bs_uuid bs) (bs_split_time bs) basedir (bs_key1 bs)
            hosts own_name (secretweb_section ini1)) (\<lambda>(key1_uuid, key1_treshold, key1_shares).
     let ini2 = with_options (add_key1_metadata key1_uuid key1_treshold key1_shares (format_value net)) ini1 in
     doP (totalP (write_config bs path ini2)) (\<lambda>_.
     doP (manual_systemd_handoff sys pf basedir (secretweb_section ini2)) (\<lambda>_.
       totalP (pureA (Inr ini2)))))))))))))))"

end
