(* ===== verification/SecretwebClient.thy ===== *)
theory SecretwebClient
  imports Recovery Server
begin

text \<open>
  The model of \<open>src/secretweb_client.py\<close>: publishing a secret as shares, recording it, and bringing
  a secret or KEY1 back in one pass over the peers. What goes to standard output and to standard error
  is kept apart, because the commands that print a secret print nothing else to standard output.
\<close>

section \<open>Counts\<close>

definition shares_and_treshold :: "int \<Rightarrow> int option \<Rightarrow> int option \<Rightarrow> (int \<times> int) py" where
  "shares_and_treshold trusted_peer_count shares_override treshold_override =
     (let shares = (case shares_override of None \<Rightarrow> trusted_peer_count | Some n \<Rightarrow> n);
          treshold = (case treshold_override of None \<Rightarrow> shares div 2 + 1 | Some t \<Rightarrow> t) in
      if shares > trusted_peer_count then Inl ClickException
      else if \<not> (2 \<le> treshold \<and> treshold \<le> shares) then Inl ClickException
      else Inr (shares, treshold))"

section \<open>Storing a secret\<close>

text \<open>A line of progress about a peer.\<close>

definition peer_line ::
  "'w net \<Rightarrow> (pystr \<Rightarrow> echo) \<Rightarrow> pyval \<Rightarrow> pystr \<Rightarrow> ('w session, unit) action" where
  "peer_line net stream peer text =
     doA (pureA (py_subscript peer (lit ''name''))) (\<lambda>name.
       echoA [stream (lit ''  '' @ format_value net name @ text)])"

text \<open>The loop over the peers and the shares; the result counts the successes.\<close>

fun publish_shares ::
  "'w net \<Rightarrow> platform \<Rightarrow> int \<Rightarrow> certs \<Rightarrow> (pyval \<times> pyval) list \<Rightarrow> int \<Rightarrow> ('w session, int) action" where
  "publish_shares net pf port certs [] successes = pureA (Inr successes)"
| "publish_shares net pf port certs ((peer, share) # rest) successes =
     doA (tryA
            (doA (pureA (py_subscript peer (lit ''address''))) (\<lambda>address.
             doA (worldA (send_share net address port certs share)) (\<lambda>_. pureA (Inr True))))
            (\<lambda>e. is_os_error e \<or> e = PeerRequestError)
            (\<lambda>e. doA (peer_line net Out peer (lit '': FAILED ('' @ pf_exn_text pf e @ lit '')''))
                    (\<lambda>_. pureA (Inr False))))
       (\<lambda>sent. if sent
          then doA (peer_line net Out peer (lit '': OK''))
                 (\<lambda>_. publish_shares net pf port certs rest (successes + 1))
          else publish_shares net pf port certs rest successes)"

text \<open>\<open>s.removesuffix("\n")\<close>\<close>

definition without_newline :: "pystr \<Rightarrow> pystr" where
  "without_newline s = (if s \<noteq> [] \<and> last s = 10 then butlast s else s)"

definition not_saved_lines :: "int \<Rightarrow> int \<Rightarrow> echo list" where
  "not_saved_lines successes treshold =
     [Out [], Out (lit ''FAILED: only '' @ int_text successes @ lit ''/'' @ int_text treshold @
        lit '' required shares were saved - this secret is not safely on the network and was not recorded locally.'')]"

definition not_recorded_lines :: "'w net \<Rightarrow> pystr \<Rightarrow> int \<Rightarrow> int \<Rightarrow> pyval \<Rightarrow> echo list" where
  "not_recorded_lines net exn_text successes shares uuid =
     [Out [], Out (lit ''WARNING: shares were published to '' @ int_text successes @ lit ''/'' @ int_text shares @
        lit '' peers (treshold met), but recording this secret locally failed: '' @ exn_text),
      Out (lit ''uuid '' @ format_value net uuid @ lit '' - you may need to record this manually.'')]"

text \<open>What follows the loop: recording the secret if enough shares were saved, and the last lines.\<close>

definition record_own_secret ::
  "'w net \<Rightarrow> platform \<Rightarrow> int \<Rightarrow> certs \<Rightarrow> pystr \<Rightarrow> pyval \<Rightarrow> int \<Rightarrow> int \<Rightarrow> int \<Rightarrow> ('w session, unit) action" where
  "record_own_secret net pf port certs name uuid shares treshold successes =
     (if successes < treshold
      then doA (echoA (not_saved_lines successes treshold)) (\<lambda>_. pureA (Inl (SystemExit 1)))
      else
        doA (tryA (worldA (record_secret net (PStr (lit ''127.0.0.1'')) port certs name uuid treshold successes))
               (\<lambda>e. is_os_error e \<or> e = PeerRequestError)
               (\<lambda>e. doA (echoA (not_recorded_lines net (pf_exn_text pf e) successes shares uuid))
                       (\<lambda>_. pureA (Inl (SystemExit 1)))))
          (\<lambda>saved. doA (pureA (py_subscript saved (lit ''last_updated''))) (\<lambda>last_updated.
             echoA [Out [], Out (lit ''OK - saved to '' @ int_text successes @ lit ''/'' @ int_text shares @
               lit '' share(s) (treshold '' @ int_text treshold @ lit '') at '' @ format_value net last_updated @
               lit ''. uuid '' @ format_value net uuid)])))"

text \<open>
  \<open>store-secret\<close>. The random draws, the fresh uuid, the time and standard input are arguments;
  \<open>None\<close> is a command that waits for more random draws than it gets.
\<close>

definition store_secret_cmd ::
  "'w net \<Rightarrow> platform \<Rightarrow> int list \<Rightarrow> pystr \<Rightarrow> pystr \<Rightarrow> pystr \<Rightarrow> pystr \<Rightarrow> config \<Rightarrow> pystr \<Rightarrow> pystr option \<Rightarrow>
   int option \<Rightarrow> int option \<Rightarrow> 'w session \<Rightarrow> ('w session \<times> unit py) option" where
  "store_secret_cmd net pf tape uuid4 now stdin basedir cfg name secret shares_override treshold_override s =
     (case bindE (cfg_getint (pf_int pf) cfg (lit ''server-port'') None) (\<lambda>port.
        bindE (own_name_and_peers basedir (se_files s)) (\<lambda>(own_name, peers).
        if peers = [] then Inl ClickException
        else bindE (shares_and_treshold (int (length peers)) shares_override treshold_override)
          (\<lambda>(shares, treshold).
        bindE (shamir_new (PStr name) own_name (Some shares) (Some treshold) uuid4) (\<lambda>secret_obj.
          Inr (port, peers, shares, treshold, secret_obj))))) of
        Inl e \<Rightarrow> Some (s, Inl e)
      | Inr (port, peers, shares, treshold, secret_obj) \<Rightarrow>
          (case create_secret (case secret of None \<Rightarrow> without_newline stdin | Some v \<Rightarrow> v) now tape secret_obj of
             None \<Rightarrow> None
           | Some (Inl e, _) \<Rightarrow> Some (s, Inl e)
           | Some (Inr dealer, _) \<Rightarrow> Some
               (doA (echoA [Out (lit ''Publishing '' @ [39] @ name @ [39] @ lit '' as '' @ int_text shares @
                  lit '' share(s), treshold '' @ int_text treshold @ lit ''...'')]) (\<lambda>_.
                doA (pureA (iterate_participants dealer)) (\<lambda>participants.
                doA (publish_shares net pf port (cert_paths basedir cfg)
                       (zip (slice_to shares peers) participants) 0) (\<lambda>successes.
                  record_own_secret net pf port (cert_paths basedir cfg) name (ss_uuid dealer)
                    shares treshold successes))) s)))"

section \<open>Bringing a secret back\<close>

text \<open>
  The single pass over the shuffled peers; the result is the decoder and the number of shares it took.
  The uuid is looked up in the record of the secret for every request.
\<close>

fun ask_all ::
  "'w net \<Rightarrow> platform \<Rightarrow> int \<Rightarrow> certs \<Rightarrow> pyval py \<Rightarrow> pyval list \<Rightarrow> shamir_secret \<times> nat \<Rightarrow>
   ('w session, shamir_secret \<times> nat) action" where
  "ask_all net pf port certs uuid [] (decoder, obtained) = pureA (Inr (decoder, obtained))"
| "ask_all net pf port certs uuid (peer # peers) (decoder, obtained) =
     (if ss_ready_to_decode decoder then pureA (Inr (decoder, obtained))
      else
        doA (tryA
               (doA (pureA uuid) (\<lambda>share_uuid.
                doA (worldA (ask_peer net port certs share_uuid peer)) (\<lambda>v. pureA (Inr (Some v)))))
               is_unavailable
               (\<lambda>e. doA (peer_line net Err peer (lit '': unavailable ('' @ pf_exn_text pf e @ lit '')''))
                       (\<lambda>_. pureA (Inr None))))
          (\<lambda>answer. case answer of
             None \<Rightarrow> ask_all net pf port certs uuid peers (decoder, obtained)
           | Some share \<Rightarrow>
               (case populate_decoder share decoder of
                  (decoder', Inl e) \<Rightarrow>
                    if e = InvalidShareError
                    then doA (peer_line net Err peer (lit '': rejected ('' @ pf_exn_text pf e @ lit '')''))
                           (\<lambda>_. ask_all net pf port certs uuid peers (decoder', obtained))
                    else pureA (Inl e)
                | (decoder', Inr _) \<Rightarrow>
                    doA (peer_line net Err peer (lit '': OK''))
                      (\<lambda>_. ask_all net pf port certs uuid peers (decoder', obtained + 1)))))"

text \<open>From the peers to the printed value.\<close>

definition reconstruct_and_print ::
  "'w net \<Rightarrow> platform \<Rightarrow> int \<Rightarrow> certs \<Rightarrow> pyval py \<Rightarrow> pyval list \<Rightarrow> shamir_secret \<Rightarrow> ('w session, unit) action" where
  "reconstruct_and_print net pf port certs uuid peers decoder =
     (\<lambda>s. doA (ask_all net pf port certs uuid (net_shuffle net (se_world s) peers) (decoder, 0))
       (\<lambda>(decoder', obtained).
          if \<not> ss_ready_to_decode decoder' then pureA (Inl ClickException)
          else doA (pureA (catchE (decode decoder') (\<lambda>e. e = ShareReconstructionError) (\<lambda>_. Inl ClickException)))
                 (\<lambda>secret_value. echoA [Out secret_value])) s)"

definition is_lookup_failure :: "pyexn \<Rightarrow> bool" where
  "is_lookup_failure e \<longleftrightarrow> is_os_error e \<or> e = PeerRequestError \<or> e = SecretNotFoundError"

definition get_secret_cmd ::
  "'w net \<Rightarrow> platform \<Rightarrow> pystr \<Rightarrow> pystr \<Rightarrow> config \<Rightarrow> pystr \<Rightarrow> ('w session, unit) action" where
  "get_secret_cmd net pf uuid4 basedir cfg name =
     doA (pureA (cfg_getint (pf_int pf) cfg (lit ''server-port'') None)) (\<lambda>port.
     doA (tryA (worldA (fetch_secret_metadata net (PStr (lit ''127.0.0.1'')) port (cert_paths basedir cfg) name))
            is_lookup_failure (\<lambda>_. pureA (Inl ClickException))) (\<lambda>own_record.
     doA (\<lambda>s. (s, own_name_and_peers basedir (se_files s))) (\<lambda>(own_name, peers).
     doA (pureA (bindE (py_subscript own_record (lit ''shares_saved'')) (\<lambda>shares_saved.
            bindE (py_subscript own_record (lit ''treshold'')) (\<lambda>treshold.
              shamir_new (PStr name) own_name (py_int shares_saved) (py_int treshold) uuid4)))) (\<lambda>decoder.
       reconstruct_and_print net pf port (cert_paths basedir cfg) (py_subscript own_record (lit ''uuid''))
         peers decoder))))"

definition get_key1_cmd ::
  "'w net \<Rightarrow> platform \<Rightarrow> pystr \<Rightarrow> pystr \<Rightarrow> config \<Rightarrow> ('w session, unit) action" where
  "get_key1_cmd net pf uuid4 basedir cfg =
     doA (pureA (bindE (of_opt KeyError cfg) (key1_metadata (pf_int pf) ClickException)))
       (\<lambda>(key1_name, key1_uuid, key1_treshold, key1_shares).
     doA (pureA (cfg_getint (pf_int pf) cfg (lit ''server-port'') None)) (\<lambda>port.
     doA (\<lambda>s. (s, own_name_and_peers basedir (se_files s))) (\<lambda>(own_name, peers).
     doA (pureA (shamir_new (PStr key1_name) own_name key1_shares key1_treshold uuid4)) (\<lambda>decoder.
       reconstruct_and_print net pf port (cert_paths basedir cfg) (Inr (PStr key1_uuid)) peers decoder))))"

end
