(* ===== verification/ServerInvariant.thy ===== *)
theory ServerInvariant
  imports Server
begin

text \<open>
  The invariant of a running server and the case analysis of its handlers. The shares table maps
  each uuid to a dictionary with that uuid and an owner; every handler keeps it, and only
  \<open>store_share\<close> adds to it. The locale \<open>share_store\<close> states what a host that keeps shares promises;
  the server is an interpretation of it.
\<close>

section \<open>Equality with strings\<close>

lemma py_eq_PStr [simp]: "py_eq v (PStr s) \<longleftrightarrow> v = PStr s"
  by (cases v) auto

lemma py_eq_PNone_dict [simp]: "\<not> py_eq PNone (PDict d)"
  by simp

lemma dict_get_PStr: "dict_get d k = PStr s \<longleftrightarrow> map_of d k = Some (PStr s)"
  by (auto simp: dict_get_def split: option.splits)

section \<open>Tables\<close>

definition entries :: "pyval \<Rightarrow> pystr \<Rightarrow> pystr \<Rightarrow> pyval option" where
  "entries config k u = (case table config k of Inr d \<Rightarrow> map_of d u | Inl e \<Rightarrow> None)"

definition table_ok :: "pyval \<Rightarrow> pystr \<Rightarrow> bool" where
  "table_ok config k \<longleftrightarrow> (\<exists>c d. config = PDict c \<and> dict_ok c \<and> map_of c k = Some (PDict d) \<and> dict_ok d)"

lemma table_Inr: "table config k = Inr d \<longleftrightarrow> (\<exists>c. config = PDict c \<and> map_of c k = Some (PDict d))"
  by (cases config) (auto simp: table_def bindE_Inr_iff split: pyval.split_asm)

lemma table_ok_put [simp]: "table_ok config k \<Longrightarrow> table_ok (table_put config k u v) k"
  by (auto simp: table_ok_def table_put_def)

lemma entries_put [simp]:
  "table_ok config k \<Longrightarrow> entries (table_put config k u v) k = (entries config k)(u \<mapsto> v)"
  by (auto simp: table_ok_def table_put_def entries_def table_def fun_eq_iff)

lemma table_ok_table: "table_ok config k \<Longrightarrow> \<exists>d. table config k = Inr d \<and> entries config k = map_of d"
  by (auto simp: table_ok_def entries_def table_def fun_eq_iff)

section \<open>The invariant\<close>

text \<open>The shares and the recorded secrets of an application.\<close>

definition stored_shares :: "app_config \<Rightarrow> pystr \<Rightarrow> pyval option" where
  "stored_shares ac = entries (ac_shares ac) (lit ''shares'')"

definition stored_secrets :: "app_config \<Rightarrow> pystr \<Rightarrow> pyval option" where
  "stored_secrets ac = entries (ac_secrets ac) (lit ''secrets'')"

definition owned_by :: "pyval \<Rightarrow> pystr \<Rightarrow> bool" where
  "owned_by v owner \<longleftrightarrow> py_subscript v (lit ''owner'') = Inr (PStr owner)"

definition share_entry :: "pystr \<Rightarrow> pyval \<Rightarrow> bool" where
  "share_entry u v \<longleftrightarrow> (\<exists>f owner. v = PDict f \<and> map_of f (lit ''uuid'') = Some (PStr u) \<and>
     map_of f (lit ''owner'') = Some (PStr owner))"

definition app_ok :: "app_config \<Rightarrow> bool" where
  "app_ok ac \<longleftrightarrow> table_ok (ac_shares ac) (lit ''shares'') \<and> table_ok (ac_secrets ac) (lit ''secrets'') \<and>
     (\<forall>u v. stored_shares ac u = Some v \<longrightarrow> share_entry u v) \<and>
     (\<forall>n v. stored_secrets ac n = Some v \<longrightarrow> v \<noteq> PNone)"

text \<open>The caller presents a certificate for this host name.\<close>

definition caller_is :: "platform \<Rightarrow> request \<Rightarrow> pystr \<Rightarrow> bool" where
  "caller_is pf rq name \<longleftrightarrow> (\<exists>cn. client_common_name (rq_peercert rq) = Some cn \<and>
     str_lower (pf_lower pf) (hostname_from_common_name cn) = str_lower (pf_lower pf) name)"

lemma require_owner_Inr:
  "require_owner_matches_client_cert pf rq owner = Inr () \<longleftrightarrow> (\<exists>name. owner = PStr name \<and> caller_is pf rq name)"
  by (auto simp: require_owner_matches_client_cert_def caller_is_def split: option.splits pyval.splits)

lemma require_owner_PStr:
  "require_owner_matches_client_cert pf rq (PStr name) = (if caller_is pf rq name then Inr () else Inl (HTTPError 403))"
  by (auto simp: require_owner_matches_client_cert_def caller_is_def split: option.splits)

section \<open>The handlers, case by case\<close>

lemma persist_shares_ac:
  "persist_shares pf io ac = (ac', r) \<Longrightarrow> \<exists>fs. ac' = ac\<lparr>ac_files := fs\<rparr>"
  by (auto simp: persist_shares_def split: prod.splits)

lemma persist_secrets_ac:
  "persist_secrets pf io ac = (ac', r) \<Longrightarrow> \<exists>fs. ac' = ac\<lparr>ac_files := fs\<rparr>"
  by (auto simp: persist_secrets_def split: prod.splits)

text \<open>A valid submission by the owner of the share.\<close>

definition valid_submission :: "platform \<Rightarrow> pystr \<Rightarrow> request \<Rightarrow> pyval dict \<Rightarrow> bool" where
  "valid_submission pf u rq d \<longleftrightarrow> rq_json rq = Inr (PDict d) \<and> map_of d (lit ''uuid'') = Some (PStr u) \<and>
     check_share (PDict d) = Inr () \<and>
     (\<exists>owner. map_of d (lit ''owner'') = Some (PStr owner) \<and> caller_is pf rq owner)"

lemma store_share_eval:
  assumes "app_ok ac" "valid_submission pf u rq d"
  shows "store_share pf u rq ac = (case stored_shares ac u of
      Some w \<Rightarrow> (ac, if py_eq w (PDict d) then Inr (200, status_doc ''already-stored'') else Inl (HTTPError 409))
    | None \<Rightarrow> (case persist_shares pf (rq_io rq)
          (ac\<lparr>ac_shares := table_put (ac_shares ac) (lit ''shares'') u (PDict d)\<rparr>) of
        (ac', Inl e) \<Rightarrow> (ac', Inl e)
      | (ac', Inr _) \<Rightarrow> (ac', Inr (201, status_doc ''stored''))))"
proof -
  obtain t where t: "table (ac_shares ac) (lit ''shares'') = Inr t" "stored_shares ac = map_of t"
    using assms(1) table_ok_table unfolding app_ok_def stored_shares_def by metis
  have "dict_get t u = (case stored_shares ac u of None \<Rightarrow> PNone | Some w \<Rightarrow> w)"
    by (simp add: t(2) dict_get_def)
  moreover have "stored_shares ac u = Some w \<Longrightarrow> w \<noteq> PNone" for w
    using assms(1) by (auto simp: app_ok_def share_entry_def)
  ultimately show ?thesis
    using assms(2) t(1)
    by (auto simp: store_share_def valid_submission_def dict_get_PStr require_owner_PStr split: option.split)
qed

lemma store_share_cases:
  assumes "store_share pf u rq ac = (ac', resp)" "app_ok ac"
  obtains (refused) e where "ac' = ac" "resp = Inl e"
  | (known) payload w where "ac' = ac" "resp = Inr (200, status_doc ''already-stored'')"
      "rq_json rq = Inr payload" "stored_shares ac u = Some w" "py_eq w payload"
  | (stored) d owner fs r where "rq_json rq = Inr (PDict d)" "map_of d (lit ''uuid'') = Some (PStr u)"
      "map_of d (lit ''owner'') = Some (PStr owner)" "caller_is pf rq owner" "check_share (PDict d) = Inr ()"
      "stored_shares ac u = None"
      "ac' = ac\<lparr>ac_shares := table_put (ac_shares ac) (lit ''shares'') u (PDict d), ac_files := fs\<rparr>"
      "save (pf_crypto pf) (rq_io rq) (data_path ac SHARES_FILENAME) (ac_key1 ac) SHARES_FILE_PURPOSE
         (table_put (ac_shares ac) (lit ''shares'') u (PDict d)) (ac_files ac) = (fs, r)"
      "resp = (case r of Inl e \<Rightarrow> Inl e | Inr _ \<Rightarrow> Inr (201, status_doc ''stored''))"
proof (cases "\<exists>e. ac' = ac \<and> resp = Inl e")
  case True
  then show thesis using refused by blast
next
  case False
  obtain t where t: "table (ac_shares ac) (lit ''shares'') = Inr t" "entries (ac_shares ac) (lit ''shares'') = map_of t"
    using assms(2) table_ok_table unfolding app_ok_def by blast
  obtain d where d: "rq_json rq = Inr (PDict d)"
    using assms(1) False by (cases "rq_json rq") (auto simp: store_share_def split: pyval.splits)
  have uuid: "map_of d (lit ''uuid'') = Some (PStr u)"
    using assms(1) False d by (auto simp: store_share_def dict_get_PStr split: if_splits)
  have chk: "check_share (PDict d) = Inr ()"
    using assms(1) False d uuid
    by (cases "check_share (PDict d)") (auto simp: store_share_def dict_get_PStr)
  obtain ow where ow: "map_of d (lit ''owner'') = Some ow"
    using assms(1) False d uuid chk
    by (cases "map_of d (lit ''owner'')") (auto simp: store_share_def dict_get_PStr)
  have "require_owner_matches_client_cert pf rq ow = Inr ()"
    using assms(1) False d uuid chk ow
    by (cases "require_owner_matches_client_cert pf rq ow") (auto simp: store_share_def dict_get_PStr)
  then obtain owner where owner: "ow = PStr owner" "caller_is pf rq owner" by (auto simp: require_owner_Inr)
  have valid: "valid_submission pf u rq d"
    using d uuid chk ow owner by (auto simp: valid_submission_def)
  note eval = store_share_eval [OF assms(2) valid]
  show thesis
  proof (cases "stored_shares ac u")
    case (Some w)
    then have "py_eq w (PDict d)" using eval assms(1) False by (auto split: if_splits)
    then show thesis using Some eval assms(1) d by (intro known) auto
  next
    case None
    moreover obtain fs r where "save (pf_crypto pf) (rq_io rq) (data_path ac SHARES_FILENAME) (ac_key1 ac)
        SHARES_FILE_PURPOSE (table_put (ac_shares ac) (lit ''shares'') u (PDict d)) (ac_files ac) = (fs, r)"
      by force
    ultimately show thesis
      using eval assms(1) d uuid ow owner chk
      by (intro stored [where d = d and owner = owner and fs = fs and r = r])
         (auto simp: persist_shares_def data_path_def split: sum.splits)
  qed
qed

lemma store_secret_cases:
  assumes "store_secret_metadata pf n rq ac = (ac', resp)"
  obtains (refused) e where "ac' = ac" "resp = Inl e"
  | (recorded) own uuid t k fs r where "own_name_of ac = Inr (PStr own)" "caller_is pf rq own"
      "ac' = ac\<lparr>ac_secrets := table_put (ac_secrets ac) (lit ''secrets'') n (secret_record uuid t k (rq_now rq)),
                ac_files := fs\<rparr>"
      "save (pf_crypto pf) (rq_io rq) (data_path ac SECRETS_FILENAME) (ac_key1 ac) SECRETS_FILE_PURPOSE
         (table_put (ac_secrets ac) (lit ''secrets'') n (secret_record uuid t k (rq_now rq))) (ac_files ac) = (fs, r)"
      "resp = (case r of Inl e \<Rightarrow> Inl e | Inr _ \<Rightarrow> Inr (201, secret_record uuid t k (rq_now rq)))"
proof (cases "\<exists>e. ac' = ac \<and> resp = Inl e")
  case True
  then show thesis using refused by blast
next
  case False
  obtain d where d: "rq_json rq = Inr (PDict d)"
    using assms False
    by (cases "rq_json rq") (auto simp: store_secret_metadata_def split: pyval.splits)
  obtain uuid t k where m: "metadata_of pf (PDict d) = Inr (uuid, t, k)"
    using assms False d
    by (cases "metadata_of pf (PDict d)") (auto simp: store_secret_metadata_def)
  obtain own where own: "own_name_of ac = Inr own"
    using assms False d m by (cases "own_name_of ac") (auto simp: store_secret_metadata_def)
  have "require_owner_matches_client_cert pf rq own = Inr ()"
    using assms False d m own
    by (cases "require_owner_matches_client_cert pf rq own") (auto simp: store_secret_metadata_def)
  then obtain name where name: "own = PStr name" "caller_is pf rq name" by (auto simp: require_owner_Inr)
  obtain tb where "table (ac_secrets ac) (lit ''secrets'') = Inr tb"
    using assms False d m own name
    by (cases "table_to_assign (ac_secrets ac) (lit ''secrets'')")
       (auto simp: store_secret_metadata_def require_owner_PStr)
  moreover obtain fs r where "save (pf_crypto pf) (rq_io rq) (data_path ac SECRETS_FILENAME) (ac_key1 ac)
      SECRETS_FILE_PURPOSE (table_put (ac_secrets ac) (lit ''secrets'') n (secret_record uuid t k (rq_now rq)))
      (ac_files ac) = (fs, r)"
    by force
  ultimately show thesis
    using assms d m own name
    by (intro recorded [where own = name and uuid = uuid and t = t and k = k and fs = fs and r = r])
       (auto simp: store_secret_metadata_def require_owner_PStr persist_secrets_def data_path_def
         split: sum.splits)
qed


section \<open>Preservation\<close>

lemma share_entry_dict: "map_of d (lit ''uuid'') = Some (PStr u) \<Longrightarrow> map_of d (lit ''owner'') = Some (PStr owner) \<Longrightarrow>
    share_entry u (PDict d)"
  by (simp add: share_entry_def)

lemma app_ok_store_share:
  assumes "store_share pf u rq ac = (ac', resp)" "app_ok ac"
  shows "app_ok ac'"
  using assms
proof (cases rule: store_share_cases)
  case (stored d owner fs r)
  then show ?thesis using assms(2)
    by (auto simp: app_ok_def stored_shares_def stored_secrets_def share_entry_dict)
qed (use assms(2) in auto)

lemma app_ok_store_secret:
  assumes "store_secret_metadata pf n rq ac = (ac', resp)" "app_ok ac"
  shows "app_ok ac'"
  using assms(1)
proof (cases rule: store_secret_cases)
  case (recorded own uuid t k fs r)
  then show ?thesis using assms(2)
    by (auto simp: app_ok_def stored_shares_def stored_secrets_def secret_record_def)
qed (use assms(2) in auto)

lemma app_ok_handle: "handle pf route rq ac = (ac', resp) \<Longrightarrow> app_ok ac \<Longrightarrow> app_ok ac'"
  by (cases route) (auto simp: index_def get_share_def get_secret_metadata_def
      dest: app_ok_store_share app_ok_store_secret)

lemma shares_after_store_share:
  assumes "store_share pf u rq ac = (ac', resp)" "app_ok ac"
  shows "stored_shares ac' = stored_shares ac \<or>
    (\<exists>d owner. rq_json rq = Inr (PDict d) \<and> stored_shares ac u = None \<and> owned_by (PDict d) owner \<and>
       caller_is pf rq owner \<and> stored_shares ac' = (stored_shares ac)(u \<mapsto> PDict d))"
  using assms
proof (cases rule: store_share_cases)
  case (stored d owner fs r)
  then have "stored_shares ac' = (stored_shares ac)(u \<mapsto> PDict d)"
    using assms(2) by (simp add: stored_shares_def app_ok_def)
  then show ?thesis using stored by (auto simp: owned_by_def)
qed auto

lemma shares_after_handle:
  assumes "handle pf route rq ac = (ac', resp)" "app_ok ac"
  shows "stored_shares ac' = stored_shares ac \<or>
    (\<exists>u d owner. route = PostShare u \<and> rq_json rq = Inr (PDict d) \<and> stored_shares ac u = None \<and>
       owned_by (PDict d) owner \<and> caller_is pf rq owner \<and> stored_shares ac' = (stored_shares ac)(u \<mapsto> PDict d))"
proof (cases route)
  case (PostShare u)
  then show ?thesis using shares_after_store_share [of pf u rq ac ac' resp] assms by auto
next
  case (PostSecret n)
  then have "store_secret_metadata pf n rq ac = (ac', resp)" using assms(1) by simp
  then show ?thesis by (cases rule: store_secret_cases) (auto simp: stored_shares_def)
qed (use assms(1) in \<open>auto simp: index_def get_share_def get_secret_metadata_def\<close>)

lemma secrets_after_handle:
  assumes "handle pf route rq ac = (ac', resp)" "app_ok ac"
  shows "stored_secrets ac' = stored_secrets ac \<or>
    (\<exists>n own uuid t k. route = PostSecret n \<and> own_name_of ac = Inr (PStr own) \<and> caller_is pf rq own \<and>
       stored_secrets ac' = (stored_secrets ac)(n \<mapsto> secret_record uuid t k (rq_now rq)))"
proof (cases route)
  case (PostShare u)
  then have "store_share pf u rq ac = (ac', resp)" using assms(1) by simp
  from this assms(2) show ?thesis by (cases rule: store_share_cases) (auto simp: stored_secrets_def)
next
  case (PostSecret n)
  then have "store_secret_metadata pf n rq ac = (ac', resp)" using assms(1) by simp
  then show ?thesis
  proof (cases rule: store_secret_cases)
    case (recorded own uuid t k fs r)
    then have "stored_secrets ac' = (stored_secrets ac)(n \<mapsto> secret_record uuid t k (rq_now rq))"
      using assms(2) by (simp add: stored_secrets_def app_ok_def)
    then show ?thesis using recorded PostSecret by blast
  qed auto
qed (use assms(1) in \<open>auto simp: index_def get_share_def get_secret_metadata_def\<close>)

lemma get_share_eval:
  assumes "app_ok ac"
  shows "get_share pf u rq ac = (ac, case stored_shares ac u of
      None \<Rightarrow> Inl (HTTPError 404)
    | Some v \<Rightarrow> if \<exists>owner. owned_by v owner \<and> caller_is pf rq owner then Inr (200, v) else Inl (HTTPError 403))"
proof -
  obtain t where t: "table (ac_shares ac) (lit ''shares'') = Inr t" "entries (ac_shares ac) (lit ''shares'') = map_of t"
    using assms table_ok_table unfolding app_ok_def by blast
  show ?thesis
  proof (cases "map_of t u")
    case None
    then show ?thesis using t by (simp add: get_share_def dict_get_def stored_shares_def)
  next
    case (Some v)
    then have "share_entry u v" using assms t(2) by (simp add: app_ok_def stored_shares_def)
    then show ?thesis using t Some
      by (auto simp: get_share_def dict_get_def stored_shares_def share_entry_def owned_by_def
          require_owner_PStr)
  qed
qed

section \<open>Reachable states\<close>

text \<open>A running server answers requests one after the other, in any order and from anyone.\<close>

inductive serves :: "platform \<Rightarrow> app_config \<Rightarrow> app_config \<Rightarrow> bool" for pf ac0 where
  start: "serves pf ac0 ac0"
| request: "serves pf ac0 ac \<Longrightarrow> handle pf route rq ac = (ac', resp) \<Longrightarrow> serves pf ac0 ac'"

inductive_cases servesE: "serves pf ac0 ac"

lemma serves_app_ok: "serves pf ac0 ac \<Longrightarrow> app_ok ac0 \<Longrightarrow> app_ok ac"
  by (induction rule: serves.induct) (auto dest: app_ok_handle)

lemma serves_shares: "serves pf ac0 ac \<Longrightarrow> app_ok ac0 \<Longrightarrow> stored_shares ac0 \<subseteq>\<^sub>m stored_shares ac"
proof (induction rule: serves.induct)
  case (request ac route rq ac' resp)
  have "stored_shares ac \<subseteq>\<^sub>m stored_shares ac'"
    using shares_after_handle [OF request.hyps(2) serves_app_ok [OF request.hyps(1) request.prems]]
    by (auto simp: map_le_def dom_def)
  with request show ?case by (blast intro: map_le_trans)
qed simp

section \<open>A host that keeps shares\<close>

text \<open>
  The interface between the owner of a secret and a host that holds a share for it: what \<open>put\<close> and
  \<open>get\<close> promise, whoever else stores and fetches in between.
\<close>

locale share_store =
  fixes good :: "'node \<Rightarrow> bool"
    and holds :: "'node \<Rightarrow> pystr \<Rightarrow> pyval option"
    and put :: "'node \<Rightarrow> 'caller \<Rightarrow> pystr \<Rightarrow> pyval \<Rightarrow> 'node \<times> bool"
    and get :: "'node \<Rightarrow> 'caller \<Rightarrow> pystr \<Rightarrow> response"
    and owns :: "'caller \<Rightarrow> pyval \<Rightarrow> bool"
  assumes put_good: "good n \<Longrightarrow> good (fst (put n c u v))"
    and put_created: "good n \<Longrightarrow> snd (put n c u v) \<Longrightarrow>
      holds n u = None \<and> holds (fst (put n c u v)) u = Some v \<and> owns c v"
    and put_keeps: "good n \<Longrightarrow> holds n u = Some w \<Longrightarrow> holds (fst (put n c u' v)) u = Some w"
    and get_held: "good n \<Longrightarrow> holds n u = Some v \<Longrightarrow>
      get n c u = (if owns c v then Inr (200, v) else Inl (HTTPError 403))"
    and get_missing: "good n \<Longrightarrow> holds n u = None \<Longrightarrow> get n c u = Inl (HTTPError 404)"
begin

definition puts :: "('caller \<times> pystr \<times> pyval) list \<Rightarrow> 'node \<Rightarrow> 'node" where
  "puts ops n = fold (\<lambda>(c, u, v) n. fst (put n c u v)) ops n"

lemma puts_good: "good n \<Longrightarrow> good (puts ops n)"
  by (induction ops arbitrary: n) (auto simp: puts_def put_good)

lemma puts_keep: "good n \<Longrightarrow> holds n u = Some w \<Longrightarrow> holds (puts ops n) u = Some w"
  by (induction ops arbitrary: n) (auto simp: puts_def put_good put_keeps)

text \<open>A share that was created is what its owner gets, and nobody else, after any other traffic.\<close>

lemma created_is_fetched:
  assumes "good n" "snd (put n c u v)"
  shows "get (puts ops (fst (put n c u v))) c' u = (if owns c' v then Inr (200, v) else Inl (HTTPError 403))"
proof (rule get_held)
  show "good (puts ops (fst (put n c u v)))" using assms(1) by (intro puts_good put_good)
  show "holds (puts ops (fst (put n c u v))) u = Some v"
    using assms put_created by (intro puts_keep put_good) auto
qed

lemma created_once:
  assumes "good n" "snd (put n c u v)"
  shows "\<not> snd (put (puts ops (fst (put n c u v))) c' u v')"
proof -
  have "holds (puts ops (fst (put n c u v))) u = Some v"
    using assms put_created by (intro puts_keep put_good) auto
  then show ?thesis using put_created puts_good put_good assms(1) by fastforce
qed

end

definition created :: "response \<Rightarrow> bool" where
  "created resp \<longleftrightarrow> (case resp of Inr (code, _) \<Rightarrow> code = 201 | Inl _ \<Rightarrow> False)"

definition server_put :: "platform \<Rightarrow> app_config \<Rightarrow> request \<Rightarrow> pystr \<Rightarrow> pyval \<Rightarrow> app_config \<times> bool" where
  "server_put pf ac rq u v = map_prod id created (store_share pf u (rq\<lparr>rq_json := Inr v\<rparr>) ac)"

definition server_get :: "platform \<Rightarrow> app_config \<Rightarrow> request \<Rightarrow> pystr \<Rightarrow> response" where
  "server_get pf ac rq u = snd (get_share pf u rq ac)"

lemma caller_is_json [simp]: "caller_is pf (rq\<lparr>rq_json := v\<rparr>) = caller_is pf rq"
  by (simp add: caller_is_def fun_eq_iff)

interpretation server_store: share_store app_ok stored_shares "server_put pf" "server_get pf"
  "\<lambda>rq v. \<exists>owner. owned_by v owner \<and> caller_is pf rq owner" for pf
proof
  fix n c u v assume ok: "app_ok n"
  obtain n' resp where s: "store_share pf u (c\<lparr>rq_json := Inr v\<rparr>) n = (n', resp)" by force
  then have put: "fst (server_put pf n c u v) = n'" "snd (server_put pf n c u v) = created resp"
    by (simp_all add: server_put_def)
  show "app_ok (fst (server_put pf n c u v))" unfolding put by (rule app_ok_store_share [OF s ok])
  assume "snd (server_put pf n c u v)"
  then have cr: "created resp" by (simp add: put)
  from s ok show "stored_shares n u = None \<and>
      stored_shares (fst (server_put pf n c u v)) u = Some v \<and> (\<exists>owner. owned_by v owner \<and> caller_is pf c owner)"
  proof (cases rule: store_share_cases)
    case (stored d owner fs r)
    have v: "v = PDict d" using stored(1) by simp
    have "stored_shares n' u = Some (PDict d)"
      using stored ok by (simp add: stored_shares_def app_ok_def)
    moreover have "owned_by v owner" using stored(3) by (simp add: owned_by_def v)
    ultimately show ?thesis using stored(4,6) v unfolding put caller_is_json by blast
  qed (use cr in \<open>auto simp: created_def\<close>)
next
  fix n u w c u' v assume ok: "app_ok n" "stored_shares n u = Some w"
  obtain n' resp where s: "store_share pf u' (c\<lparr>rq_json := Inr v\<rparr>) n = (n', resp)" by force
  then show "stored_shares (fst (server_put pf n c u' v)) u = Some w"
    using shares_after_store_share [OF s ok(1)] ok(2) by (auto simp: server_put_def)
qed (simp_all add: server_get_def get_share_eval)

end
