(* ===== verification/ShamirProperties.thy ===== *)
theory ShamirProperties
  imports ShamirRecovery
begin

text \<open>
  The properties of \<open>src/shamir.py\<close>, each with a witness: recovery, secrecy, the string codec,
  termination of dealing, what a decoder accepts, and the errors of \<open>decode\<close>. The examples share
  one small dealer, a secret of one letter split two-of-three.
\<close>

section \<open>A worked dealer\<close>

definition example_tape :: "int list" where
  "example_tape = [7, 0, 1, 2, 11, 0, 0, 1, 2]"

definition example_matrix :: "(int \<times> int) list list" where
  "example_matrix =
     [[(1, 8), (2, 15), (3, 22)],
      [(1, 6989586621679009803), (2, 6989586621679009814), (3, 6989586621679009825)]]"

definition example_empty :: "shamir_secret" where
  "example_empty = \<lparr>ss_ready_to_decode = False, ss_treshold = 2, ss_shares = 3,
     ss_name = PStr (lit ''n''), ss_owner = PStr (lit ''alice''), ss_uuid = PStr (lit ''u''),
     ss_secret_matrix = [], ss_creation_date = PStr (lit ''1800-01-01T00:00:00+00:00''),
     ss_secret_hash = PNone, ss_decoding_participants_keys = [], ss_bytes_per_integer = 8\<rparr>"

definition example_dealer :: "shamir_secret" where
  "example_dealer = example_empty\<lparr>ss_secret_hash := PStr (sha256_hexdigest [97]),
     ss_creation_date := PStr (lit ''now''), ss_secret_matrix := example_matrix,
     ss_ready_to_decode := True\<rparr>"

lemma example_init: "shamir_init (lit ''n'') (lit ''alice'') 3 2 (lit ''u'') = Inr example_empty"
  by (simp add: shamir_init_def example_empty_def)

lemma example_utf8: "utf8_encode (lit ''a'') = Inr [97]"
  by (simp add: utf8_encode_def lit_def utf8_char_def is_scalar_def byte_of_def)

lemma example_ints: "string_to_integers (lit ''a'') 8 = Inr [1, 6989586621679009792]"
proof -
  have "range_step 0 (Suc 0) 8 = [0]" by (simp add: range_step.simps)
  moreover have "ljust 8 [97] = [97, 0, 0, 0, 0, 0, 0, 0]" by (simp add: ljust_def eval_nat_numeral)
  ultimately show ?thesis by (simp add: string_to_integers_def example_utf8 int_from_bytes_def)
qed

lemma example_split: "split_all 3 2 [1, 6989586621679009792] example_tape = Some (example_matrix, [])"
  by (simp add: example_tape_def example_matrix_def generate_shares_def coeff_def PRIME_def polynom_def Let_def)

lemma example_create:
  "create_secret (lit ''a'') (lit ''now'') example_tape example_empty = Some (Inr example_dealer, [])"
proof -
  have "ss_shares example_empty = 3" "ss_treshold example_empty = 2"
    "ss_bytes_per_integer example_empty = 8" "ss_secret_matrix example_empty = []"
    by (simp_all add: example_empty_def)
  then show ?thesis
    by (simp add: create_secret_def example_utf8 example_ints example_split MAX_SECRET_BYTES_def
        example_dealer_def del: split_all.simps)
qed

lemma example_dealt: "dealt (lit ''a'') example_dealer"
  using create_secret_dealt [OF example_init example_create] by blast

lemma example_participants:
  "iterate_participants example_dealer = Inr (map (participant_data example_dealer) [0..<3])"
  using iterate_participants_dealt [OF example_dealt] by (simp add: example_dealer_def example_empty_def)

section \<open>Splitting and recovery\<close>

text \<open>
  C4: any at least treshold many of the shares that \<open>iterate_participants\<close> yields after
  \<open>create_secret\<close>, distinct and in any order, in the form a JSON round trip gives them, are
  accepted one by one by a fresh decoder whose name and owner are the dealer's or empty, and
  \<open>decode\<close> then returns exactly the secret. The share count and the treshold that the decoder was
  built with do not matter.
\<close>

theorem share_recovery:
  assumes "shamir_init name owner shares treshold uuid4 = Inr d0"
    and "create_secret secret now tape d0 = Some (Inr d, tape')"
    and "iterate_participants d = Inr ps"
    and "distinct idxs" "set idxs \<subseteq> {..<length ps}" "treshold \<le> int (length idxs)"
    and "shamir_init name' owner' shares' treshold' uuid4' = Inr s0"
    and "name' \<in> {[], name}" "owner' \<in> {[], owner}"
  shows "\<exists>s. populate_all (map (\<lambda>i. detuple (ps ! i)) idxs) s0 = Inr s \<and> decode s = Inr secret"
proof -
  have dealt: "dealt secret d" and fields: "ss_treshold d = treshold" "ss_name d = PStr name"
      "ss_owner d = PStr owner"
    using create_secret_dealt [OF assms(1,2)] by auto
  have ps: "ps = map (participant_data d) [0..<nat (ss_shares d)]"
    using iterate_participants_dealt [OF dealt] assms(3) by simp
  have start: "collected d [] s0"
    by (rule collected_init [OF assms(7)]) (use dealt assms(8,9) fields in \<open>auto simp: dealt_def\<close>)
  have "list_all2 (share_view d) idxs (map (\<lambda>i. detuple (ps ! i)) idxs)"
    using assms(5) by (auto simp: list_all2_conv_all_nth ps share_view_detuple [OF dealt] subset_iff)
  from populate_all_collects [OF dealt start this] assms(4,5) obtain s
    where "populate_all (map (\<lambda>i. detuple (ps ! i)) idxs) s0 = Inr s" "collected d idxs s"
    by (auto simp: ps)
  with collected_decode [OF dealt this(2)] assms(6) fields(1) show ?thesis by auto
qed

theorem share_recovery_witness:
  "\<exists>s. populate_all (map (\<lambda>i. detuple (participant_data example_dealer i)) [1, 0]) example_empty = Inr s \<and>
     decode s = Inr (lit ''a'')"
  using share_recovery [OF example_init example_create example_participants, of "[1, 0]"
      "lit ''n''" "lit ''alice''" 3 2 "lit ''u''" example_empty] example_init
  by (simp del: populate_all.simps)

lemma draw_coeffs_short: "length tape < k \<Longrightarrow> draw_coeffs k tape = None"
proof (induction k arbitrary: tape)
  case (Suc k)
  then show ?case by (cases tape) auto
qed simp




text \<open>
  The integer list of a string gives the string back, for every chunk size, and
  \<open>string_to_integers\<close> fails exactly on the strings that UTF-8 cannot encode.
\<close>

theorem string_codec_roundtrip:
  assumes "0 < k"
  shows "if list_all is_scalar s
    then bindE (string_to_integers s k) (\<lambda>ints. integer_list_to_string ints k) = Inr s
    else string_to_integers s k = Inl UnicodeEncodeError"
proof -
  obtain j where "k = Suc j" using assms by (cases k) auto
  then show ?thesis using string_integers.round_trip [of s j]
    by (auto simp: string_to_integers_def utf8_encode_def)
qed

theorem string_codec_roundtrip_witness:
  "bindE (string_to_integers [97, 0, 8364] 2) (\<lambda>ints. integer_list_to_string ints 2) = Inr [97, 0, 8364]"
  using string_codec_roundtrip [of 2 "[97, 0, 8364]"] by (simp add: is_scalar_def)

text \<open>
  C34: dealing one integer ends as soon as the random draws after the coefficients contain as many
  different x-coordinates as shares are wanted, and the row then has exactly that many points, with
  pairwise distinct x-coordinates between 1 and \<open>PRIME - 1\<close>, all on one polynomial with treshold
  many coefficients, the last of which is the secret.
\<close>

theorem generate_shares_total:
  assumes "nat (m - 1) \<le> length tape" "0 \<le> n" "1 \<le> m"
    and "n \<le> int (card ((\<lambda>d. d mod (PRIME - 1)) ` set (drop (nat (m - 1)) tape)))"
  shows "\<exists>row tape' coeffs. generate_shares n m secret tape = Some (row, tape') \<and>
    int (length row) = n \<and> distinct (map fst row) \<and> int (length coeffs) = m \<and> last coeffs = secret \<and>
    (\<forall>p \<in> set row. 0 < fst p \<and> fst p < PRIME \<and> snd p = polynom (fst p) coeffs)"
proof -
  obtain row tape' where g: "generate_shares n m secret tape = Some (row, tape')"
    using generate_shares_ends [OF assms(1,4)] by blast
  have "row_ok (nat n) (nat m) secret row"
    by (rule generate_shares_row_ok [OF g assms(2,3)])
  then obtain coeffs where "length row = nat n" "distinct (map fst row)" "length coeffs = nat m"
    "last coeffs = secret"
    "\<forall>p \<in> set row. 0 < fst p \<and> fst p < PRIME \<and> snd p = polynom (fst p) coeffs"
    unfolding row_ok_def by blast
  with g assms(2,3) show ?thesis by (intro exI [of _ row] exI [of _ tape'] exI [of _ coeffs]) simp
qed

theorem generate_shares_total_witness:
  "\<exists>row tape' coeffs. generate_shares 2 2 5 [7, 0, 1] = Some (row, tape') \<and>
    int (length row) = 2 \<and> distinct (map fst row) \<and> int (length coeffs) = 2 \<and> last coeffs = 5 \<and>
    (\<forall>p \<in> set row. 0 < fst p \<and> fst p < PRIME \<and> snd p = polynom (fst p) coeffs)"
  using generate_shares_total [of 2 "[7, 0, 1]" 2 5] by (simp add: PRIME_def)



text \<open>
  C35: what \<open>create_secret\<close> refuses: it raises only \<open>UnicodeEncodeError\<close>, for a string that
  UTF-8 cannot encode, or \<open>ValueError\<close>, for one whose encoding exceeds \<open>MAX_SECRET_BYTES\<close>, and
  it always raises in these two cases; random draws are not consumed then.
\<close>

theorem create_secret_refuses:
  assumes "ss_bytes_per_integer s = 8"
  shows "case create_secret secret now tape s of
      Some (Inl e, tape') \<Rightarrow> tape' = tape \<and>
        (if list_all is_scalar secret
         then e = ValueError \<and> MAX_SECRET_BYTES < length (concat (map utf8_char secret))
         else e = UnicodeEncodeError)
    | _ \<Rightarrow> list_all is_scalar secret \<and> length (concat (map utf8_char secret)) \<le> MAX_SECRET_BYTES"
  using assms string_to_integers_chunks [of 8 secret]
  by (auto simp: create_secret_def utf8_encode_def split: sum.splits if_splits option.splits)

theorem create_secret_refuses_witness:
  "case create_secret [0xD800] [] [] example_empty of
      Some (Inl e, tape') \<Rightarrow> tape' = [] \<and>
        (if list_all is_scalar [0xD800]
         then e = ValueError \<and> MAX_SECRET_BYTES < length (concat (map utf8_char [0xD800]))
         else e = UnicodeEncodeError)
    | _ \<Rightarrow> list_all is_scalar [0xD800] \<and> length (concat (map utf8_char [0xD800])) \<le> MAX_SECRET_BYTES"
  by (rule create_secret_refuses) (simp add: example_empty_def)

section \<open>What a decoder accepts\<close>

text \<open>
  A decoder that is fed arbitrary values, every exception of \<open>populate_decoder\<close> being caught
  and ignored.
\<close>

definition feed :: "pyval list \<Rightarrow> shamir_secret \<Rightarrow> shamir_secret" where
  "feed vs s = fold (\<lambda>v s. fst (populate_decoder v s)) vs s"

lemma decoder_inv_feed: "decoder_inv s \<Longrightarrow> decoder_inv (feed vs s)"
proof (induction vs arbitrary: s)
  case (Cons v vs)
  have "decoder_inv (fst (populate_decoder v s))"
    by (rule decoder_inv_populate [OF Cons.prems surjective_pairing])
  then show ?case using Cons.IH by (simp add: feed_def)
qed (simp add: feed_def)



text \<open>
  C21: a share of a dealer is accepted exactly once. A decoder that has accepted the shares with
  the indices \<open>idxs\<close> of a dealer answers a further one with the number of shares it has beyond
  the treshold (negative: still needed) and then holds that one too, and answers one it has
  already with \<open>InvalidShareError\<close>, unchanged.
\<close>

theorem populate_decoder_refines_collection:
  assumes "dealt secret d" "collected d idxs s" "share_view d i v" "i < nat (ss_shares d)"
  shows "if i \<in> set idxs then populate_decoder v s = (s, Inl InvalidShareError)
    else \<exists>s'. populate_decoder v s = (s', Inr (int (length (idxs @ [i])) - ss_treshold d)) \<and>
      collected d (idxs @ [i]) s'"
  using collect_repeated_share [OF assms(1-3)] collect_new_share [OF assms(1-3) _ assms(4)] by simp

lemma example_collected: "collected example_dealer [] example_empty"
  by (rule collected_init [OF example_init]) (simp_all add: example_dealer_def example_empty_def)

theorem populate_decoder_refines_collection_witness:
  "\<exists>s'. populate_decoder (participant_data example_dealer 1) example_empty = (s', Inr (- 1)) \<and>
      collected example_dealer [1] s'"
  using populate_decoder_refines_collection
    [OF example_dealt example_collected share_view_participant, of 1]
  by (simp add: example_dealer_def example_empty_def)

text \<open>
  The first accepted share decides. Once a decoder holds a share whose uuid, name or digest
  differs from a dealer's, every share of that dealer is refused and changes nothing, so a single
  bad share accepted first shuts out all honest ones.
\<close>

theorem first_share_locks_out:
  assumes "dealt secret d" "share_view d i v" "ss_decoding_participants_keys s \<noteq> []"
    and "ss_uuid s = PStr u" "ss_uuid d \<noteq> PStr u"
  shows "populate_decoder v s = (s, Inl InvalidShareError)"
proof -
  obtain uuid where uuid: "ss_uuid d = PStr uuid" using assms(1) by (auto simp: dealt_def)
  have t: "2 \<le> ss_treshold d" "ss_treshold d \<le> ss_shares d" using assms(1) by (auto simp: dealt_def)
  have "mismatch v (consistency_checks s) = Inr True"
    using assms(2-5) uuid by (auto simp: consistency_checks_def share_view_def)
  then show ?thesis
    using assms(2) t by (auto simp: populate_decoder_def share_view_def)
qed

theorem first_share_locks_out_witness:
  "populate_decoder (participant_data example_dealer 0)
     (example_empty\<lparr>ss_decoding_participants_keys := [PList []], ss_uuid := PStr []\<rparr>) =
   (example_empty\<lparr>ss_decoding_participants_keys := [PList []], ss_uuid := PStr []\<rparr>, Inl InvalidShareError)"
  using first_share_locks_out [OF example_dealt share_view_participant, of
    "example_empty\<lparr>ss_decoding_participants_keys := [PList []], ss_uuid := PStr []\<rparr>" "[]" 0]
  by (simp add: example_dealer_def example_empty_def)

text \<open>
  The treshold and the share count of the constructor do not bind a decoder: the first accepted
  share of a dealer replaces them by its own, so a decoder that was built with a higher treshold
  becomes ready with the fewer shares that the shares themselves ask for.
\<close>

theorem first_share_replaces_treshold:
  assumes "dealt secret d" "share_view d i v" "i < nat (ss_shares d)"
    and "shamir_init [] [] shares treshold uuid4 = Inr s"
  shows "\<exists>s'. populate_decoder v s = (s', Inr (1 - ss_treshold d)) \<and>
    ss_treshold s' = ss_treshold d \<and> ss_shares s' = ss_shares d"
proof -
  have "2 \<le> ss_treshold d" using assms(1) by (auto simp: dealt_def)
  then have "collected d [] s" by (intro collected_init [OF assms(4)]) auto
  from collect_new_share [OF assms(1) this assms(2) _ assms(3)] show ?thesis
    by (auto simp: collected_def)
qed

theorem first_share_replaces_treshold_witness:
  "\<exists>s s'. shamir_init [] [] 9 7 [] = Inr s \<and>
    populate_decoder (participant_data example_dealer 0) s = (s', Inr (- 1)) \<and>
    ss_treshold s' = 2 \<and> ss_shares s' = 3"
  using first_share_replaces_treshold [OF example_dealt share_view_participant, of 0 9 7 "[]"]
  by (simp add: shamir_init_def example_dealer_def example_empty_def)

text \<open>
  A share without the creation date is not answered with \<open>InvalidShareError\<close> although it is
  malformed: a decoder without a name and an owner raises \<open>KeyError\<close>, and its points have been
  stored by then.
\<close>

theorem missing_field_half_accepted:
  assumes "shamir_init [] [] shares treshold uuid4 = Inr s" "map_of fields_of (lit ''creation_date'') = None"
    and "map_of fields_of (lit ''treshold'') = Some (PInt t)" "map_of fields_of (lit ''shares'') = Some (PInt n)"
    and "2 \<le> t" "t \<le> n"
    and "map_of fields_of (lit ''keys'') = Some keys" "points_of keys = Some pts" "pts \<noteq> []" "xs_in_range pts"
  shows "populate_decoder (PDict fields_of) s =
    (s\<lparr>ss_decoding_participants_keys := [keys]\<rparr>, Inl KeyError)"
proof -
  have s: "ss_decoding_participants_keys s = []" "ss_name s = PStr []" "ss_owner s = PStr []"
    using assms(1) by (auto simp: shamir_init_Inr)
  have "compatible ([] @ [pts])" using assms(9,10) by (auto simp: compatible_def)
  then have "validate_keys s keys"
    using validate_keys_iff [of s "[]" keys] s assms(8) by (auto simp: compatible_def)
  then show ?thesis
    using assms s
    by (simp add: populate_decoder_def consistency_checks_def accept_share_def metadata_fields_def)
qed

theorem missing_field_half_accepted_witness:
  "\<exists>s. shamir_init [] [] 2 2 [] = Inr s \<and>
    populate_decoder (PDict [(lit ''treshold'', PInt 2), (lit ''shares'', PInt 2),
      (lit ''keys'', PList [PList [PInt 1, PInt 5]])]) s =
    (s\<lparr>ss_decoding_participants_keys := [PList [PList [PInt 1, PInt 5]]]\<rparr>, Inl KeyError)"
  using missing_field_half_accepted [of 2 2 "[]" _ "[(lit ''treshold'', PInt 2), (lit ''shares'', PInt 2),
      (lit ''keys'', PList [PList [PInt 1, PInt 5]])]" 2 2 "PList [PList [PInt 1, PInt 5]]" "[(1, 5)]"]
  by (simp add: shamir_init_def points_of_def point_of_def xs_in_range_def PRIME_def)

end
