(* ===== verification/CryptoFileProperties.thy ===== *)
theory CryptoFileProperties
  imports CryptoFile
begin

text \<open>
  The properties of the document store: what was saved is loaded, a write is all or nothing at
  every point where it may stop, an envelope opens only as what it is, and the default document of
  \<open>ensure\<close> is written once.
\<close>

section \<open>Documents as a codec\<close>

definition envelope_ok :: "crypto \<Rightarrow> pystr \<Rightarrow> pystr \<Rightarrow> byte list \<Rightarrow> bool" where
  "envelope_ok cr key1 purpose nonce \<longleftrightarrow> aead_correct cr \<and> length nonce = NONCE_SIZE \<and>
     list_all is_scalar key1 \<and> list_all is_scalar purpose"

interpretation document: codec_pair json_bytes json_loads_bytes
  "\<lambda>v. plain_json v \<and> envelope_ok cr key1 purpose nonce"
  "encrypt cr key1 purpose nonce" "decrypt cr key1 purpose"
  "\<lambda>_. aead_correct cr \<and> length nonce = NONCE_SIZE \<and> list_all is_scalar key1 \<and> list_all is_scalar purpose"
  for cr key1 purpose nonce
  using json_codec.both.enc_valid json_codec.both.dec_enc
  by unfold_locales (auto simp: json_bytes_def json_loads_bytes_def envelope_ok_def)

lemma save_blob:
  assumes "json_ok data" "envelope_ok cr key1 purpose (io_nonce io)"
  obtains blob where "bindE (json_bytes data) (encrypt cr key1 purpose (io_nonce io)) = Inr blob"
    "bindE (decrypt cr key1 purpose blob) json_loads_bytes = Inr (detuple data)"
proof -
  obtain bs where bs: "json_bytes data = Inr bs" using json_bytes_total [OF assms(1)] by blast
  obtain blob where blob: "encrypt cr key1 purpose (io_nonce io) bs = Inr blob"
    using envelope.enc_valid assms(2) unfolding envelope_ok_def by blast
  have "decrypt cr key1 purpose blob = Inr bs"
    using envelope.dec_enc [OF _ blob] assms(2) by (simp add: envelope_ok_def)
  then show ?thesis using that [of blob] bs blob json_bytes_roundtrip [OF assms(1) bs] by simp
qed

lemma save_Inr:
  assumes "io_ok io path fs" "save cr io path key1 purpose data fs = (fs', Inr u)"
  shows "\<exists>blob. bindE (json_bytes data) (encrypt cr key1 purpose (io_nonce io)) = Inr blob \<and>
    fs' = fs(path := Some blob)"
proof -
  obtain blob where "bindE (json_bytes data) (encrypt cr key1 purpose (io_nonce io)) = Inr blob"
    "atomic_write_bytes (io_plan io) (io_tmp io) path blob fs = (fs', Inr ())"
    using assms(2) by (auto simp: save_def split: sum.splits)
  with atomic_write_ok [OF _ _ this(2)] assms(1) show ?thesis by (auto simp: io_ok_def)
qed

lemma save_Inl:
  assumes "fs (io_tmp io) = None" "save cr io path key1 purpose data fs = (fs', Inl e)"
  shows "\<exists>c. fs' = fs(io_tmp io := c)"
proof (cases "bindE (json_bytes data) (encrypt cr key1 purpose (io_nonce io))")
  case (Inl e')
  then have "fs' = fs(io_tmp io := None)" using assms by (simp add: save_def fun_upd_idem)
  then show ?thesis by blast
next
  case (Inr blob)
  then show ?thesis
    using assms(2) atomic_write_raised [where fs = fs, OF assms(1)] by (auto simp: save_def)
qed

lemma save_finishes:
  assumes "io_plan io = Finish" "json_ok data" "envelope_ok cr key1 purpose (io_nonce io)"
  shows "\<exists>fs'. save cr io path key1 purpose data fs = (fs', Inr ())"
  by (rule save_blob [OF assms(2,3)]) (simp add: save_def assms(1))

lemma load_saved:
  assumes "io_ok io path fs" "envelope_ok cr key1 purpose (io_nonce io)" "json_ok data"
    and "save cr io path key1 purpose data fs = (fs', Inr u)"
  shows "load cr path key1 purpose fs' = Inr (detuple data)" "fs' = fs(path := fs' path)"
    "fs' path \<noteq> None"
proof -
  obtain blob where b: "bindE (json_bytes data) (encrypt cr key1 purpose (io_nonce io)) = Inr blob"
    "bindE (decrypt cr key1 purpose blob) json_loads_bytes = Inr (detuple data)"
    by (rule save_blob [OF assms(3,2)])
  have fs': "fs' = fs(path := Some blob)" using save_Inr [OF assms(1,4)] b(1) by auto
  with b(2) show "load cr path key1 purpose fs' = Inr (detuple data)"
    "fs' = fs(path := fs' path)" "fs' path \<noteq> None"
    by (simp_all add: load_def read_file_def)
qed

section \<open>A concrete cipher for the examples\<close>

text \<open>
  It seals nothing, but it has the two properties that are assumed of AES-GCM: it writes the key
  and the associated data in front of the plaintext.
\<close>

definition block :: "byte list \<Rightarrow> byte list" where
  "block bs = replicate (length bs) 1 @ [0] @ bs"

definition example_crypto :: "crypto" where
  "example_crypto = \<lparr>hkdf = (\<lambda>secret info. secret @ info),
     aead_enc = (\<lambda>key nonce data aad. block key @ block aad @ data),
     aead_dec = (\<lambda>key nonce ct aad. let h = block key @ block aad in
       if take (length h) ct = h then Some (drop (length h) ct) else None)\<rparr>"

lemma replicate_zero_eq:
  "replicate m (1 :: byte) @ 0 # x = replicate n 1 @ 0 # y \<Longrightarrow> m = n \<and> x = y"
  by (induction m arbitrary: n; case_tac n) auto

lemma block_eq: "block a @ x = block b @ y \<Longrightarrow> a = b \<and> x = y"
  by (auto simp: block_def dest!: replicate_zero_eq)

lemma example_crypto_dec:
  "aead_dec example_crypto key nonce ct aad = Some data \<longleftrightarrow> ct = block key @ block aad @ data"
proof
  assume "aead_dec example_crypto key nonce ct aad = Some data"
  then have "take (length (block key @ block aad)) ct = block key @ block aad"
    "drop (length (block key @ block aad)) ct = data"
    by (auto simp: example_crypto_def Let_def split: if_splits)
  then show "ct = block key @ block aad @ data"
    using append_take_drop_id [of "length (block key @ block aad)" ct] by simp
qed (simp add: example_crypto_def Let_def)

lemma example_crypto_ok: "aead_correct example_crypto" "aead_authentic example_crypto"
proof -
  have enc: "aead_enc example_crypto key nonce data aad = block key @ block aad @ data" for key nonce data aad
    by (simp add: example_crypto_def)
  show "aead_correct example_crypto" by (simp add: aead_correct_def example_crypto_dec enc)
  show "aead_authentic example_crypto"
    unfolding aead_authentic_def example_crypto_dec enc by (blast dest: block_eq)
qed

definition example_io :: "plan \<Rightarrow> io" where
  "example_io p = \<lparr>io_nonce = replicate 12 7, io_tmp = lit ''/d/.tmp-1.tmp'', io_plan = p\<rparr>"

lemma example_envelope: "envelope_ok example_crypto (lit key) (lit purpose) (io_nonce (example_io p))"
  by (simp add: envelope_ok_def example_crypto_ok example_io_def NONCE_SIZE_def)

definition example_doc :: "pyval" where
  "example_doc = PDict [(lit ''hosts'', PDict [(lit ''a'', PTuple [PInt 7, PNone])])]"

lemma example_doc_ok: "json_ok example_doc" "detuple example_doc =
    PDict [(lit ''hosts'', PDict [(lit ''a'', PList [PInt 7, PNone])])]"
  by (simp_all add: example_doc_def dict_ok_def str_ok_def lit_def is_high_def is_low_def
      dec_digits.simps MAX_STR_DIGITS_def)

section \<open>Properties\<close>

text \<open>
  C28: what \<open>save\<close> wrote, \<open>load\<close> reads back under the same key and purpose, with tuples as lists,
  and no other file changes. \<open>save\<close> does succeed when no system call fails.
\<close>

theorem save_then_load:
  assumes "aead_correct cr" "list_all is_scalar key1" "list_all is_scalar purpose" "json_ok data"
    and "io_ok io path fs" "io_plan io = Finish"
  shows "\<exists>fs'. save cr io path key1 purpose data fs = (fs', Inr ()) \<and>
    load cr path key1 purpose fs' = Inr (detuple data) \<and> (\<forall>p. p \<noteq> path \<longrightarrow> fs' p = fs p)"
proof -
  have env: "envelope_ok cr key1 purpose (io_nonce io)"
    using assms by (simp add: envelope_ok_def io_ok_def)
  obtain fs' where fs': "save cr io path key1 purpose data fs = (fs', Inr ())"
    using save_finishes [OF assms(6,4) env] by blast
  from load_saved [OF assms(5) env assms(4) fs'] fs' show ?thesis
    by (metis fun_upd_other)
qed

theorem save_then_load_witness:
  "\<exists>fs'. save example_crypto (example_io Finish) (lit ''/d/x'') (lit ''k'') (lit ''p'') example_doc (\<lambda>_. None)
      = (fs', Inr ()) \<and>
    load example_crypto (lit ''/d/x'') (lit ''k'') (lit ''p'') fs' =
      Inr (PDict [(lit ''hosts'', PDict [(lit ''a'', PList [PInt 7, PNone])])])"
  using save_then_load [of example_crypto "lit ''k''" "lit ''p''" example_doc "example_io Finish" "lit ''/d/x''"
      "\<lambda>_. None"]
  by (auto simp: example_crypto_ok example_doc_ok io_ok_def example_io_def NONCE_SIZE_def)

text \<open>
  C27: writes are all or nothing. Wherever \<open>atomic_write_bytes\<close> is stopped, by an exception at any
  of its system calls or by a crash after any number of them, the file at the path holds its old
  content or the complete new one, and every other file but the temporary one is as before; an
  exception means the old content, a normal return the new one and no temporary file.
\<close>

theorem atomic_write_all_or_nothing:
  assumes "tmp \<noteq> path" "fs tmp = None"
  shows "(let fs' = crash_state n path tmp data fs in
      (fs' path = fs path \<or> fs' path = Some data) \<and> (\<forall>p. p \<noteq> path \<longrightarrow> p \<noteq> tmp \<longrightarrow> fs' p = fs p)) \<and>
    (case atomic_write_bytes plan tmp path data fs of
       (fs', Inr _) \<Rightarrow> fs' = fs(path := Some data)
     | (fs', Inl e) \<Rightarrow> \<exists>c. fs' = fs(tmp := c))"
proof -
  have "case atomic_write_bytes plan tmp path data fs of
       (fs', Inr _) \<Rightarrow> fs' = fs(path := Some data)
     | (fs', Inl e) \<Rightarrow> \<exists>c. fs' = fs(tmp := c)"
    using atomic_write_ok [where fs = fs, OF assms] atomic_write_raised [where fs = fs, OF assms(2)]
    by (auto split: prod.split sum.split)
  then show ?thesis using crash_state_cases [where fs = fs, OF assms, of n data] assms by (auto simp: Let_def)
qed

theorem atomic_write_all_or_nothing_witness:
  "(let fs' = crash_state 4 (lit ''x'') (lit ''t'') [1, 2, 3] (\<lambda>_. None) in
      (fs' (lit ''x'') = None \<or> fs' (lit ''x'') = Some [1, 2, 3]) \<and> fs' (lit ''y'') = None) \<and>
    (case atomic_write_bytes (Interrupt 4 OSError False) (lit ''t'') (lit ''x'') [1, 2, 3] (\<lambda>_. None) of
       (fs', Inr _) \<Rightarrow> fs' = (\<lambda>_. None)(lit ''x'' := Some [1, 2, 3])
     | (fs', Inl e) \<Rightarrow> \<exists>c. fs' = (\<lambda>_. None)(lit ''t'' := c))"
  using atomic_write_all_or_nothing [of "lit ''t''" "lit ''x''" "\<lambda>_. None" 4 "[1, 2, 3]" "Interrupt 4 OSError False"]
  by (simp add: Let_def)

text \<open>
  C30: an envelope opens only as what it is. Under an authentic cipher \<open>decrypt\<close> accepts a blob only
  if it is exactly what \<open>encrypt\<close> makes, with the nonce of the blob, of the plaintext returned;
  anything else, a truncated, extended or altered blob included, is \<open>InvalidCryptoFileError\<close>.
\<close>

theorem decrypt_accepts_only_envelopes:
  assumes "aead_authentic cr" "list_all is_scalar key1" "list_all is_scalar purpose"
  shows "case decrypt cr key1 purpose blob of
      Inr pt \<Rightarrow> encrypt cr key1 purpose (take NONCE_SIZE (drop HEADER_SIZE blob)) pt = Inr blob
    | Inl e \<Rightarrow> e = InvalidCryptoFileError"
proof (cases "decrypt cr key1 purpose blob")
  case (Inl e)
  with utf8.enc_valid [OF assms(2)] utf8.enc_valid [OF assms(3)] show ?thesis
    by (auto simp: decrypt_def derive_key_def aad_of_def Let_def split: if_splits)
next
  case (Inr pt)
  then obtain nonce ct secret info where b: "blob = (MAGIC @ [VERSION]) @ nonce @ ct" "length nonce = NONCE_SIZE"
    and k: "utf8_encode key1 = Inr secret" "utf8_encode purpose = Inr info"
    and dec: "aead_dec cr (hkdf cr secret info) nonce ct (MAGIC @ [VERSION] @ info) = Some pt"
    by (rule decrypt_Inr)
  have "take NONCE_SIZE (drop HEADER_SIZE blob) = nonce"
    using b by (simp add: HEADER_SIZE_def MAGIC_def)
  moreover have "ct = aead_enc cr (hkdf cr secret info) nonce pt (MAGIC @ [VERSION] @ info)"
    using assms(1) dec unfolding aead_authentic_def by blast
  ultimately show ?thesis using Inr b k by (simp add: encrypt_Inr)
qed

theorem decrypt_accepts_only_envelopes_witness:
  "case decrypt example_crypto (lit ''k'') (lit ''p'') [0x53, 0x57] of
      Inr pt \<Rightarrow> encrypt example_crypto (lit ''k'') (lit ''p'') (take NONCE_SIZE (drop HEADER_SIZE [0x53, 0x57])) pt
        = Inr [0x53, 0x57]
    | Inl e \<Rightarrow> e = InvalidCryptoFileError"
  by (rule decrypt_accepts_only_envelopes) (simp_all add: example_crypto_ok)

text \<open>
  Ciphertext of one file is never accepted as another: a blob that was encrypted for one
  purpose is \<open>InvalidCryptoFileError\<close> for every other purpose, whatever the keys.
\<close>

theorem purposes_are_separate:
  assumes "aead_authentic cr" "length nonce = NONCE_SIZE" "encrypt cr key1 purpose nonce pt = Inr blob"
    and "purpose' \<noteq> purpose" "list_all is_scalar key1'" "list_all is_scalar purpose'"
  shows "decrypt cr key1' purpose' blob = Inl InvalidCryptoFileError"
proof -
  obtain secret info where k: "utf8_encode key1 = Inr secret" "utf8_encode purpose = Inr info"
    and blob: "blob = (MAGIC @ [VERSION]) @ nonce @
      aead_enc cr (hkdf cr secret info) nonce pt (MAGIC @ [VERSION] @ info)"
    using assms(3) by (auto simp: encrypt_Inr)
  obtain secret' info' where k': "utf8_encode key1' = Inr secret'" "utf8_encode purpose' = Inr info'"
    using utf8.enc_valid [OF assms(5)] utf8.enc_valid [OF assms(6)] by blast
  have "info' \<noteq> info" using utf8_encode_inj k(2) k'(2) assms(4) by blast
  then have "aead_dec cr (hkdf cr secret' info') nonce
      (aead_enc cr (hkdf cr secret info) nonce pt (MAGIC @ [VERSION] @ info)) (MAGIC @ [VERSION] @ info') = None"
    using assms(1) unfolding aead_authentic_def by (metis append_same_eq not_None_eq same_append_eq)
  then show ?thesis unfolding blob decrypt_envelope [OF assms(2) k'] by simp
qed

theorem purposes_are_separate_witness:
  "\<exists>blob. encrypt example_crypto (lit ''k'') (lit ''p'') (replicate 12 0) [1] = Inr blob \<and>
    decrypt example_crypto (lit ''k'') (lit ''q'') blob = Inl InvalidCryptoFileError"
  using envelope.enc_valid [of example_crypto "replicate 12 0" "lit ''k''" "lit ''p''" "[1]"]
    purposes_are_separate [of example_crypto "replicate 12 0" "lit ''k''" "lit ''p''" "[1]" _ "lit ''q''" "lit ''k''"]
  by (auto simp: example_crypto_ok NONCE_SIZE_def)


section \<open>Default documents and mirrors\<close>

text \<open>
  \<open>ensure\<close> writes the default document once. On a missing file it returns the default and stores
  it; every later call, with whatever default, returns the stored document and writes nothing. If
  the first write fails the file is still missing, so that a later call tries again.
\<close>

theorem ensure_creates_once:
  assumes "aead_correct cr" "list_all is_scalar key1" "list_all is_scalar purpose" "json_ok initial"
    and "io_ok io path fs" "fs path = None"
  shows "case ensure cr io path key1 purpose initial fs of
      (fs', Inr doc) \<Rightarrow> doc = initial \<and>
        ensure cr io' path key1 purpose initial' fs' = (fs', Inr (detuple initial))
    | (fs', Inl e) \<Rightarrow> fs' path = None"
proof -
  have env: "envelope_ok cr key1 purpose (io_nonce io)"
    using assms by (simp add: envelope_ok_def io_ok_def)
  have tmp: "fs (io_tmp io) = None" "io_tmp io \<noteq> path" using assms(5) by (auto simp: io_ok_def)
  obtain fs' r where s: "save cr io path key1 purpose initial fs = (fs', r)" by force
  show ?thesis
  proof (cases r)
    case (Inl e)
    with s save_Inl [where fs = fs, OF tmp(1)] tmp(2) assms(6) show ?thesis
      by (fastforce simp: ensure_def path_exists_def)
  next
    case (Inr u)
    from load_saved [OF assms(5) env assms(4) s [unfolded Inr]] Inr s assms(6) show ?thesis
      by (simp add: ensure_def path_exists_def)
  qed
qed

theorem ensure_creates_once_witness:
  "case ensure example_crypto (example_io Finish) (lit ''/d/x'') (lit ''k'') (lit ''p'') example_doc (\<lambda>_. None) of
      (fs', Inr doc) \<Rightarrow> doc = example_doc \<and>
        ensure example_crypto (example_io Finish) (lit ''/d/x'') (lit ''k'') (lit ''p'') PNone fs' =
          (fs', Inr (detuple example_doc))
    | (fs', Inl e) \<Rightarrow> fs' (lit ''/d/x'') = None"
  by (rule ensure_creates_once)
     (simp_all add: example_crypto_ok example_doc_ok io_ok_def example_io_def NONCE_SIZE_def)

lemma mirror_text:
  assumes "json_ok data"
  obtains bs where "json_bytes_indent data = Inr bs" "bindE (utf8_decode bs) json_loads = Inr (detuple data)"
proof -
  obtain bs where bs: "utf8_encode (dump (Some 0) data) = Inr bs"
    using utf8.enc_valid [OF ascii_scalar [OF ascii_dump]] by blast
  then show ?thesis
    using that [of bs] json_loads_dumps [OF assms] json_ok_ints [OF assms] utf8_decode_encode [OF bs]
    by (simp add: json_bytes_indent_def json_dumps_indent_def)
qed

text \<open>
  The mirror tells the truth. When \<open>ensure_mirrored\<close> has created the hosts file without an
  exception, \<open>load_hosts_json\<close> reads from the plaintext mirror, without the key, exactly the
  document that \<open>load\<close> decrypts.
\<close>

theorem mirror_agrees:
  assumes "aead_correct cr" "list_all is_scalar key1" "list_all is_scalar purpose" "json_ok initial"
    and "data_dir = path_join basedir (lit ''data'')"
    and "enc = path_join data_dir enc_name" "plain = path_join data_dir HOSTS_PLAINTEXT_FILENAME"
    and "enc \<noteq> plain" "fs enc = None" "io_ok io1 enc fs" "io_tmp io2 \<noteq> plain" "io_tmp io2 \<noteq> enc"
    and "fs (io_tmp io2) = None"
    and "ensure_mirrored cr io1 io2 data_dir enc_name HOSTS_PLAINTEXT_FILENAME key1 purpose initial fs
      = (fs', Inr doc)"
  shows "doc = initial \<and> load cr enc key1 purpose fs' = Inr (detuple doc) \<and>
    load_hosts_json basedir fs' = Inr (detuple doc)"
proof -
  have env: "envelope_ok cr key1 purpose (io_nonce io1)"
    using assms by (simp add: envelope_ok_def io_ok_def)
  obtain bs where bs: "json_bytes_indent initial = Inr bs"
    "bindE (utf8_decode bs) json_loads = Inr (detuple initial)" by (rule mirror_text [OF assms(4)])
  obtain fs1 where fs1: "save cr io1 enc key1 purpose initial fs = (fs1, Inr ())"
    and aw: "atomic_write_bytes (io_plan io2) (io_tmp io2) plain bs fs1 = (fs', Inr ())" and doc: "doc = initial"
    using assms(9,14) bs(1)
    by (auto simp: ensure_mirrored_def save_mirrored_def path_exists_def assms(6,7)
        split: prod.splits sum.splits)
  note saved = load_saved [OF assms(10) env assms(4) fs1]
  have "fs1 (io_tmp io2) = None" using saved(2) assms(12,13) by (metis fun_upd_other)
  from atomic_write_ok [where fs = fs1, OF assms(11) this aw] have fs': "fs' = fs1(plain := Some bs)" .
  then have "load cr enc key1 purpose fs' = load cr enc key1 purpose fs1"
    using assms(8) by (simp add: load_def read_file_def)
  moreover have "load_hosts_json basedir fs' = Inr (detuple initial)"
    using bs(2) fs' assms(5,7) by (simp add: load_hosts_json_def read_file_def)
  ultimately show ?thesis using saved(1) doc by simp
qed

definition example_io2 :: "plan \<Rightarrow> io" where
  "example_io2 p = \<lparr>io_nonce = replicate 12 8, io_tmp = lit ''/d/.tmp-2.tmp'', io_plan = p\<rparr>"

lemma example_mirror:
  "\<exists>fs'. ensure_mirrored example_crypto (example_io Finish) (example_io2 Finish) (path_join (lit ''/b'') (lit ''data''))
     (lit ''hosts.dta'') HOSTS_PLAINTEXT_FILENAME (lit ''k'') (lit ''p'') example_doc (\<lambda>_. None) = (fs', Inr example_doc)"
proof -
  obtain bs where bs: "json_bytes_indent example_doc = Inr bs" by (rule mirror_text [OF example_doc_ok(1)])
  obtain fs1 where "save example_crypto (example_io Finish)
      (path_join (path_join (lit ''/b'') (lit ''data'')) (lit ''hosts.dta'')) (lit ''k'') (lit ''p'') example_doc
      (\<lambda>_. None) = (fs1, Inr ())"
    using save_finishes [OF _ example_doc_ok(1) example_envelope] by (fastforce simp: example_io_def)
  with bs show ?thesis
    by (simp add: ensure_mirrored_def save_mirrored_def path_exists_def example_io2_def)
qed

theorem mirror_agrees_witness:
  "\<exists>fs'. ensure_mirrored example_crypto (example_io Finish) (example_io2 Finish) (path_join (lit ''/b'') (lit ''data''))
     (lit ''hosts.dta'') HOSTS_PLAINTEXT_FILENAME (lit ''k'') (lit ''p'') example_doc (\<lambda>_. None) = (fs', Inr example_doc) \<and>
   load_hosts_json (lit ''/b'') fs' = Inr (detuple example_doc)"
proof -
  have names: "path_join (path_join (lit ''/b'') (lit ''data'')) (lit ''hosts.dta'') = lit ''/b/data/hosts.dta''"
    "path_join (path_join (lit ''/b'') (lit ''data'')) HOSTS_PLAINTEXT_FILENAME = lit ''/b/data/hosts.json''"
    by (simp_all add: path_join_def lit_def HOSTS_PLAINTEXT_FILENAME_def)
  obtain fs' where e: "ensure_mirrored example_crypto (example_io Finish) (example_io2 Finish)
     (path_join (lit ''/b'') (lit ''data'')) (lit ''hosts.dta'') HOSTS_PLAINTEXT_FILENAME (lit ''k'') (lit ''p'')
     example_doc (\<lambda>_. None) = (fs', Inr example_doc)"
    using example_mirror by blast
  have "example_doc = example_doc \<and>
    load example_crypto (lit ''/b/data/hosts.dta'') (lit ''k'') (lit ''p'') fs' = Inr (detuple example_doc) \<and>
    load_hosts_json (lit ''/b'') fs' = Inr (detuple example_doc)"
    by (rule mirror_agrees [OF _ _ _ _ refl names [symmetric] _ _ _ _ _ _ e])
       (simp_all add: example_crypto_ok example_doc_ok io_ok_def example_io_def example_io2_def NONCE_SIZE_def)
  with e show ?thesis by blast
qed

text \<open>
  A lost mirror stays lost. If the write of the mirror fails after the encrypted file was
  written, \<open>ensure_mirrored\<close> raises, and no later call ever writes the mirror, because the encrypted
  file exists by then: the files stay exactly as they are.
\<close>

theorem mirror_never_repaired:
  assumes "io_ok io1 enc fs" "enc = path_join data_dir enc_name" "plain = path_join data_dir plain_name"
    and "fs enc = None" "save cr io1 enc key1 purpose initial fs = (fs1, Inr ())"
    and "fs1 (io_tmp io2) = None" "io_tmp io2 \<noteq> enc" "io_tmp io2 \<noteq> plain" "enc \<noteq> plain"
    and "json_bytes_indent initial = Inr bs"
    and "io_plan io2 = Interrupt n e cleaned" "n < length (sys_calls bs)"
  shows "\<exists>fs'. ensure_mirrored cr io1 io2 data_dir enc_name plain_name key1 purpose initial fs = (fs', Inl e) \<and>
    fs' plain = fs plain \<and>
    fst (ensure_mirrored cr io3 io4 data_dir enc_name plain_name key1' purpose' initial' fs') = fs'"
proof -
  obtain blob where fs1: "fs1 = fs(enc := Some blob)" using save_Inr [OF assms(1,5)] by auto
  obtain fs' where aw: "atomic_write_bytes (io_plan io2) (io_tmp io2) plain bs fs1 = (fs', Inl e)"
    using assms(11,12) by (auto simp: Let_def)
  obtain c where fs': "fs' = fs1(io_tmp io2 := c)"
    using atomic_write_raised [where fs = fs1, OF assms(6) aw] by blast
  have "ensure_mirrored cr io1 io2 data_dir enc_name plain_name key1 purpose initial fs = (fs', Inl e)"
    using assms(2-5,10) aw by (simp add: ensure_mirrored_def save_mirrored_def path_exists_def)
  moreover have "fs' plain = fs plain" using fs' fs1 assms(8,9) by simp
  moreover have "path_exists fs' (path_join data_dir enc_name)"
    using fs' fs1 assms(2,7) by (simp add: path_exists_def)
  then have "fst (ensure_mirrored cr io3 io4 data_dir enc_name plain_name key1' purpose' initial' fs') = fs'"
    by (simp add: ensure_mirrored_def)
  ultimately show ?thesis by blast
qed

theorem mirror_never_repaired_witness:
  "\<exists>fs'. ensure_mirrored example_crypto (example_io Finish) (example_io2 (Interrupt 2 OSError True)) (lit ''/d'')
     (lit ''h.dta'') (lit ''h.json'') (lit ''k'') (lit ''p'') example_doc (\<lambda>_. None) = (fs', Inl OSError) \<and>
   fs' (lit ''/d/h.json'') = None \<and>
   fst (ensure_mirrored example_crypto (example_io Finish) (example_io2 Finish) (lit ''/d'')
     (lit ''h.dta'') (lit ''h.json'') (lit ''k'') (lit ''p'') example_doc fs') = fs'"
proof -
  have names: "lit ''/d/h.dta'' = path_join (lit ''/d'') (lit ''h.dta'')"
    "lit ''/d/h.json'' = path_join (lit ''/d'') (lit ''h.json'')"
    by (simp_all add: path_join_def lit_def)
  obtain bs where bs: "json_bytes_indent example_doc = Inr bs" by (rule mirror_text [OF example_doc_ok(1)])
  have io: "io_ok (example_io Finish) (lit ''/d/h.dta'') (\<lambda>_. None)"
    by (simp add: io_ok_def example_io_def NONCE_SIZE_def)
  obtain fs1 where fs1: "save example_crypto (example_io Finish) (lit ''/d/h.dta'') (lit ''k'') (lit ''p'')
      example_doc (\<lambda>_. None) = (fs1, Inr ())"
    using save_finishes [OF _ example_doc_ok(1) example_envelope] by (fastforce simp: example_io_def)
  have "fs1 (io_tmp (example_io2 (Interrupt 2 OSError True))) = None"
    using save_Inr [OF io fs1] by (auto simp: example_io2_def)
  from mirror_never_repaired [OF io names refl fs1 this _ _ _ bs, of 2 OSError True] show ?thesis
    by (simp add: example_io2_def sys_calls_def)
qed

end
