(* ===== verification/ServerProperties.thy ===== *)
theory ServerProperties
  imports ServerInvariant ShamirProperties CryptoFileProperties
begin

text \<open>
  The properties of the server: who may store and fetch a share, what a stored share is worth,
  the records of own secrets, what is on disk after an answer, and what the initiator is told about
  the start.
\<close>

section \<open>A worked server\<close>

definition example_platform :: "platform" where
  "example_platform = \<lparr>pf_crypto = example_crypto, pf_lower = id, pf_int = (\<lambda>_. None), pf_exn_text = (\<lambda>_. [])\<rparr>"

definition example_app :: "app_config" where
  "example_app = \<lparr>ac_basedir = lit ''/b'', ac_key1 = lit ''k'',
     ac_hosts = default_hosts_data (lit ''bob'') (lit ''now'') 59222, ac_sites = default_sites_data,
     ac_secrets = default_secrets_data, ac_shares = default_shares_data, ac_files = (\<lambda>_. None)\<rparr>"

definition example_request :: "string \<Rightarrow> pyval \<Rightarrow> plan \<Rightarrow> request" where
  "example_request cn body p = \<lparr>rq_peercert = Some [[(lit ''commonName'', lit cn)]], rq_json = Inr body,
     rq_now = lit ''later'', rq_io = example_io p\<rparr>"

definition example_share :: "pyval dict" where
  "example_share = [(lit ''keys'', participant_keys example_matrix 0),
     (lit ''creation_date'', PStr (lit ''now'')), (lit ''owner'', PStr (lit ''alice'')),
     (lit ''name'', PStr (lit ''n'')), (lit ''uuid'', PStr (lit ''u'')), (lit ''treshold'', PInt 2),
     (lit ''shares'', PInt 3), (lit ''secret_hash'', PStr (sha256_hexdigest [97]))]"

lemma example_share_participant: "PDict example_share = participant_data example_dealer 0"
  by (simp add: example_share_def participant_data_def example_dealer_def example_empty_def)

lemma example_app_ok: "app_ok example_app"
  by (auto simp: app_ok_def example_app_def default_shares_data_def default_secrets_data_def table_ok_def
      stored_shares_def stored_secrets_def entries_def table_def dict_ok_def)

lemma example_no_shares: "stored_shares example_app u = None"
  by (simp add: example_app_def default_shares_data_def stored_shares_def entries_def table_def)

lemma caller_example:
  "caller_is example_platform (example_request cn body p) name \<longleftrightarrow>
     str_lower id (first_label (lit cn)) = str_lower id name"
  by (simp add: caller_is_def client_common_name_def example_request_def hostname_from_common_name_def
      example_platform_def)

lemma caller_alice: "caller_is example_platform (example_request ''alice'' body p) (lit ''alice'')"
  "\<not> caller_is example_platform (example_request ''bob'' body p) (lit ''alice'')"
  by (simp_all add: caller_example first_label_def str_lower_def lower_ascii_def lit_def)

lemma check_share_dealt:
  assumes "dealt secret d" "share_view d i v" "i < nat (ss_shares d)"
  shows "check_share v = Inr ()"
proof -
  obtain s where s: "shamir_init_default [] [] [] = Inr s"
    by (simp add: shamir_init_default_def shamir_init_def)
  have "2 \<le> ss_treshold d" using assms(1) by (auto simp: dealt_def)
  then have "collected d [] s"
    using s unfolding shamir_init_default_def by (intro collected_init) auto
  from collect_new_share [OF assms(1) this assms(2) _ assms(3)] s show ?thesis
    by (auto simp: check_share_def)
qed

lemma example_submission:
  "valid_submission example_platform (lit ''u'') (example_request ''alice'' (PDict example_share) p) example_share"
proof -
  have "check_share (PDict example_share) = Inr ()"
    unfolding example_share_participant
    by (rule check_share_dealt [OF example_dealt share_view_participant])
       (simp add: example_dealer_def example_empty_def)
  then show ?thesis
    by (auto simp: valid_submission_def example_request_def [of _ "PDict _"] example_share_def
        caller_alice(1) [of "PDict example_share" p, unfolded example_share_def example_request_def])
qed

section \<open>Who gets and who stores a share\<close>

text \<open>
  C20: a share is handed out to its owner only. \<open>get_share\<close> changes nothing; it answers 404 when
  nothing is stored under the uuid, 200 with exactly the stored share when the host name of the
  verified client certificate is that of the owner of the share, and 403 to everybody else.
\<close>

theorem share_only_to_owner:
  assumes "app_ok ac"
  shows "\<exists>resp. get_share pf u rq ac = (ac, resp) \<and>
    (case stored_shares ac u of
       None \<Rightarrow> resp = Inl (HTTPError 404)
     | Some v \<Rightarrow> \<exists>owner. owned_by v owner \<and>
         resp = (if caller_is pf rq owner then Inr (200, v) else Inl (HTTPError 403)))"
proof (cases "stored_shares ac u")
  case (Some v)
  then have "share_entry u v" using assms by (simp add: app_ok_def)
  then obtain owner where "owned_by v owner" by (auto simp: share_entry_def owned_by_def)
  moreover from this have "owned_by v ow \<longleftrightarrow> ow = owner" for ow by (auto simp: owned_by_def)
  ultimately show ?thesis using Some by (auto simp: get_share_eval [OF assms])
qed (simp add: get_share_eval [OF assms])

theorem share_only_to_owner_witness:
  "\<exists>resp. get_share example_platform (lit ''u'') (example_request ''bob'' PNone Finish) example_app = (example_app, resp) \<and>
    resp = Inl (HTTPError 404)"
  using share_only_to_owner [OF example_app_ok, of example_platform "lit ''u''"] by (simp add: example_no_shares)

text \<open>
  C19: a stored share is never overwritten or lost. Whatever requests a running server has answered,
  from whomever and in whatever order, every share that it had is still there unchanged; and a
  request can only add one share, under the uuid of its path, with an owner that is the caller.
\<close>

theorem shares_are_immutable:
  assumes "app_ok ac0" "serves pf ac0 ac" "handle pf route rq ac = (ac', resp)"
  shows "(\<forall>u v. stored_shares ac0 u = Some v \<longrightarrow> stored_shares ac' u = Some v) \<and>
    (stored_shares ac' \<noteq> stored_shares ac \<longrightarrow>
      (\<exists>u v owner. route = PostShare u \<and> rq_json rq = Inr v \<and> stored_shares ac u = None \<and>
         stored_shares ac' = (stored_shares ac)(u \<mapsto> v) \<and> owned_by v owner \<and> caller_is pf rq owner))"
proof -
  have ok: "app_ok ac" by (rule serves_app_ok [OF assms(2,1)])
  have "serves pf ac0 ac'" by (rule serves.request [OF assms(2,3)])
  from serves_shares [OF this assms(1)] have "\<forall>u v. stored_shares ac0 u = Some v \<longrightarrow> stored_shares ac' u = Some v"
    by (auto simp: map_le_def dom_def)
  then show ?thesis using shares_after_handle [OF assms(3) ok] by blast
qed

text \<open>
  C24: what a valid submission by the owner is answered. On a uuid that is free the share is stored;
  on one that holds an equal share the answer is \<open>already-stored\<close>, on one that holds a different
  share it is 409, and in both cases nothing changes. Submissions by anyone else are refused.
\<close>

theorem submission_answers:
  assumes "app_ok ac" "rq_json rq = Inr (PDict d)" "map_of d (lit ''uuid'') = Some (PStr u)"
    and "check_share (PDict d) = Inr ()" "map_of d (lit ''owner'') = Some (PStr owner)"
    and "store_share pf u rq ac = (ac', resp)"
  shows "if \<not> caller_is pf rq owner then ac' = ac \<and> resp = Inl (HTTPError 403)
    else case stored_shares ac u of
      Some w \<Rightarrow> ac' = ac \<and>
        resp = (if py_eq w (PDict d) then Inr (200, status_doc ''already-stored'') else Inl (HTTPError 409))
    | None \<Rightarrow> stored_shares ac' u = Some (PDict d) \<and> (\<forall>code body. resp = Inr (code, body) \<longrightarrow> code = 201)"
proof (cases "caller_is pf rq owner")
  case False
  then show ?thesis using assms(2-6)
    by (auto simp: store_share_def dict_get_PStr require_owner_PStr)
next
  case True
  then have valid: "valid_submission pf u rq d" using assms(2-5) by (auto simp: valid_submission_def)
  have "table_ok (ac_shares ac) (lit ''shares'')" using assms(1) by (simp add: app_ok_def)
  then show ?thesis
    using True store_share_eval [OF assms(1) valid] assms(6)
    by (cases "stored_shares ac u")
       (auto simp: persist_shares_def stored_shares_def split: prod.splits sum.splits)
qed

theorem submission_answers_witness:
  "store_share example_platform (lit ''u'') (example_request ''bob'' (PDict example_share) Finish) example_app
    = (example_app, Inl (HTTPError 403))"
proof -
  obtain ac' resp where s: "store_share example_platform (lit ''u'')
      (example_request ''bob'' (PDict example_share) Finish) example_app = (ac', resp)" by force
  have "check_share (PDict example_share) = Inr ()" using example_submission by (simp add: valid_submission_def)
  from submission_answers [OF example_app_ok _ _ this _ s, of "lit ''alice''"] s
  show ?thesis by (simp add: caller_alice) (simp add: example_request_def example_share_def)
qed

text \<open>
  C18: a share that was answered 201 is what its owner fetches, byte for byte the submitted document,
  after any further submissions by anybody; other callers get 403; and no later submission for that
  uuid is ever answered 201.
\<close>

theorem created_share_is_fetched:
  assumes "app_ok ac" "store_share pf u (rq\<lparr>rq_json := Inr v\<rparr>) ac = (ac1, Inr (201, body))"
    and "ac2 = fold (\<lambda>(c, w, x) n. fst (store_share pf w (c\<lparr>rq_json := Inr x\<rparr>) n)) ops ac1"
  shows "get_share pf u c ac2 = (ac2, if \<exists>owner. owned_by v owner \<and> caller_is pf c owner
      then Inr (200, v) else Inl (HTTPError 403)) \<and>
    \<not> created (snd (store_share pf u c ac2))"
proof -
  have put: "server_put pf ac rq u v = (ac1, True)"
    using assms(2) by (simp add: server_put_def created_def)
  have puts: "server_store.puts pf ops ac1 = ac2"
    unfolding assms(3) server_store.puts_def
    by (intro fold_cong) (auto simp: server_put_def)
  have "snd (get_share pf u c ac2) = (if \<exists>owner. owned_by v owner \<and> caller_is pf c owner
      then Inr (200, v) else Inl (HTTPError 403))"
    using server_store.created_is_fetched [OF assms(1), of pf rq u v ops c] put puts by (simp add: server_get_def)
  moreover have "fst (get_share pf u c ac2) = ac2" by (simp add: get_share_def)
  moreover have "\<not> created (snd (store_share pf u c ac2))"
  proof (cases "rq_json c")
    case (Inl e)
    then show ?thesis by (simp add: store_share_def created_def)
  next
    case (Inr x)
    then have "c\<lparr>rq_json := Inr x\<rparr> = c" by simp
    moreover have "\<not> snd (server_put pf ac2 c u x)"
      using server_store.created_once [OF assms(1), of pf rq u v ops c x] put puts by simp
    ultimately show ?thesis by (simp add: server_put_def)
  qed
  ultimately show ?thesis using surjective_pairing [of "get_share pf u c ac2"] by simp
qed

lemma str_ok_ascii: "list_all (\<lambda>c. c < 128) s \<Longrightarrow> str_ok s"
proof -
  assume a: "list_all (\<lambda>c. c < 128) s"
  have "no_pair s" using a by (induction s rule: no_pair.induct) (auto simp: is_high_def)
  then show ?thesis using a by (auto simp: str_ok_def list_all_iff)
qed

lemma str_ok_lit [simp]: "list_all (\<lambda>c. of_char c < (128 :: nat)) s \<Longrightarrow> str_ok (lit s)"
  by (rule str_ok_ascii) (auto simp: lit_def list_all_iff)

lemma example_share_json: "json_ok (PDict example_share)"
proof -
  have "str_ok (sha256_hexdigest [97])"
    by (rule str_ok_ascii) (auto simp: list_all_iff dest: sha256_hexdigest_ascii)
  then show ?thesis
    by (simp add: example_share_def dict_ok_def participant_keys_def example_matrix_def dec_digits.simps
        MAX_STR_DIGITS_def)
qed

lemma example_stored:
  "\<exists>ac1. store_share example_platform (lit ''u'')
     (example_request ''alice'' PNone Finish\<lparr>rq_json := Inr (PDict example_share)\<rparr>) example_app
    = (ac1, Inr (201, status_doc ''stored''))"
proof -
  let ?rq = "example_request ''alice'' PNone Finish\<lparr>rq_json := Inr (PDict example_share)\<rparr>"
  let ?sh = "table_put (ac_shares example_app) (lit ''shares'') (lit ''u'') (PDict example_share)"
  have rq: "?rq = example_request ''alice'' (PDict example_share) Finish" by (simp add: example_request_def)
  have "json_ok ?sh"
    using example_share_json
    by (simp add: table_put_def example_app_def default_shares_data_def dict_ok_def)
  moreover have "io_plan (rq_io ?rq) = Finish" "io_nonce (rq_io ?rq) = io_nonce (example_io Finish)"
    by (simp_all add: example_request_def example_io_def)
  ultimately obtain fs where "save example_crypto (rq_io ?rq) (data_path example_app SHARES_FILENAME) (lit ''k'')
      SHARES_FILE_PURPOSE ?sh (ac_files example_app) = (fs, Inr ())"
    using save_finishes example_envelope [of "''k''" _ Finish] unfolding SHARES_FILE_PURPOSE_def by metis
  then show ?thesis unfolding rq
    using store_share_eval [OF example_app_ok example_submission]
    by (simp add: example_no_shares persist_shares_def data_path_def example_platform_def example_request_def)
      (simp add: example_app_def)
qed

lemma created_is_held:
  assumes "store_share pf u rq ac = (ac1, Inr (201, body))" "app_ok ac" "rq_json rq = Inr v"
  shows "app_ok ac1" "stored_shares ac1 u = Some v"
proof -
  show "app_ok ac1" by (rule app_ok_store_share [OF assms(1,2)])
  from assms(1,2) show "stored_shares ac1 u = Some v"
  proof (cases rule: store_share_cases)
    case (stored d owner fs r)
    then show ?thesis using assms(2,3) by (simp add: stored_shares_def app_ok_def)
  qed auto
qed

theorem shares_are_immutable_witness:
  "\<exists>ac1. stored_shares ac1 (lit ''u'') = Some (PDict example_share) \<and>
    stored_shares (fst (handle example_platform (PostShare (lit ''u''))
      (example_request ''bob'' PNone Finish) ac1)) (lit ''u'') = Some (PDict example_share)"
proof -
  obtain ac1 where s: "store_share example_platform (lit ''u'')
     (example_request ''alice'' PNone Finish\<lparr>rq_json := Inr (PDict example_share)\<rparr>) example_app
    = (ac1, Inr (201, status_doc ''stored''))" using example_stored by blast
  have ac1: "app_ok ac1" "stored_shares ac1 (lit ''u'') = Some (PDict example_share)"
    using created_is_held [OF s example_app_ok] by simp_all
  obtain ac2 resp where "handle example_platform (PostShare (lit ''u'')) (example_request ''bob'' PNone Finish) ac1
    = (ac2, resp)" by (rule prod.exhaust)
  from shares_are_immutable [OF ac1(1) serves.start this] ac1(2) this show ?thesis by auto
qed

theorem created_share_is_fetched_witness:
  "\<exists>ac1. get_share example_platform (lit ''u'') (example_request ''alice'' PNone Finish) ac1 =
      (ac1, Inr (200, PDict example_share)) \<and>
    get_share example_platform (lit ''u'') (example_request ''bob'' PNone Finish) ac1 = (ac1, Inl (HTTPError 403))"
proof -
  obtain ac1 where s: "store_share example_platform (lit ''u'')
     (example_request ''alice'' PNone Finish\<lparr>rq_json := Inr (PDict example_share)\<rparr>) example_app
    = (ac1, Inr (201, status_doc ''stored''))" using example_stored by blast
  have own: "owned_by (PDict example_share) ow \<longleftrightarrow> ow = lit ''alice''" for ow
    by (auto simp: owned_by_def example_share_def)
  show ?thesis
    using created_share_is_fetched [OF example_app_ok s, of ac1 "[]" "example_request ''alice'' PNone Finish"]
      created_share_is_fetched [OF example_app_ok s, of ac1 "[]" "example_request ''bob'' PNone Finish"]
    by (auto simp: own caller_alice)
qed


section \<open>Own secrets\<close>

lemma secrets_table: "app_ok ac \<Longrightarrow> \<exists>t. table (ac_secrets ac) (lit ''secrets'') = Inr t \<and> stored_secrets ac = map_of t"
  using table_ok_table unfolding app_ok_def stored_secrets_def by metis

text \<open>
  C26: the records of own secrets belong to this host. A request that changes them carries a
  certificate of the own host name; a caller with any other certificate reads 403; and what was
  answered 201 is what the same caller then reads under that name.
\<close>

theorem own_secrets_guarded:
  assumes "app_ok ac" "own_name_of ac = Inr (PStr own)" "handle pf route rq ac = (ac', resp)"
  shows "(stored_secrets ac' \<noteq> stored_secrets ac \<longrightarrow> caller_is pf rq own) \<and>
    (\<not> caller_is pf rq own \<longrightarrow> get_secret_metadata pf n rq ac = (ac, Inl (HTTPError 403))) \<and>
    (\<forall>rec. route = PostSecret n \<and> resp = Inr (201, rec) \<longrightarrow>
       get_secret_metadata pf n rq ac' = (ac', Inr (200, rec)))"
proof (intro conjI allI impI)
  assume "stored_secrets ac' \<noteq> stored_secrets ac"
  then show "caller_is pf rq own" using secrets_after_handle [OF assms(3,1)] assms(2) by auto
next
  assume "\<not> caller_is pf rq own"
  then show "get_secret_metadata pf n rq ac = (ac, Inl (HTTPError 403))"
    using assms(2) by (simp add: get_secret_metadata_def require_owner_PStr)
next
  fix rec assume r: "route = PostSecret n \<and> resp = Inr (201, rec)"
  then have s: "store_secret_metadata pf n rq ac = (ac', Inr (201, rec))" using assms(3) by simp
  have ok': "app_ok ac'" by (rule app_ok_store_secret [OF s assms(1)])
  from s show "get_secret_metadata pf n rq ac' = (ac', Inr (200, rec))"
  proof (cases rule: store_secret_cases)
    case (recorded own' uuid t k fs r)
    have rec: "rec = secret_record uuid t k (rq_now rq)" using recorded(5) by (auto split: sum.splits)
    have "stored_secrets ac' n = Some rec"
      using recorded(3) assms(1) rec by (simp add: stored_secrets_def app_ok_def)
    moreover have "own_name_of ac' = Inr (PStr own')" using recorded(1,3) by (simp add: own_name_of_def)
    ultimately show ?thesis
      using secrets_table [OF ok'] recorded(2) rec
      by (auto simp: get_secret_metadata_def require_owner_PStr dict_get_def secret_record_def Let_def)
  qed auto
qed

lemma example_own_name: "own_name_of example_app = Inr (PStr (lit ''bob''))"
  by (simp add: own_name_of_def example_app_def default_hosts_data_def own_host_entry_def hosts_items_def
      record_get_def dict_get_def named_record_def dict_merge_def Let_def)

theorem own_secrets_guarded_witness:
  "get_secret_metadata example_platform (lit ''x'') (example_request ''alice'' PNone Finish) example_app
    = (example_app, Inl (HTTPError 403))"
proof -
  have "\<not> caller_is example_platform (example_request ''alice'' PNone Finish) (lit ''bob'')"
    by (simp add: caller_example first_label_def str_lower_def lower_ascii_def lit_def)
  then show ?thesis
    using own_secrets_guarded [OF example_app_ok example_own_name surjective_pairing] by blast
qed

lemma str_lower_ascii_dot:
  "list_all (\<lambda>c. c < 128) s \<Longrightarrow> 46 \<in> set (str_lower f s) \<longleftrightarrow> 46 \<in> set s"
proof -
  have "lower_ascii c = 46 \<longleftrightarrow> c = 46" for c by (auto simp: lower_ascii_def)
  moreover assume "list_all (\<lambda>c. c < 128) s"
  ultimately show ?thesis by (auto simp: str_lower_def image_iff)
qed

lemma first_label_no_dot: "46 \<notin> set (first_label s)"
  by (auto simp: first_label_def dest: set_takeWhileD)

lemma dotted_name_never_matches:
  assumes "46 \<in> set name" "list_all (\<lambda>c. c < 128) name"
    and "\<And>cn. client_common_name (rq_peercert rq) = Some cn \<Longrightarrow> list_all (\<lambda>c. c < 128) cn"
  shows "\<not> caller_is pf rq name"
proof
  assume "caller_is pf rq name"
  then obtain cn where cn: "client_common_name (rq_peercert rq) = Some cn"
    "str_lower (pf_lower pf) (first_label cn) = str_lower (pf_lower pf) name"
    by (auto simp: caller_is_def hostname_from_common_name_def)
  have "list_all (\<lambda>c. c < 128) (first_label cn)"
    using assms(3) [OF cn(1)] by (auto simp: first_label_def list_all_iff dest: set_takeWhileD)
  then show False
    using cn(2) assms(1,2) str_lower_ascii_dot first_label_no_dot by metis
qed

text \<open>
  C38: a host whose own name contains a dot is locked out of its own server. The certificate is
  compared by its first label only, the own name as a whole, so with an own name such as
  \<open>a.example.org\<close> no certificate with an ASCII common name is ever accepted: reading a record is
  403, recording one changes nothing, and peers refuse its shares with 403.
\<close>

theorem dotted_own_name_is_refused:
  assumes "own_name_of ac = Inr (PStr own)" "46 \<in> set own" "list_all (\<lambda>c. c < 128) own"
    and "client_common_name (rq_peercert rq) = Some cn" "list_all (\<lambda>c. c < 128) cn"
  shows "get_secret_metadata pf n rq ac = (ac, Inl (HTTPError 403)) \<and>
    (\<exists>e. store_secret_metadata pf n rq ac = (ac, Inl e)) \<and>
    (\<forall>d. rq_json rq = Inr (PDict d) \<and> map_of d (lit ''uuid'') = Some (PStr u) \<and>
       check_share (PDict d) = Inr () \<and> map_of d (lit ''owner'') = Some (PStr own) \<longrightarrow>
       store_share pf u rq ac = (ac, Inl (HTTPError 403)))"
proof -
  have no: "\<not> caller_is pf rq own"
    by (rule dotted_name_never_matches [OF assms(2,3)]) (use assms(4,5) in simp)
  obtain ac' resp where s: "store_secret_metadata pf n rq ac = (ac', resp)" by force
  then have "ac' = ac \<and> (\<exists>e. resp = Inl e)"
    by (cases rule: store_secret_cases) (use no assms(1) in auto)
  then show ?thesis using no assms(1) s
    by (auto simp: get_secret_metadata_def require_owner_PStr store_share_def dict_get_PStr)
qed

definition dotted_app :: "app_config" where
  "dotted_app = example_app\<lparr>ac_hosts := default_hosts_data (lit ''bob.org'') (lit ''now'') 59222\<rparr>"

theorem dotted_own_name_is_refused_witness:
  "get_secret_metadata example_platform (lit ''x'') (example_request ''bob.org'' PNone Finish) dotted_app
    = (dotted_app, Inl (HTTPError 403))"
proof -
  have own: "own_name_of dotted_app = Inr (PStr (lit ''bob.org''))"
    by (simp add: own_name_of_def dotted_app_def default_hosts_data_def own_host_entry_def hosts_items_def
        record_get_def dict_get_def named_record_def dict_merge_def Let_def)
  have cn: "client_common_name (rq_peercert (example_request ''bob.org'' PNone Finish)) = Some (lit ''bob.org'')"
    by (simp add: client_common_name_def example_request_def)
  show ?thesis
    using dotted_own_name_is_refused [OF own _ _ cn] by (simp add: lit_def)
qed

section \<open>What is on disk\<close>

definition shares_path :: "app_config \<Rightarrow> path" where
  "shares_path ac = data_path ac SHARES_FILENAME"

definition disk_shares :: "platform \<Rightarrow> app_config \<Rightarrow> pyval py" where
  "disk_shares pf ac = load (pf_crypto pf) (shares_path ac) (ac_key1 ac) SHARES_FILE_PURPOSE (ac_files ac)"

lemma purpose_scalar [simp]:
  "list_all is_scalar SHARES_FILE_PURPOSE" "list_all is_scalar SECRETS_FILE_PURPOSE"
  "list_all is_scalar HOSTS_FILE_PURPOSE" "list_all is_scalar SITES_FILE_PURPOSE"
  by (simp_all add: SHARES_FILE_PURPOSE_def SECRETS_FILE_PURPOSE_def HOSTS_FILE_PURPOSE_def SITES_FILE_PURPOSE_def)

text \<open>
  C23: an answer 201 means that the share is on disk. After it, decrypting \<open>shares.dta\<close> gives the
  whole table of shares in memory, the new share included (tuples as lists), whatever happened to
  earlier writes; and no other file was touched.
\<close>

theorem created_share_is_durable:
  assumes "app_ok ac" "store_share pf u rq ac = (ac', Inr (201, body))"
    and "aead_correct (pf_crypto pf)" "list_all is_scalar (ac_key1 ac)"
    and "io_ok (rq_io rq) (shares_path ac) (ac_files ac)" "json_ok (ac_shares ac')"
  shows "disk_shares pf ac' = Inr (detuple (ac_shares ac')) \<and>
    (\<forall>p. p \<noteq> shares_path ac \<longrightarrow> ac_files ac' p = ac_files ac p)"
  using assms(2,1)
proof (cases rule: store_share_cases)
  case (stored d owner fs r)
  have ac': "ac_shares ac' = table_put (ac_shares ac) (lit ''shares'') u (PDict d)" "ac_files ac' = fs"
    "ac_key1 ac' = ac_key1 ac" "shares_path ac' = shares_path ac"
    using stored(7) by (simp_all add: shares_path_def data_path_def)
  have sv: "save (pf_crypto pf) (rq_io rq) (shares_path ac) (ac_key1 ac) SHARES_FILE_PURPOSE (ac_shares ac')
      (ac_files ac) = (fs, Inr ())"
    using stored(8,9) ac' by (auto simp: shares_path_def split: sum.splits)
  have env: "envelope_ok (pf_crypto pf) (ac_key1 ac) SHARES_FILE_PURPOSE (io_nonce (rq_io rq))"
    using assms(3-5) by (simp add: envelope_ok_def io_ok_def)
  note saved = load_saved [OF assms(5) env assms(6) sv]
  from saved(1) have "disk_shares pf ac' = Inr (detuple (ac_shares ac'))" by (simp add: disk_shares_def ac')
  moreover have "ac_files ac' p = ac_files ac p" if "p \<noteq> shares_path ac" for p
    using saved(2) that ac'(2) by (metis fun_upd_other)
  ultimately show ?thesis by blast
qed simp_all

lemma example_table_json: "json_ok (table_put default_shares_data (lit ''shares'') (lit ''u'') (PDict example_share))"
  using example_share_json by (simp add: table_put_def default_shares_data_def dict_ok_def)

lemma example_shares_path: "shares_path example_app = lit ''/b/data/shares.dta''"
  by (simp add: shares_path_def data_path_def path_join_def example_app_def SHARES_FILENAME_def lit_def)

theorem created_share_is_durable_witness:
  "\<exists>ac1. store_share example_platform (lit ''u'')
       (example_request ''alice'' PNone Finish\<lparr>rq_json := Inr (PDict example_share)\<rparr>) example_app
     = (ac1, Inr (201, status_doc ''stored'')) \<and>
     disk_shares example_platform ac1 = Inr (detuple (ac_shares ac1))"
proof -
  let ?rq = "example_request ''alice'' PNone Finish\<lparr>rq_json := Inr (PDict example_share)\<rparr>"
  obtain ac1 where s: "store_share example_platform (lit ''u'') ?rq example_app
      = (ac1, Inr (201, status_doc ''stored''))" using example_stored by blast
  have js: "json_ok (ac_shares ac1)"
    using s example_app_ok
  proof (cases rule: store_share_cases)
    case (stored d owner fs r)
    then show ?thesis using example_table_json by (simp add: example_app_def)
  qed simp_all
  have io: "io_ok (rq_io ?rq) (shares_path example_app) (ac_files example_app)"
    by (simp add: io_ok_def example_request_def example_io_def example_shares_path NONCE_SIZE_def)
      (simp add: example_app_def)
  have cr: "aead_correct (pf_crypto example_platform)" by (simp add: example_platform_def example_crypto_ok)
  have key: "list_all is_scalar (ac_key1 example_app)" by (simp add: example_app_def)
  show ?thesis using created_share_is_durable [OF example_app_ok s cr key io js] s by blast
qed

text \<open>
  C37: a failed write is not noticed by a retry. If \<open>store_share\<close> raises while it writes the file, the
  share stays in memory although the file is as before, and the same submission sent again is
  answered 200 \<open>already-stored\<close> without any write: the owner is told that the share is safe, but the
  disk does not have it.
\<close>

theorem retry_after_failed_write:
  assumes "app_ok ac" "valid_submission pf u rq d" "val_ok (PDict d)" "stored_shares ac u = None"
    and "store_share pf u rq ac = (ac', Inl e)"
    and "ac_files ac (io_tmp (rq_io rq)) = None" "io_tmp (rq_io rq) \<noteq> shares_path ac"
  shows "store_share pf u rq ac' = (ac', Inr (200, status_doc ''already-stored'')) \<and>
    disk_shares pf ac' = disk_shares pf ac \<and> stored_shares ac' u = Some (PDict d)"
proof -
  have ok': "app_ok ac'" by (rule app_ok_store_share [OF assms(5,1)])
  let ?mem = "ac\<lparr>ac_shares := table_put (ac_shares ac) (lit ''shares'') u (PDict d)\<rparr>"
  obtain fs where p: "persist_shares pf (rq_io rq) ?mem = (ac', Inl e)"
    and fs: "ac' = ?mem\<lparr>ac_files := fs\<rparr>"
    "save (pf_crypto pf) (rq_io rq) (shares_path ac) (ac_key1 ac) SHARES_FILE_PURPOSE (ac_shares ?mem) (ac_files ac)
      = (fs, Inl e)"
    using store_share_eval [OF assms(1,2)] assms(4,5)
    by (auto simp: persist_shares_def shares_path_def data_path_def split: prod.splits sum.splits)
  have st: "stored_shares ac' u = Some (PDict d)"
    using assms(1) fs(1) by (simp add: stored_shares_def app_ok_def)
  obtain c where "fs = (ac_files ac)(io_tmp (rq_io rq) := c)"
    using save_Inl [where fs = "ac_files ac", OF assms(6) fs(2)] by blast
  then have "disk_shares pf ac' = disk_shares pf ac"
    using fs(1) assms(7) by (simp add: disk_shares_def load_def read_file_def shares_path_def data_path_def)
  moreover have "store_share pf u rq ac' = (ac', Inr (200, status_doc ''already-stored''))"
    using store_share_eval [OF ok' assms(2)] st py_eq_dict_refl [OF assms(3)] by simp
  ultimately show ?thesis using st by blast
qed


theorem retry_after_failed_write_witness:
  "\<exists>ac1. store_share example_platform (lit ''u'')
       (example_request ''alice'' (PDict example_share) (Interrupt 0 OSError True)) example_app = (ac1, Inl OSError) \<and>
     store_share example_platform (lit ''u'')
       (example_request ''alice'' (PDict example_share) (Interrupt 0 OSError True)) ac1
       = (ac1, Inr (200, status_doc ''already-stored'')) \<and>
     disk_shares example_platform ac1 = Inl FileNotFoundError"
proof -
  let ?rq = "example_request ''alice'' (PDict example_share) (Interrupt 0 OSError True)"
  let ?sh = "table_put (ac_shares example_app) (lit ''shares'') (lit ''u'') (PDict example_share)"
  obtain blob where "bindE (json_bytes ?sh) (encrypt example_crypto (lit ''k'') (lit ''secretweb-shares-v1'')
      (io_nonce (example_io (Interrupt 0 OSError True)))) = Inr blob"
    by (rule save_blob [OF _ example_envelope]) (use example_table_json in \<open>simp_all add: example_app_def\<close>)
  then have "save example_crypto (rq_io ?rq) p (lit ''k'') SHARES_FILE_PURPOSE ?sh fs = (fs, Inl OSError)" for p fs
    by (simp add: save_def SHARES_FILE_PURPOSE_def example_request_def example_io_def sys_calls_def Let_def
        crash_state_def run_calls_def)
  then have "\<exists>ac1. persist_shares example_platform (rq_io ?rq) (example_app\<lparr>ac_shares := ?sh\<rparr>) = (ac1, Inl OSError)"
    by (simp add: persist_shares_def example_platform_def) (simp add: example_app_def)
  then obtain ac1 where s: "store_share example_platform (lit ''u'') ?rq example_app = (ac1, Inl OSError)"
    using store_share_eval [OF example_app_ok example_submission [of "Interrupt 0 OSError True"]]
    by (auto simp: example_no_shares)
  have val: "val_ok (PDict example_share)"
    by (simp add: example_share_def dict_ok_def participant_keys_def example_matrix_def)
  have io: "ac_files example_app (io_tmp (rq_io ?rq)) = None" "io_tmp (rq_io ?rq) \<noteq> shares_path example_app"
    by (simp_all add: example_shares_path) (simp_all add: example_app_def example_request_def example_io_def)
  have "disk_shares example_platform example_app = Inl FileNotFoundError"
    by (simp add: disk_shares_def load_def read_file_def example_app_def)
  then show ?thesis
    using retry_after_failed_write [OF example_app_ok example_submission val example_no_shares s io] s by auto
qed

end
