(* ===== verification/StartupProperties.thy ===== *)
theory StartupProperties
  imports ServerProperties
begin

text \<open>
  The start of the server as the initiator sees it: what it is told is what happened, a restart
  with the same key restores the data, and a data file of another key stops the start.
\<close>

section \<open>Reports\<close>

definition reported :: "files \<times> byte list \<times> app_config py \<Rightarrow> bool" where
  "reported x \<longleftrightarrow> (case x of (fs, out, r) \<Rightarrow> case r of
     Inr _ \<Rightarrow> out = send_ready
   | Inl _ \<Rightarrow> out = [] \<or> (\<exists>m. send_startup_error m = Inr out))"

lemma reported_failure: "report_failure m e = (bs, e') \<Longrightarrow> reported (fs, bs, Inl e')"
  by (auto simp: report_failure_def reported_def split: if_splits sum.splits)

lemma reported_guard:
  assumes "\<And>doc fs. reported (continue doc fs)"
  shows "reported (startup_guard pf description step continue)"
proof -
  obtain fs r where step: "step = (fs, r)" by force
  show ?thesis
  proof (cases r)
    case (Inl e)
    then show ?thesis
      using reported_failure [of "lit ''failed to initialize '' @ lit description @ lit '': '' @ pf_exn_text pf e" e]
      by (auto simp: startup_guard_def step split: prod.split)
  qed (simp add: startup_guard_def step assms)
qed

lemma reported_serve: "reported (serve_start pf bound ac fs)"
  using reported_failure by (auto simp: serve_start_def reported_def split: sum.split prod.split)

lemma reported_main: "reported (server_main pf su basedir cfg handoff fs)"
  unfolding server_main_def
  by (auto intro!: reported_guard reported_serve split: sum.split) (simp add: reported_def)

text \<open>What \<open>send_key1\<close> makes of the report of a start.\<close>

lemma send_key1_report:
  assumes "server_main pf su basedir cfg handoff fs = (fs', out, r)"
    and "delivered s = out" "is_os_error (ending s)" "key1_message key1 = Inr msg"
  shows "case r of
      Inr app \<Rightarrow> send_key1 xt st key1 (Inr ()) s = (msg, Inr ())
    | Inl e \<Rightarrow> \<exists>m. send_key1 xt st key1 (Inr ()) s = (msg, Inl (ServerStartupError m))"
proof -
  have rep: "reported (fs', out, r)" using reported_main [of pf su basedir cfg handoff fs] assms(1) by simp
  show ?thesis
  proof (cases r)
    case (Inr app)
    then have "delivered s = STATUS_OK # []" using rep assms(2) by (simp add: reported_def send_ready_def)
    from await_status_ready [OF this] show ?thesis using Inr assms(4) by (simp add: send_key1_def)
  next
    case (Inl e)
    then consider "out = []" | m where "send_startup_error m = Inr out" using rep by (auto simp: reported_def)
    then show ?thesis
    proof cases
      case 1
      then have "recv_exact 1 s = Inl (ending s)"
        using assms(2) recv_exact_spec [where n = 1 and s = s] by (cases "recv_exact 1 s") auto
      then show ?thesis using Inl assms(3,4) by (simp add: send_key1_def await_status_def)
    next
      case 2
      from await_status_error [OF this, of s "[]"] assms(2) show ?thesis
        using Inl assms(4) by (simp add: send_key1_def)
    qed
  qed
qed


definition example_startup :: "unit py \<Rightarrow> startup" where
  "example_startup bound = \<lparr>su_hostname = lit ''bob'', su_now = lit ''now'',
     su_hosts_io = (example_io Finish, example_io2 Finish), su_sites_io = (example_io Finish, example_io2 Finish),
     su_secrets_io = example_io Finish, su_shares_io = example_io Finish, su_bind = (\<lambda>_ _ _. bound)\<rparr>"


section \<open>Restarting\<close>

definition data_file :: "pystr \<Rightarrow> pystr \<Rightarrow> path" where
  "data_file basedir name = path_join (path_join basedir (lit ''data'')) name"

lemma load_exists: "load cr p key1 purpose fs = Inr doc \<Longrightarrow> path_exists fs p"
  by (cases "fs p") (auto simp: load_def read_file_def path_exists_def)

lemma ensure_existing: "path_exists fs p \<Longrightarrow> ensure cr io p key1 purpose doc fs = (fs, load cr p key1 purpose fs)"
  by (simp add: ensure_def)

lemma ensure_mirrored_existing:
  "path_exists fs (path_join dir name) \<Longrightarrow>
   ensure_mirrored cr io1 io2 dir name plain key1 purpose doc fs = (fs, load cr (path_join dir name) key1 purpose fs)"
  by (simp add: ensure_mirrored_def)

text \<open>The four data files hold these documents under the key.\<close>

definition data_on_disk ::
  "platform \<Rightarrow> pystr \<Rightarrow> pystr \<Rightarrow> files \<Rightarrow> pyval \<Rightarrow> pyval \<Rightarrow> pyval \<Rightarrow> pyval \<Rightarrow> bool" where
  "data_on_disk pf basedir key1 fs hosts sites secrets shares \<longleftrightarrow>
     load (pf_crypto pf) (data_file basedir HOSTS_FILENAME) key1 HOSTS_FILE_PURPOSE fs = Inr hosts \<and>
     load (pf_crypto pf) (data_file basedir SITES_FILENAME) key1 SITES_FILE_PURPOSE fs = Inr sites \<and>
     load (pf_crypto pf) (data_file basedir SECRETS_FILENAME) key1 SECRETS_FILE_PURPOSE fs = Inr secrets \<and>
     load (pf_crypto pf) (data_file basedir SHARES_FILENAME) key1 SHARES_FILE_PURPOSE fs = Inr shares"

lemmas ensure_file_defs =
  ensure_hosts_file_def ensure_sites_file_def ensure_secrets_file_def ensure_shares_file_def

lemma server_restart:
  assumes "data_on_disk pf basedir key1 fs hosts sites secrets shares"
    and "key1_message key1 = Inr msg" "delivered handoff = msg"
    and "cfg_getint (pf_int pf) cfg (lit ''server-port'') (Some 59222) = Inr port"
    and "su_bind su (cert_paths basedir cfg) (cfg_get cfg (lit ''bind-address'') (lit ''0.0.0.0'')) port = Inr ()"
  shows "server_main pf su basedir cfg handoff fs = (fs, send_ready,
    Inr \<lparr>ac_basedir = basedir, ac_key1 = key1, ac_hosts = hosts, ac_sites = sites, ac_secrets = secrets,
          ac_shares = shares, ac_files = fs\<rparr>)"
proof -
  obtain h' where "receive_key1 handoff = Inr (key1, h')"
    by (rule receive_key1_message [OF assms(2), of handoff "[]"]) (use assms(3) in simp)
  then show ?thesis
    using assms(1,4,5)
    by (auto simp: server_main_def data_on_disk_def data_file_def ensure_file_defs startup_guard_def
        serve_start_def ensure_existing ensure_mirrored_existing load_exists)
qed

text \<open>
  C33: a restart restores the data. When the four data files decrypt under the key that arrives on
  the socket, and the port can be bound, \<open>main\<close> reports success and serves exactly the documents on
  disk, without writing any file.
\<close>

theorem restart_restores:
  assumes "data_on_disk pf basedir key1 fs hosts sites secrets shares"
    and "key1_message key1 = Inr msg" "delivered handoff = msg"
    and "cfg_getint (pf_int pf) cfg (lit ''server-port'') (Some 59222) = Inr port"
    and "su_bind su (cert_paths basedir cfg) (cfg_get cfg (lit ''bind-address'') (lit ''0.0.0.0'')) port = Inr ()"
  shows "server_main pf su basedir cfg handoff fs = (fs, send_ready,
    Inr \<lparr>ac_basedir = basedir, ac_key1 = key1, ac_hosts = hosts, ac_sites = sites, ac_secrets = secrets,
          ac_shares = shares, ac_files = fs\<rparr>)"
  by (rule server_restart [OF assms])

text \<open>
  Data of another key stops the start. If \<open>shares.dta\<close> exists but does not decrypt under the new
  key while the other three files do, \<open>main\<close> ends with \<open>InvalidCryptoFileError\<close>, writes nothing, and
  the initiator gets a \<open>ServerStartupError\<close> that names \<open>shares.dta\<close>.
\<close>

theorem foreign_shares_file_stops_start:
  assumes "load (pf_crypto pf) (data_file basedir HOSTS_FILENAME) key1 HOSTS_FILE_PURPOSE fs = Inr hosts"
    and "load (pf_crypto pf) (data_file basedir SITES_FILENAME) key1 SITES_FILE_PURPOSE fs = Inr sites"
    and "load (pf_crypto pf) (data_file basedir SECRETS_FILENAME) key1 SECRETS_FILE_PURPOSE fs = Inr secrets"
    and "fs (data_file basedir SHARES_FILENAME) = Some blob"
    and "decrypt (pf_crypto pf) key1 SHARES_FILE_PURPOSE blob = Inl InvalidCryptoFileError"
    and "key1_message key1 = Inr msg" "delivered handoff = msg"
    and "cfg_getint (pf_int pf) cfg (lit ''server-port'') (Some 59222) = Inr port"
    and "report = lit ''failed to initialize shares.dta: '' @ pf_exn_text pf InvalidCryptoFileError"
    and "send_startup_error report = Inr out"
  shows "server_main pf su basedir cfg handoff fs = (fs, out, Inl InvalidCryptoFileError) \<and>
    (delivered s = out \<longrightarrow> send_key1 xt st key1 (Inr ()) s = (msg, Inl (ServerStartupError report)))"
proof -
  obtain h' where "receive_key1 handoff = Inr (key1, h')"
    by (rule receive_key1_message [OF assms(6), of handoff "[]"]) (use assms(7) in simp)
  moreover have "load (pf_crypto pf) (data_file basedir SHARES_FILENAME) key1 SHARES_FILE_PURPOSE fs
      = Inl InvalidCryptoFileError"
    using assms(4,5) by (simp add: load_def read_file_def)
  moreover have "path_exists fs (data_file basedir SHARES_FILENAME)"
    using assms(4) by (simp add: path_exists_def)
  moreover have "report_failure
      (lit ''failed to initialize '' @ lit ''shares.dta'' @ lit '': '' @ pf_exn_text pf InvalidCryptoFileError)
      InvalidCryptoFileError = (out, InvalidCryptoFileError)"
    using assms(9,10) by (simp add: report_failure_def lit_def)
  ultimately have "server_main pf su basedir cfg handoff fs = (fs, out, Inl InvalidCryptoFileError)"
    using assms(1-3,8)
    by (simp add: server_main_def data_file_def ensure_file_defs startup_guard_def
        ensure_existing ensure_mirrored_existing load_exists)
  moreover have "send_key1 xt st key1 (Inr ()) s = (msg, Inl (ServerStartupError report))" if "delivered s = out"
    using await_status_error [OF assms(10), of s "[]"] that assms(6) by (simp add: send_key1_def)
  ultimately show ?thesis by blast
qed


section \<open>Witnesses\<close>

lemma decrypt_foreign_key:
  assumes "aead_authentic cr" "length nonce = NONCE_SIZE" "encrypt cr key1 purpose nonce pt = Inr blob"
    and "utf8_encode key1 = Inr secret" "utf8_encode key1' = Inr secret'" "utf8_encode purpose = Inr info"
    and "hkdf cr secret info \<noteq> hkdf cr secret' info"
  shows "decrypt cr key1' purpose blob = Inl InvalidCryptoFileError"
proof -
  have "blob = (MAGIC @ [VERSION]) @ nonce @ aead_enc cr (hkdf cr secret info) nonce pt (MAGIC @ [VERSION] @ info)"
    using assms(3,4,6) by (auto simp: encrypt_Inr)
  moreover have "aead_dec cr (hkdf cr secret' info) nonce
      (aead_enc cr (hkdf cr secret info) nonce pt (MAGIC @ [VERSION] @ info)) (MAGIC @ [VERSION] @ info) = None"
    using assms(1,7) unfolding aead_authentic_def by (metis not_None_eq)
  ultimately show ?thesis using decrypt_envelope [OF assms(2,5,6)] by simp
qed

lemma example_blob:
  assumes "json_ok doc"
  obtains blob where "bindE (decrypt example_crypto (lit key) (lit purpose) blob) json_loads_bytes = Inr (detuple doc)"
    "\<exists>pt. encrypt example_crypto (lit key) (lit purpose) (replicate 12 7) pt = Inr blob"
proof -
  have env: "envelope_ok example_crypto (lit key) (lit purpose) (io_nonce (example_io Finish))"
    by (rule example_envelope)
  obtain blob where b: "bindE (json_bytes doc) (encrypt example_crypto (lit key) (lit purpose)
      (io_nonce (example_io Finish))) = Inr blob"
    "bindE (decrypt example_crypto (lit key) (lit purpose) blob) json_loads_bytes = Inr (detuple doc)"
    by (rule save_blob [OF assms env])
  then show ?thesis using that [of blob] by (auto simp: bindE_Inr_iff example_io_def)
qed

lemma default_docs_ok:
  "json_ok (default_hosts_data (lit ''bob'') (lit ''now'') 59222)" "json_ok default_sites_data"
  "json_ok default_secrets_data" "json_ok default_shares_data"
  by (simp_all add: default_hosts_data_def default_sites_data_def default_secrets_data_def
      default_shares_data_def dict_ok_def Let_def dec_digits.simps MAX_STR_DIGITS_def str_ok_ascii)

lemma example_names:
  "data_file (lit ''/b'') HOSTS_FILENAME = lit ''/b/data/hosts.dta''"
  "data_file (lit ''/b'') SITES_FILENAME = lit ''/b/data/sites.dta''"
  "data_file (lit ''/b'') SECRETS_FILENAME = lit ''/b/data/secrets.dta''"
  "data_file (lit ''/b'') SHARES_FILENAME = lit ''/b/data/shares.dta''"
  by (simp_all add: data_file_def path_join_def lit_def HOSTS_FILENAME_def SITES_FILENAME_def
      SECRETS_FILENAME_def SHARES_FILENAME_def)

lemma key_message: "\<exists>msg. key1_message (lit ''k'') = Inr msg"
  using frame_valid [of "[107]"]
  by (simp add: key1_message_def utf8_encode_def lit_def is_scalar_def utf8_char_def byte_of_def)

text \<open>Three good files, and a file of shares that was encrypted under a key of choice.\<close>

definition example_disk :: "byte list \<Rightarrow> byte list \<Rightarrow> byte list \<Rightarrow> byte list \<Rightarrow> files" where
  "example_disk hosts sites secrets shares = map_of
     [(lit ''/b/data/hosts.dta'', hosts), (lit ''/b/data/sites.dta'', sites),
      (lit ''/b/data/secrets.dta'', secrets), (lit ''/b/data/shares.dta'', shares)]"

lemma example_three:
  "\<exists>h i j. \<forall>k. let fs = example_disk h i j k in
    load example_crypto (data_file (lit ''/b'') HOSTS_FILENAME) (lit ''k'') HOSTS_FILE_PURPOSE fs =
      Inr (detuple (default_hosts_data (lit ''bob'') (lit ''now'') 59222)) \<and>
    load example_crypto (data_file (lit ''/b'') SITES_FILENAME) (lit ''k'') SITES_FILE_PURPOSE fs =
      Inr (detuple default_sites_data) \<and>
    load example_crypto (data_file (lit ''/b'') SECRETS_FILENAME) (lit ''k'') SECRETS_FILE_PURPOSE fs =
      Inr (detuple default_secrets_data)"
proof -
  obtain h where h: "bindE (decrypt example_crypto (lit ''k'') HOSTS_FILE_PURPOSE h) json_loads_bytes =
      Inr (detuple (default_hosts_data (lit ''bob'') (lit ''now'') 59222))"
    unfolding HOSTS_FILE_PURPOSE_def by (rule example_blob [OF default_docs_ok(1)])
  obtain i where i: "bindE (decrypt example_crypto (lit ''k'') SITES_FILE_PURPOSE i) json_loads_bytes =
      Inr (detuple default_sites_data)"
    unfolding SITES_FILE_PURPOSE_def by (rule example_blob [OF default_docs_ok(2)])
  obtain j where j: "bindE (decrypt example_crypto (lit ''k'') SECRETS_FILE_PURPOSE j) json_loads_bytes =
      Inr (detuple default_secrets_data)"
    unfolding SECRETS_FILE_PURPOSE_def by (rule example_blob [OF default_docs_ok(3)])
  from h i j show ?thesis
    by (intro exI [of _ h] exI [of _ i] exI [of _ j])
       (simp add: example_names load_def read_file_def example_disk_def Let_def)
qed

lemma example_data_on_disk:
  "\<exists>fs. fs (lit ''/d/.tmp-1.tmp'') = None \<and> data_on_disk example_platform (lit ''/b'') (lit ''k'') fs
    (detuple (default_hosts_data (lit ''bob'') (lit ''now'') 59222)) (detuple default_sites_data)
    (detuple default_secrets_data) (detuple default_shares_data)"
proof -
  obtain h i j where hij: "\<forall>k. let fs = example_disk h i j k in
    load example_crypto (data_file (lit ''/b'') HOSTS_FILENAME) (lit ''k'') HOSTS_FILE_PURPOSE fs =
      Inr (detuple (default_hosts_data (lit ''bob'') (lit ''now'') 59222)) \<and>
    load example_crypto (data_file (lit ''/b'') SITES_FILENAME) (lit ''k'') SITES_FILE_PURPOSE fs =
      Inr (detuple default_sites_data) \<and>
    load example_crypto (data_file (lit ''/b'') SECRETS_FILENAME) (lit ''k'') SECRETS_FILE_PURPOSE fs =
      Inr (detuple default_secrets_data)" using example_three by blast
  obtain k where k: "bindE (decrypt example_crypto (lit ''k'') SHARES_FILE_PURPOSE k) json_loads_bytes =
      Inr (detuple default_shares_data)"
    unfolding SHARES_FILE_PURPOSE_def by (rule example_blob [OF default_docs_ok(4)])
  then have "load example_crypto (data_file (lit ''/b'') SHARES_FILENAME) (lit ''k'') SHARES_FILE_PURPOSE
      (example_disk h i j k) = Inr (detuple default_shares_data)"
    by (simp add: example_names load_def read_file_def example_disk_def)
  then have "data_on_disk example_platform (lit ''/b'') (lit ''k'') (example_disk h i j k)
      (detuple (default_hosts_data (lit ''bob'') (lit ''now'') 59222)) (detuple default_sites_data)
      (detuple default_secrets_data) (detuple default_shares_data)"
    using hij by (simp add: data_on_disk_def example_platform_def Let_def)
  then show ?thesis by (intro exI [of _ "example_disk h i j k"]) (simp add: example_disk_def)
qed

lemma example_start:
  "cfg_getint (pf_int example_platform) None (lit ''server-port'') (Some 59222) = Inr 59222"
  "su_bind (example_startup (Inr ())) (cert_paths (lit ''/b'') None)
     (cfg_get None (lit ''bind-address'') (lit ''0.0.0.0'')) 59222 = Inr ()"
  by (simp_all add: cfg_getint_def cfg_option_def example_startup_def)

theorem restart_restores_witness:
  "\<exists>fs handoff. server_main example_platform (example_startup (Inr ())) (lit ''/b'') None handoff fs =
    (fs, send_ready, Inr \<lparr>ac_basedir = lit ''/b'', ac_key1 = lit ''k'',
       ac_hosts = detuple (default_hosts_data (lit ''bob'') (lit ''now'') 59222),
       ac_sites = detuple default_sites_data, ac_secrets = detuple default_secrets_data,
       ac_shares = detuple default_shares_data, ac_files = fs\<rparr>)"
proof -
  obtain msg where msg: "key1_message (lit ''k'') = Inr msg" using key_message by blast
  obtain fs where "data_on_disk example_platform (lit ''/b'') (lit ''k'') fs
    (detuple (default_hosts_data (lit ''bob'') (lit ''now'') 59222)) (detuple default_sites_data)
    (detuple default_secrets_data) (detuple default_shares_data)" using example_data_on_disk by blast
  from restart_restores [OF this msg _ example_start, of "[Data msg]"] show ?thesis by auto
qed

lemma example_serving:
  "\<exists>fs msg. key1_message (lit ''k'') = Inr msg \<and> fs (lit ''/d/.tmp-1.tmp'') = None \<and>
    server_main example_platform (example_startup (Inr ())) (lit ''/b'') None [Data msg] fs =
    (fs, send_ready, Inr \<lparr>ac_basedir = lit ''/b'', ac_key1 = lit ''k'',
       ac_hosts = detuple (default_hosts_data (lit ''bob'') (lit ''now'') 59222),
       ac_sites = detuple default_sites_data, ac_secrets = detuple default_secrets_data,
       ac_shares = detuple default_shares_data, ac_files = fs\<rparr>)"
proof -
  obtain msg where msg: "key1_message (lit ''k'') = Inr msg" using key_message by blast
  obtain fs where "fs (lit ''/d/.tmp-1.tmp'') = None" "data_on_disk example_platform (lit ''/b'') (lit ''k'') fs
    (detuple (default_hosts_data (lit ''bob'') (lit ''now'') 59222)) (detuple default_sites_data)
    (detuple default_secrets_data) (detuple default_shares_data)" using example_data_on_disk by blast
  with server_restart [OF this(2) msg _ example_start, of "[Data msg]"] msg show ?thesis by auto
qed

theorem foreign_shares_file_stops_start_witness:
  "\<exists>fs handoff out. server_main example_platform (example_startup (Inr ())) (lit ''/b'') None handoff fs =
    (fs, out, Inl InvalidCryptoFileError) \<and>
    (\<exists>msg. \<forall>xt st. send_key1 xt st (lit ''k'') (Inr ()) [Data out] =
      (msg, Inl (ServerStartupError (lit ''failed to initialize shares.dta: ''))))"
proof -
  obtain h i j where hij: "\<forall>k. let fs = example_disk h i j k in
    load example_crypto (data_file (lit ''/b'') HOSTS_FILENAME) (lit ''k'') HOSTS_FILE_PURPOSE fs =
      Inr (detuple (default_hosts_data (lit ''bob'') (lit ''now'') 59222)) \<and>
    load example_crypto (data_file (lit ''/b'') SITES_FILENAME) (lit ''k'') SITES_FILE_PURPOSE fs =
      Inr (detuple default_sites_data) \<and>
    load example_crypto (data_file (lit ''/b'') SECRETS_FILENAME) (lit ''k'') SECRETS_FILE_PURPOSE fs =
      Inr (detuple default_secrets_data)" using example_three by blast
  obtain k pt where k: "encrypt example_crypto (lit ''old'') SHARES_FILE_PURPOSE (replicate 12 7) pt = Inr k"
    unfolding SHARES_FILE_PURPOSE_def by (rule example_blob [OF default_docs_ok(4)]) blast
  obtain info where info: "utf8_encode SHARES_FILE_PURPOSE = Inr info"
    using utf8.enc_valid [of SHARES_FILE_PURPOSE] by auto
  have keys: "utf8_encode (lit ''old'') = Inr [111, 108, 100]" "utf8_encode (lit ''k'') = Inr [107]"
    by (simp_all add: utf8_encode_def lit_def is_scalar_def utf8_char_def byte_of_def)
  have dec: "decrypt example_crypto (lit ''k'') SHARES_FILE_PURPOSE k = Inl InvalidCryptoFileError"
    by (rule decrypt_foreign_key [OF example_crypto_ok(2) _ k keys info])
       (simp_all add: NONCE_SIZE_def example_crypto_def)
  obtain msg where msg: "key1_message (lit ''k'') = Inr msg" using key_message by blast
  have "\<exists>f. frame payload = Inr f" if "utf8_encode (lit ''failed to initialize shares.dta: '') = Inr payload" for payload
    using that by (intro frame_valid) (auto simp: utf8_encode_def lit_def is_scalar_def utf8_char_def)
  then obtain out where out: "send_startup_error (lit ''failed to initialize shares.dta: '') = Inr out"
    using utf8.enc_valid [of "lit ''failed to initialize shares.dta: ''"] by (auto simp: send_startup_error_def)
  have fs: "example_disk h i j k (data_file (lit ''/b'') SHARES_FILENAME) = Some k"
    by (simp add: example_names example_disk_def)
  have "server_main example_platform (example_startup (Inr ())) (lit ''/b'') None [Data msg] (example_disk h i j k) =
      (example_disk h i j k, out, Inl InvalidCryptoFileError) \<and>
    (delivered [Data out] = out \<longrightarrow> send_key1 xt st (lit ''k'') (Inr ()) [Data out] =
      (msg, Inl (ServerStartupError (lit ''failed to initialize shares.dta: ''))))" for xt st
    by (rule foreign_shares_file_stops_start [where port = 59222 and blob = k])
       (use hij fs dec msg out in \<open>simp_all add: example_platform_def Let_def cfg_getint_def cfg_option_def\<close>)
  then show ?thesis
    by (intro exI [of _ "example_disk h i j k"] exI [of _ "[Data msg]"] exI [of _ out] conjI exI [of _ msg] allI)
       simp_all
qed

end
