(* ===== verification/InitiatorProperties.thy ===== *)
theory InitiatorProperties
  imports Initiator StartupProperties "HOL-Library.Multiset"
begin

text \<open>
  The properties of the initiator: KEY1 comes back once enough honest peers are up again, and never
  anything else; the pidfile is written for a serving server only; stopping ends the process.
\<close>

section \<open>A round of questions\<close>

definition names_of :: "(pyval \<Rightarrow> pystr) \<Rightarrow> pyval list \<Rightarrow> pyval list" where
  "names_of nm ps = map (\<lambda>p. PStr (nm p)) ps"

lemma not_contributed_names:
  assumes "\<And>p. p \<in> set peers \<union> set ps \<Longrightarrow> py_subscript p (lit ''name'') = Inr (PStr (nm p))"
    and "inj_on nm (set peers \<union> set ps)"
  shows "not_contributed (names_of nm ps) peers = Inr (filter (\<lambda>p. p \<notin> set ps) peers)"
  using assms
proof (induction peers)
  case (Cons p peers)
  have "not_contributed (names_of nm ps) peers = Inr (filter (\<lambda>p. p \<notin> set ps) peers)"
    using Cons.prems by (intro Cons.IH) (auto intro: inj_on_subset)
  moreover have "py_in (PStr (nm p)) (names_of nm ps) \<longleftrightarrow> p \<in> set ps"
    using Cons.prems(2) by (auto simp: py_in_def names_of_def inj_on_def)
  ultimately show ?case using Cons.prems(1) [of p] by (simp add: hashable_def)
qed simp

text \<open>
  The peers of a set answer with their shares from some time on; time never goes back, and sleeping
  passes it. Time is any number that the world has.
\<close>

definition comes_back ::
  "'w net \<Rightarrow> ('w \<Rightarrow> bool) \<Rightarrow> int \<Rightarrow> certs \<Rightarrow> pyval \<Rightarrow> ('w \<Rightarrow> nat) \<Rightarrow> nat \<Rightarrow> pyval set \<Rightarrow> bool" where
  "comes_back net ok port certs uuid clock t A \<longleftrightarrow>
     (\<forall>p w. clock w \<le> clock (fst (ask_peer net port certs uuid p w))) \<and>
     (\<forall>n w. 0 < n \<longrightarrow> clock w < clock (net_sleep net n w)) \<and>
     (\<forall>p \<in> A. \<forall>w. ok w \<longrightarrow> t \<le> clock w \<longrightarrow> (\<exists>w' v. ask_peer net port certs uuid p w = (w', Inr v)))"

text \<open>
  What a round over honest hosts comes to: it is broken off by the exception of a broken answer, or every
  share that came was a new one, and all hosts that answered contributed unless the decoder got ready.
\<close>

lemma ask_candidates_honest:
  assumes "honest_peers net ok breaks port certs (PStr uuid) d idx nm peers" "dealt secret d"
    and "set candidates \<subseteq> set peers" "distinct candidates" "set candidates \<inter> set ps = {}"
    and "collected d (map idx ps) decoder" "set ps \<subseteq> set peers" "ok w"
  obtains (broken) w' where "breaks"
      "ask_candidates net port certs uuid candidates (decoder, names_of nm ps) w = (w', Inl HTTPException)"
    | (asked) w' decoder' qs where "ask_candidates net port certs uuid candidates (decoder, names_of nm ps) w =
        (w', Inr (decoder', names_of nm (ps @ qs)))"
      "collected d (map idx (ps @ qs)) decoder'" "set qs \<subseteq> set candidates" "ok w'"
      "comes_back net ok port certs (PStr uuid) clock t A \<longrightarrow> clock w \<le> clock w' \<and>
        (t \<le> clock w \<longrightarrow> \<not> ss_ready_to_decode decoder' \<longrightarrow> A \<inter> set candidates \<subseteq> set qs)"
  using assms(3-)
proof (induction candidates arbitrary: ps decoder w thesis)
  case Nil
  then show ?case by (intro Nil(2) [of w decoder "[]"]) simp_all
next
  case (Cons p candidates)
  show ?case
  proof (cases "ss_ready_to_decode decoder")
    case True
    then show ?thesis using Cons.prems(6,8) by (intro Cons.prems(2) [of w decoder "[]"]) simp_all
  next
    case False
    obtain w1 r where ask: "ask_peer net port certs (PStr uuid) p w = (w1, r)" by (rule prod.exhaust)
    have p: "p \<in> set peers" using Cons.prems(3) by simp
    note honest = honest_ask [OF assms(1) p Cons.prems(8) ask]
    have rest: "set candidates \<subseteq> set peers" "distinct candidates" "set candidates \<inter> set ps = {}"
      "set candidates \<inter> set (ps @ [p]) = {}" using Cons.prems(3-5) by auto
    have later: "clock w \<le> clock w1" if "comes_back net ok port certs (PStr uuid) clock t A"
    proof -
      have "clock w \<le> clock (fst (ask_peer net port certs (PStr uuid) p w))"
        using that by (simp add: comes_back_def)
      then show ?thesis by (simp add: ask)
    qed
    show ?thesis
    proof (cases r)
      case (Inl e)
      have failure: "is_unavailable e \<or> breaks \<and> e = HTTPException"
        using honest(2) by (auto simp: Inl honest_answer_def is_unavailable_def)
      show ?thesis
      proof (cases "is_unavailable e")
        case True
        then have step: "ask_candidates net port certs uuid (p # candidates) (decoder, names_of nm ps) w =
            ask_candidates net port certs uuid candidates (decoder, names_of nm ps) w1"
          using False ask Inl by (simp add: doA_def tryA_def)
        have "p \<notin> A" if "comes_back net ok port certs (PStr uuid) clock t A" "t \<le> clock w"
        proof
          assume "p \<in> A"
          with that have "\<exists>w' v. ask_peer net port certs (PStr uuid) p w = (w', Inr v)"
            using Cons.prems(8) by (simp add: comes_back_def)
          then show False using ask Inl by simp
        qed
        note gone = this
        show ?thesis
        proof (rule Cons.IH [OF _ _ rest(1-3) Cons.prems(6,7) honest(1)])
          fix w' assume "breaks" "ask_candidates net port certs uuid candidates (decoder, names_of nm ps) w1 = (w', Inl HTTPException)"
          then show thesis unfolding step [symmetric] by (rule Cons.prems(1))
        next
          fix w' decoder' qs assume ih: "ask_candidates net port certs uuid candidates (decoder, names_of nm ps) w1
              = (w', Inr (decoder', names_of nm (ps @ qs)))"
            "collected d (map idx (ps @ qs)) decoder'" "set qs \<subseteq> set candidates" "ok w'"
            "comes_back net ok port certs (PStr uuid) clock t A \<longrightarrow> clock w1 \<le> clock w' \<and>
              (t \<le> clock w1 \<longrightarrow> \<not> ss_ready_to_decode decoder' \<longrightarrow> A \<inter> set candidates \<subseteq> set qs)"
          show thesis by (rule Cons.prems(2) [OF ih(1) [folded step] ih(2)]) (use ih(3-5) later gone in auto)
        qed
      next
        case skipped: False
        then have "breaks" "e = HTTPException" using failure by simp_all
        then show ?thesis using skipped False ask Inl by (intro Cons.prems(1) [of w1]) (simp_all add: doA_def tryA_def)
      qed
    next
      case (Inr v)
      obtain decoder1 n where pop: "populate_decoder v decoder = (decoder1, Inr n)"
        "collected d (map idx (ps @ [p])) decoder1"
        using honest_share_accepted [OF assms(1,2) Cons.prems(6,7) p _ Cons.prems(8), of w1 v] ask Inr Cons.prems(5) by auto
      have "py_subscript p (lit ''name'') = Inr (PStr (nm p))"
        using assms(1) p by (simp add: honest_peers_def)
      then have step: "ask_candidates net port certs uuid (p # candidates) (decoder, names_of nm ps) w =
          ask_candidates net port certs uuid candidates (decoder1, names_of nm (ps @ [p])) w1"
        using False ask Inr pop(1) by (simp add: doA_def tryA_def hashable_def names_of_def)
      have sub: "set (ps @ [p]) \<subseteq> set peers" using Cons.prems(7) p by simp
      show ?thesis
      proof (rule Cons.IH [OF _ _ rest(1,2,4) pop(2) sub honest(1)])
        fix w' assume "breaks"
          "ask_candidates net port certs uuid candidates (decoder1, names_of nm (ps @ [p])) w1 = (w', Inl HTTPException)"
        then show thesis unfolding step [symmetric] by (rule Cons.prems(1))
      next
        fix w' decoder' qs assume ih: "ask_candidates net port certs uuid candidates (decoder1, names_of nm (ps @ [p])) w1
            = (w', Inr (decoder', names_of nm ((ps @ [p]) @ qs)))"
          "collected d (map idx ((ps @ [p]) @ qs)) decoder'" "set qs \<subseteq> set candidates" "ok w'"
          "comes_back net ok port certs (PStr uuid) clock t A \<longrightarrow> clock w1 \<le> clock w' \<and>
            (t \<le> clock w1 \<longrightarrow> \<not> ss_ready_to_decode decoder' \<longrightarrow> A \<inter> set candidates \<subseteq> set qs)"
        have asked: "ask_candidates net port certs uuid (p # candidates) (decoder, names_of nm ps) w =
            (w', Inr (decoder', names_of nm (ps @ p # qs)))" using ih(1) unfolding step by simp
        show thesis by (rule Cons.prems(2) [OF asked]) (use ih(2-5) later in auto)
      qed
    qed
  qed
qed

section \<open>Rounds\<close>

text \<open>One round from a state that the loop reaches.\<close>

lemma round_honest:
  assumes "honest_peers net ok breaks port certs (PStr uuid) d idx nm peers" "dealt secret d"
    and "\<And>w xs. mset (net_shuffle net w xs) = mset xs"
    and "collected d (map idx ps) decoder" "set ps \<subseteq> set peers" "ok w"
  obtains (broken) candidates w' where "breaks" "not_contributed (names_of nm ps) peers = Inr candidates"
      "ask_candidates net port certs uuid (net_shuffle net w candidates) (decoder, names_of nm ps) w = (w', Inl HTTPException)"
    | (asked) candidates w' decoder' qs where
      "not_contributed (names_of nm ps) peers = Inr candidates"
      "ask_candidates net port certs uuid (net_shuffle net w candidates) (decoder, names_of nm ps) w =
        (w', Inr (decoder', names_of nm (ps @ qs)))"
      "collected d (map idx (ps @ qs)) decoder'" "set (ps @ qs) \<subseteq> set peers" "ok w'"
      "comes_back net ok port certs (PStr uuid) clock t A \<longrightarrow> clock w \<le> clock w' \<and>
        (t \<le> clock w \<longrightarrow> \<not> ss_ready_to_decode decoder' \<longrightarrow> A \<inter> set peers \<subseteq> set (ps @ qs))"
proof -
  let ?cs = "filter (\<lambda>p. p \<notin> set ps) peers"
  have nc: "not_contributed (names_of nm ps) peers = Inr ?cs"
    using assms(1,5) by (intro not_contributed_names) (auto simp: honest_peers_def intro: inj_on_subset)
  have shuffled: "set (net_shuffle net w ?cs) = set ?cs" "distinct (net_shuffle net w ?cs)"
    using assms(1,3) mset_eq_setD [OF assms(3)] mset_eq_imp_distinct_iff [OF assms(3)]
    by (simp_all add: honest_peers_def)
  then have cs: "set (net_shuffle net w ?cs) \<subseteq> set peers" "set (net_shuffle net w ?cs) \<inter> set ps = {}" by auto
  show ?thesis
  proof (rule ask_candidates_honest [where clock = clock and t = t and A = A, OF assms(1,2) cs(1) shuffled(2) cs(2) assms(4-6)])
    fix w' assume "breaks"
      "ask_candidates net port certs uuid (net_shuffle net w ?cs) (decoder, names_of nm ps) w = (w', Inl HTTPException)"
    then show thesis by (intro broken [OF _ nc])
  next
    fix w' decoder' qs assume a:
      "ask_candidates net port certs uuid (net_shuffle net w ?cs) (decoder, names_of nm ps) w =
        (w', Inr (decoder', names_of nm (ps @ qs)))"
      "collected d (map idx (ps @ qs)) decoder'" "set qs \<subseteq> set (net_shuffle net w ?cs)" "ok w'"
      "comes_back net ok port certs (PStr uuid) clock t A \<longrightarrow> clock w \<le> clock w' \<and>
        (t \<le> clock w \<longrightarrow> \<not> ss_ready_to_decode decoder' \<longrightarrow> A \<inter> set (net_shuffle net w ?cs) \<subseteq> set qs)"
    show thesis by (rule asked [OF nc a(1,2)]) (use a(3-5) assms(5) in \<open>auto simp: shuffled(1)\<close>)
  qed
qed

lemma collect_rounds_ready:
  assumes "honest_peers net ok breaks port certs (PStr uuid) d idx nm peers" "dealt secret d"
    and "\<And>w xs. mset (net_shuffle net w xs) = mset xs"
    and "comes_back net ok port certs (PStr uuid) clock t A" "A \<subseteq> set peers" "ss_treshold d \<le> int (card A)"
    and "collected d (map idx ps) decoder" "set ps \<subseteq> set peers" "ok w"
  shows "\<exists>w' r. collect_rounds net port certs uuid peers (decoder, names_of nm ps) w = Some (w', r)"
  using assms(7-9)
proof (induction "t - clock w" arbitrary: ps decoder w rule: less_induct)
  case less
  show ?case
  proof (cases "ss_ready_to_decode decoder")
    case True
    then show ?thesis by (subst collect_rounds.simps) auto
  next
    case False
    show ?thesis
    proof (rule round_honest [where clock = clock and t = t and A = A, OF assms(1-3) less.prems])
      fix candidates w1 assume "not_contributed (names_of nm ps) peers = Inr candidates"
        "ask_candidates net port certs uuid (net_shuffle net w candidates) (decoder, names_of nm ps) w = (w1, Inl HTTPException)"
      then show ?thesis using False by (subst collect_rounds.simps) simp
    next
      fix candidates w1 decoder1 qs assume r:
        "not_contributed (names_of nm ps) peers = Inr candidates"
        "ask_candidates net port certs uuid (net_shuffle net w candidates) (decoder, names_of nm ps) w =
          (w1, Inr (decoder1, names_of nm (ps @ qs)))"
        "collected d (map idx (ps @ qs)) decoder1" "set (ps @ qs) \<subseteq> set peers" "ok w1"
        "comes_back net ok port certs (PStr uuid) clock t A \<longrightarrow> clock w \<le> clock w1 \<and>
          (t \<le> clock w \<longrightarrow> \<not> ss_ready_to_decode decoder1 \<longrightarrow> A \<inter> set peers \<subseteq> set (ps @ qs))"
      show ?thesis
      proof (cases "ss_ready_to_decode decoder1")
        case True
        then have "collect_rounds net port certs uuid peers (decoder, names_of nm ps) w = Some (w1, Inr decoder1)"
          using False r(1,2)
          by (subst collect_rounds.simps) (simp add: collect_rounds.simps [of _ _ _ _ _ "(decoder1, names_of nm (ps @ qs))"])
        then show ?thesis by blast
      next
        case not_ready: False
        let ?w = "net_sleep net POLL_INTERVAL_SECONDS w1"
        have later: "clock w \<le> clock w1" "t \<le> clock w \<Longrightarrow> A \<inter> set peers \<subseteq> set (ps @ qs)"
          using r(6) assms(4) not_ready by blast+
        have "\<not> A \<subseteq> set (ps @ qs)" using honest_ready [OF r(3) _ assms(6)] not_ready by blast
        then have "clock w < t" using later(2) assms(5) by (metis inf.absorb1 not_less)
        moreover have "clock w1 < clock ?w" using assms(4) by (simp add: comes_back_def POLL_INTERVAL_SECONDS_def)
        then have "clock w < clock ?w" using later(1) by simp
        ultimately have "t - clock ?w < t - clock w" by simp
        have "ok ?w" using assms(1) r(5) by (simp add: honest_peers_def)
        from less.hyps [OF \<open>t - clock ?w < t - clock w\<close> r(3,4) this] show ?thesis
          using False not_ready r(1,2) by (subst collect_rounds.simps) simp
      qed
    qed
  qed
qed

text \<open>Without any liveness assumption: what comes out, if anything does.\<close>

lemma collect_rounds_result:
  assumes "honest_peers net ok breaks port certs (PStr uuid) d idx nm peers" "dealt secret d"
    and "\<And>w xs. mset (net_shuffle net w xs) = mset xs"
    and "collected d (map idx ps) decoder" "set ps \<subseteq> set peers" "ok w"
    and "collect_rounds net port certs uuid peers (decoder, names_of nm ps) w = Some (w', r)"
  shows "breaks \<and> r = Inl HTTPException \<or> (\<exists>decoder' qs. r = Inr decoder' \<and> collected d (map idx qs) decoder' \<and>
    set qs \<subseteq> set peers \<and> ss_ready_to_decode decoder')"
  using assms(1-6)
proof (induction net port certs uuid peers "(decoder, names_of nm ps)" w "(w', r)" arbitrary: ps decoder
    rule: collect_rounds.raw_induct)
  case (1 rec net port certs uuid peers w)
  show ?case
  proof (cases "ss_ready_to_decode decoder")
    case True
    then show ?thesis using "1.hyps"(2) "1.prems" by auto
  next
    case False
    show ?thesis
    proof (rule round_honest [OF "1.prems"])
      fix candidates w1 assume "breaks" "not_contributed (names_of nm ps) peers = Inr candidates"
        "ask_candidates net port certs uuid (net_shuffle net w candidates) (decoder, names_of nm ps) w = (w1, Inl HTTPException)"
      then show ?thesis using False "1.hyps"(2) by simp
    next
      fix candidates w1 decoder1 qs assume r:
        "not_contributed (names_of nm ps) peers = Inr candidates"
        "ask_candidates net port certs uuid (net_shuffle net w candidates) (decoder, names_of nm ps) w =
          (w1, Inr (decoder1, names_of nm (ps @ qs)))"
        "collected d (map idx (ps @ qs)) decoder1" "set (ps @ qs) \<subseteq> set peers" "ok w1"
      moreover have "ok (net_sleep net POLL_INTERVAL_SECONDS w1)"
        using "1.prems"(1) r(5) by (simp add: honest_peers_def)
      ultimately show ?thesis
        using False "1.hyps"(2) "1.hyps"(1) [OF _ "1.prems"(1,2,3) r(3,4)] by simp
    qed
  qed
qed (rule assms(7))

section \<open>KEY1 at boot\<close>

text \<open>The configuration and \<open>hosts.json\<close> name the dealer's secret and the peers that were given shares.\<close>

definition boots_from ::
  "platform \<Rightarrow> pystr \<Rightarrow> config \<Rightarrow> files \<Rightarrow> shamir_secret \<Rightarrow> pystr \<Rightarrow> int \<Rightarrow> pyval list \<Rightarrow> bool" where
  "boots_from pf basedir cfg fs d uuid port peers \<longleftrightarrow>
     (\<exists>section name t n own. cfg = Some section \<and>
        key1_metadata (pf_int pf) Key1ReconstructionError section = Inr (name, uuid, Some t, Some n) \<and>
        2 \<le> t \<and> t \<le> n \<and> own_name_and_peers basedir fs = Inr (own, peers) \<and>
        cfg_getint (pf_int pf) cfg (lit ''server-port'') None = Inr port \<and>
        ss_name d = PStr name \<and> ss_owner d = own)"

lemma collect_key1_eval:
  assumes "boots_from pf basedir cfg fs d uuid port peers" "dealt secret d" "peers \<noteq> []"
  obtains decoder where "collected d (map idx []) decoder"
    "collect_key1 net pf uuid4 basedir cfg fs w =
      map_option (\<lambda>(w', r). (w', bindE r decode))
        (collect_rounds net port (cert_paths basedir cfg) uuid peers (decoder, names_of nm []) w)"
proof -
  obtain opts name t n own where b: "cfg = Some opts"
    "key1_metadata (pf_int pf) Key1ReconstructionError opts = Inr (name, uuid, Some t, Some n)"
    "2 \<le> t" "t \<le> n" "own_name_and_peers basedir fs = Inr (own, peers)"
    "cfg_getint (pf_int pf) cfg (lit ''server-port'') None = Inr port"
    "ss_name d = PStr name" "ss_owner d = own"
    using assms(1) unfolding boots_from_def by blast
  obtain decoder where dec: "shamir_new (PStr name) own (Some n) (Some t) uuid4 = Inr decoder"
    using shamir_new_valid [OF b(3,4)] by blast
  have "collected d [] decoder" by (rule shamir_new_collected [OF dec assms(2) b(7,8)])
  moreover have "collect_key1 net pf uuid4 basedir cfg fs w =
      map_option (\<lambda>(w', r). (w', bindE r decode))
        (collect_rounds net port (cert_paths basedir cfg) uuid peers (decoder, names_of nm []) w)"
    using b dec assms(3) by (simp add: collect_key1_def names_of_def)
  ultimately show ?thesis using that by simp
qed

lemma collect_key1_only:
  assumes "boots_from pf basedir cfg fs d uuid port peers" "dealt key1 d" "peers \<noteq> []"
    and "honest_peers net ok breaks port (cert_paths basedir cfg) (PStr uuid) d idx nm peers"
    and "\<And>w xs. mset (net_shuffle net w xs) = mset xs"
    and "ok w" "collect_key1 net pf uuid4 basedir cfg fs w = Some (w', r)"
  shows "breaks \<and> r = Inl HTTPException \<or> r = Inr key1 \<and> ss_treshold d \<le> int (length peers)"
proof -
  obtain decoder where start: "collected d (map idx []) decoder"
    "collect_key1 net pf uuid4 basedir cfg fs w =
      map_option (\<lambda>(w', r). (w', bindE r decode))
        (collect_rounds net port (cert_paths basedir cfg) uuid peers (decoder, names_of nm []) w)"
    using collect_key1_eval [OF assms(1-3)] by metis
  have "map_option (\<lambda>(w', r). (w', bindE r decode))
      (collect_rounds net port (cert_paths basedir cfg) uuid peers (decoder, names_of nm []) w) = Some (w', r)"
    using start(2) assms(7) by simp
  then obtain r' where r': "collect_rounds net port (cert_paths basedir cfg) uuid peers (decoder, names_of nm []) w
      = Some (w', r')" "r = bindE r' decode" by auto
  consider "breaks" "r' = Inl HTTPException"
    | decoder' qs where "r' = Inr decoder'" "collected d (map idx qs) decoder'" "set qs \<subseteq> set peers" "ss_ready_to_decode decoder'"
    using collect_rounds_result [OF assms(4,2,5) start(1) _ assms(6) r'(1)] by auto
  then show ?thesis
  proof cases
    case 1
    then show ?thesis using r'(2) by simp
  next
    case q: 2
    have "distinct qs" using q(2) by (simp add: collected_def distinct_map)
    then have "length qs \<le> length peers" using card_mono [OF _ q(3)] distinct_card [of qs] card_length [of peers] by simp
    moreover have "ss_treshold d \<le> int (length qs)" using q(2,4) by (simp add: collected_def)
    ultimately show ?thesis using r'(2) q(1) ready_decodes [OF assms(2) q(2,4)] by simp
  qed
qed

lemma collect_key1_live:
  assumes "boots_from pf basedir cfg fs d uuid port peers" "dealt key1 d"
    and "honest_peers net ok breaks port (cert_paths basedir cfg) (PStr uuid) d idx nm peers"
    and "\<And>w xs. mset (net_shuffle net w xs) = mset xs"
    and "comes_back net ok port (cert_paths basedir cfg) (PStr uuid) clock t A"
    and "A \<subseteq> set peers" "ss_treshold d \<le> int (card A)" "ok w"
  shows "\<exists>w' r. collect_key1 net pf uuid4 basedir cfg fs w = Some (w', r) \<and> (breaks \<and> r = Inl HTTPException \<or> r = Inr key1)"
proof -
  have "2 \<le> ss_treshold d" using assms(2) by (auto simp: dealt_def)
  then have "A \<noteq> {}" using assms(7) by auto
  then have peers: "peers \<noteq> []" using assms(6) by auto
  then obtain decoder where start: "collected d (map idx []) decoder"
    "collect_key1 net pf uuid4 basedir cfg fs w =
      map_option (\<lambda>(w', r). (w', bindE r decode))
        (collect_rounds net port (cert_paths basedir cfg) uuid peers (decoder, names_of nm []) w)"
    using collect_key1_eval [OF assms(1,2)] by metis
  obtain w' r where "collect_rounds net port (cert_paths basedir cfg) uuid peers (decoder, names_of nm []) w = Some (w', r)"
    using collect_rounds_ready [OF assms(3,2,4-7) start(1) _ assms(8)] by auto
  then have "collect_key1 net pf uuid4 basedir cfg fs w = Some (w', bindE r decode)" using start(2) by simp
  with collect_key1_only [OF assms(1,2) peers assms(3,4,8) this] show ?thesis by blast
qed

section \<open>A worked boot\<close>

text \<open>
  Three hosts: alice boots, the other two hold shares. Until the clock has moved, one of them is down and
  the other answers 404.
\<close>

definition example_record :: "string \<Rightarrow> string \<Rightarrow> pyval" where
  "example_record address status = PDict
     [(lit ''address'', PStr (lit address)), (lit ''status'', PStr (lit status))]"

definition example_hosts :: pyval where
  "example_hosts = PDict [(lit ''hosts'', PDict
     [(lit ''alice'', example_record ''a0'' ''local''), (lit ''b'', example_record ''b0'' ''default''),
      (lit ''c'', example_record ''c0'' ''default'')])]"

definition example_peers :: "pyval list" where
  "example_peers = [named_record (lit ''b'') (example_record ''b0'' ''default''),
     named_record (lit ''c'') (example_record ''c0'' ''default'')]"

definition example_files :: files where
  "example_files p = (if p = lit ''/b/data/hosts.json''
     then (case json_bytes_indent example_hosts of Inr bs \<Rightarrow> Some bs | Inl _ \<Rightarrow> None) else None)"

definition example_config :: config where
  "example_config = Some [(lit ''server-port'', lit ''59222''), (lit ''initiated'', lit ''True''), (lit ''key1-name'', lit ''n''),
     (lit ''key1-uuid'', lit ''u''), (lit ''key1-treshold'', lit ''2''), (lit ''key1-shares'', lit ''3'')]"

definition share_body :: "nat \<Rightarrow> byte list" where
  "share_body i = (case json_bytes (participant_data example_dealer i) of Inr bs \<Rightarrow> bs | Inl _ \<Rightarrow> [])"

definition example_net :: "nat net" where
  "example_net = \<lparr>net_certs = (\<lambda>_ _. Inr ()),
     net_exchange = (\<lambda>rq w. (w, if w = 0 then if hq_address rq = lit ''b0'' then Inl ConnectionError else Inr (404, [])
        else Inr (200, share_body (if hq_address rq = lit ''b0'' then 0 else 1)))),
     net_sleep = (\<lambda>n w. w + n), net_shuffle = (\<lambda>_. rev), net_format = (\<lambda>_. [])\<rparr>"

definition example_index :: "pyval \<Rightarrow> nat" where
  "example_index p = (if p = named_record (lit ''b'') (example_record ''b0'' ''default'') then 0 else 1)"

definition example_name :: "pyval \<Rightarrow> pystr" where
  "example_name p = (if p = named_record (lit ''b'') (example_record ''b0'' ''default'') then lit ''b'' else lit ''c'')"

lemma example_hosts_json: "json_ok example_hosts"
  by (simp add: example_hosts_def example_record_def dict_ok_def)

lemma example_load: "load_hosts_json (lit ''/b'') example_files = Inr example_hosts"
proof -
  have "path_join (path_join (lit ''/b'') (lit ''data'')) HOSTS_PLAINTEXT_FILENAME = lit ''/b/data/hosts.json''"
    by (simp add: path_join_def lit_def HOSTS_PLAINTEXT_FILENAME_def)
  moreover obtain bs where "json_bytes_indent example_hosts = Inr bs"
    "bindE (utf8_decode bs) json_loads = Inr (detuple example_hosts)" by (rule mirror_text [OF example_hosts_json])
  ultimately show ?thesis
    by (simp add: load_hosts_json_def read_file_def example_files_def)
      (simp add: example_hosts_def example_record_def)
qed

lemma example_own: "own_name_and_peers (lit ''/b'') example_files = Inr (PStr (lit ''alice''), example_peers)"
proof -
  have "own_host_entry example_hosts = Inr (named_record (lit ''alice'') (example_record ''a0'' ''local''))"
    by (simp add: own_host_entry_def example_hosts_def hosts_items_def example_record_def record_get_def dict_get_def)
  moreover have "py_subscript (named_record (lit ''alice'') (example_record ''a0'' ''local'')) (lit ''name'')
      = Inr (PStr (lit ''alice''))"
    by (simp add: named_record_def example_record_def dict_merge_def)
  moreover have "trusted_peers example_hosts (PStr (lit ''alice'')) = Inr example_peers"
    by (simp add: trusted_peers_def example_hosts_def hosts_items_def example_record_def record_get_def
        dict_get_def untrusted_def UNTRUSTED_STATUSES_def example_peers_def)
  ultimately show ?thesis by (simp add: own_name_and_peers_def example_load)
qed

lemma example_int: "int_of_text x (lit ''2'') = Inr 2" "int_of_text x (lit ''3'') = Inr 3"
  "int_of_text x (lit ''59222'') = Inr 59222"
  by (simp_all add: int_of_text_def strip_def is_c_space_def lit_def is_digit_def dec_value_def Let_def
      MAX_STR_DIGITS_def)

lemma example_boots:
  "boots_from example_platform (lit ''/b'') example_config example_files example_dealer (lit ''u'') 59222 example_peers"
proof -
  obtain opts where o: "example_config = Some opts" by (simp add: example_config_def)
  have k: "map_of opts (lit ''key1-name'') = Some (lit ''n'')" "map_of opts (lit ''key1-uuid'') = Some (lit ''u'')"
    "map_of opts (lit ''key1-treshold'') = Some (lit ''2'')" "map_of opts (lit ''key1-shares'') = Some (lit ''3'')"
    "map_of opts (lit ''server-port'') = Some (lit ''59222'')"
    using o by (auto simp: example_config_def)
  have "key1_metadata (pf_int example_platform) Key1ReconstructionError opts = Inr (lit ''n'', lit ''u'', Some 2, Some 3)"
    by (simp add: key1_metadata_def section_item_def section_getint_def k example_int)
  moreover have "cfg_getint (pf_int example_platform) example_config (lit ''server-port'') None = Inr 59222"
    by (simp add: o cfg_getint_def cfg_option_def k example_int)
  moreover have "ss_name example_dealer = PStr (lit ''n'')" "ss_owner example_dealer = PStr (lit ''alice'')"
    by (simp_all add: example_dealer_def example_empty_def)
  ultimately show ?thesis unfolding boots_from_def using o example_own
    by (intro exI [of _ opts] exI [of _ "lit ''n''"] exI [of _ 2] exI [of _ 3] exI [of _ "PStr (lit ''alice'')"]) simp
qed

lemma example_body:
  assumes "i < 2"
  shows "share_view example_dealer i (detuple (participant_data example_dealer i))"
    "json_loads_bytes (share_body i) = Inr (detuple (participant_data example_dealer i))"
proof -
  have "str_ok (sha256_hexdigest [97])"
    by (rule str_ok_ascii) (auto simp: list_all_iff dest: sha256_hexdigest_ascii)
  moreover have "json_ok (participant_keys example_matrix i)" using assms
    by (elim less_2_cases [elim_format] disjE)
       (simp_all add: participant_keys_def example_matrix_def dec_digits.simps MAX_STR_DIGITS_def)
  ultimately have "json_ok (participant_data example_dealer i)"
    by (simp add: participant_data_def example_dealer_def example_empty_def dict_ok_def dec_digits.simps MAX_STR_DIGITS_def)
  from json_bytes_total [OF this] json_bytes_roundtrip [OF this]
  show "json_loads_bytes (share_body i) = Inr (detuple (participant_data example_dealer i))"
    by (auto simp: share_body_def)
qed (rule share_view_detuple [OF example_dealt])

lemma example_peer_fields:
  "py_subscript (named_record (lit n) (example_record a st)) (lit ''address'') = Inr (PStr (lit a))"
  "py_subscript (named_record (lit n) (example_record a st)) (lit ''name'') = Inr (PStr (lit n))"
  by (simp_all add: named_record_def example_record_def dict_merge_def)

lemma example_distinct:
  "named_record (lit ''b'') (example_record ''b0'' ''default'') \<noteq> named_record (lit ''c'') (example_record ''c0'' ''default'')"
proof
  assume eq: "named_record (lit ''b'') (example_record ''b0'' ''default'') = named_record (lit ''c'') (example_record ''c0'' ''default'')"
  show False
    using example_peer_fields(2) [of "''b''" "''b0''" "''default''"]
      example_peer_fields(2) [of "''c''" "''c0''" "''default''"]
    unfolding eq by simp
qed

lemma example_net_simps:
  "net_certs example_net c w = Inr ()"
  "net_exchange example_net rq w = (w, if w = 0 then if hq_address rq = lit ''b0'' then Inl ConnectionError else Inr (404, [])
     else Inr (200, share_body (if hq_address rq = lit ''b0'' then 0 else 1)))"
  "net_sleep example_net n w = w + n" "net_shuffle example_net w xs = rev xs"
  by (simp_all add: example_net_def)

lemma example_request_path: "request_path (lit ''/shares/'' @ format_value example_net (PStr (lit ''u''))) = Inr (lit ''/shares/u'')"
  by (simp add: request_path_def format_value_def is_control_def lit_def)

lemma example_ask_world: "fst (ask_peer example_net port certs (PStr (lit ''u'')) p w) = w"
proof (cases "py_subscript p (lit ''address'')")
  case (Inr address)
  then show ?thesis
    by (cases "connection_host address")
       (simp_all add: ask_peer_def retrieve_share_def http_call_def connect_def doA_def example_request_path
          example_net_simps)
qed (simp add: ask_peer_def)

lemma example_ask:
  "ask_peer example_net port certs (PStr (lit ''u'')) (named_record (lit n) (example_record [c, ''0'' ! 0] st)) w =
    (w, if w = 0 then if c = CHR ''b'' then Inl ConnectionError else Inl ShareNotFoundError
        else Inr (detuple (participant_data example_dealer (if c = CHR ''b'' then 0 else 1))))"
  if "c \<in> {CHR ''b'', CHR ''c''}"
proof -
  have "connection_host (PStr (lit [c, ''0'' ! 0])) = Inr (lit [c, ''0'' ! 0])"
    using that by (auto simp: connection_host_def is_control_def lit_def)
  then show ?thesis using that
    by (auto simp: ask_peer_def example_peer_fields retrieve_share_def http_call_def connect_def doA_def
        example_request_path example_net_simps example_body)
qed

lemma example_counts: "ss_shares example_dealer = 3" "ss_treshold example_dealer = 2"
  by (simp_all add: example_dealer_def example_empty_def)

lemma example_index_inj: "inj_on example_index (P \<inter> set example_peers)" "inj_on example_name (set example_peers)"
  using example_distinct
  by (auto simp: example_peers_def example_index_def example_name_def example_peer_fields inj_on_def)

definition example_address :: "pyval \<Rightarrow> pystr" where
  "example_address p = (if p = named_record (lit ''b'') (example_record ''b0'' ''default'') then lit ''b0'' else lit ''c0'')"

text \<open>A network that sends these two shares, whenever it answers with 200, is one of honest hosts.\<close>

lemma example_hosts_honest:
  assumes "format_value net (PStr (lit ''u'')) = lit ''u''" "\<And>w. net_certs net certs w = Inr ()"
    and "\<And>rq w. hq_address rq \<in> {lit ''b0'', lit ''c0''} \<Longrightarrow>
      honest_response breaks example_dealer (if hq_address rq = lit ''b0'' then 0 else 1) (snd (net_exchange net rq w))"
  shows "honest_hosts net (\<lambda>_. True) breaks 59222 certs (PStr (lit ''u'')) example_dealer example_address example_index
    example_name example_peers"
proof -
  have peers: "p \<in> set example_peers \<longleftrightarrow> p = named_record (lit ''b'') (example_record ''b0'' ''default'') \<or>
      p = named_record (lit ''c'') (example_record ''c0'' ''default'')" for p
    by (simp add: example_peers_def)
  have hosts: "connection_host (PStr (lit ''b0'')) = Inr (lit ''b0'')" "connection_host (PStr (lit ''c0'')) = Inr (lit ''c0'')"
    by (simp_all add: connection_host_def is_control_def lit_def)
  have response: "honest_response breaks example_dealer (example_index p) (snd (net_exchange net
      \<lparr>hq_address = example_address p, hq_port = 59222, hq_certs = certs, hq_timeout = 10, hq_method = GET,
       hq_path = lit ''/shares/u'', hq_body = None\<rparr> w))" if "p \<in> set example_peers" for p w
    using assms(3) [of "\<lparr>hq_address = example_address p, hq_port = 59222, hq_certs = certs, hq_timeout = 10, hq_method = GET,
       hq_path = lit ''/shares/u'', hq_body = None\<rparr>" w]
    by (cases "p = named_record (lit ''b'') (example_record ''b0'' ''default'')") (simp_all add: example_address_def example_index_def)
  have fields: "py_subscript p (lit ''name'') = Inr (PStr (example_name p)) \<and>
      (\<exists>a. py_subscript p (lit ''address'') = Inr a \<and> connection_host a = Inr (example_address p))" if "p \<in> set example_peers" for p
    using that example_distinct unfolding peers
    by (auto simp: example_peer_fields example_name_def example_address_def hosts)
  have path: "request_path (lit ''/shares/'' @ format_value net (PStr (lit ''u''))) = Inr (lit ''/shares/u'')"
    unfolding assms(1) by (simp add: request_path_def is_control_def lit_def)
  have wire: "\<forall>p \<in> set example_peers. \<forall>w. True \<longrightarrow>
      (case net_exchange net \<lparr>hq_address = example_address p, hq_port = 59222, hq_certs = certs, hq_timeout = 10,
        hq_method = GET, hq_path = lit ''/shares/u'', hq_body = None\<rparr> w of
       (w', r) \<Rightarrow> True \<and> honest_response breaks example_dealer (example_index p) r)"
    using response by (auto simp only: split_beta)
  have "distinct example_peers" using example_distinct by (simp add: example_peers_def)
  moreover have "inj_on example_index {p \<in> set example_peers. example_index p < nat (ss_shares example_dealer)}"
    using example_index_inj(1) [of "{p. example_index p < nat (ss_shares example_dealer)}"] by (simp add: Int_def conj_commute)
  moreover have "\<forall>w e. True \<longrightarrow> net_certs net certs w = Inl e \<longrightarrow> is_os_error e" using assms(2) by simp
  ultimately show ?thesis unfolding honest_hosts_def
    using path wire example_index_inj(2)
    by (intro conjI exI [of _ "lit ''/shares/u''"]) (assumption | (use fields in blast) | simp only: simp_thms)+
qed

lemma example_honest:
  "honest_hosts example_net (\<lambda>_. True) breaks 59222 certs (PStr (lit ''u'')) example_dealer example_address example_index
    example_name example_peers"
  by (rule example_hosts_honest)
     (simp_all add: format_value_def example_net_simps honest_response_def example_body example_counts)

lemma example_shuffle: "mset (net_shuffle example_net w xs) = mset xs"
  by (simp add: example_net_simps)

lemma example_back: "comes_back example_net (\<lambda>_. True) 59222 certs (PStr (lit ''u'')) id 1 (set example_peers)"
  using example_ask [of "CHR ''b''"] example_ask [of "CHR ''c''"]
  by (auto simp: comes_back_def example_ask_world example_peers_def example_net_simps)

lemma example_two: "card (set example_peers) = 2"
  using example_distinct by (simp add: example_peers_def)

section \<open>KEY1 is recovered\<close>

text \<open>
  C5: KEY1 comes back. All hosts that the initiator trusts are honest, but each may be down or answer with any
  other status than 200, any number of times; once a treshold of them answers for good, \<open>_collect_key1\<close> ends,
  whatever the order in which it asks, and returns exactly the KEY1 that was split. If hosts may also break off
  their answers, it ends all the same, then perhaps with the \<open>HTTPException\<close> of such an answer.
\<close>

theorem key1_recovered:
  assumes "boots_from pf basedir cfg fs d uuid port peers" "dealt key1 d"
    and "honest_hosts net ok breaks port (cert_paths basedir cfg) (PStr uuid) d addr idx nm peers"
    and "\<And>w xs. mset (net_shuffle net w xs) = mset xs"
    and "comes_back net ok port (cert_paths basedir cfg) (PStr uuid) clock t A"
    and "A \<subseteq> set peers" "ss_treshold d \<le> int (card A)" "ok w"
  shows "\<exists>w' r. collect_key1 net pf uuid4 basedir cfg fs w = Some (w', r) \<and> (breaks \<and> r = Inl HTTPException \<or> r = Inr key1)"
  by (rule collect_key1_live [OF assms(1,2) honest_hosts_peers [OF assms(3)] assms(4-)])

theorem key1_recovered_witness:
  "\<exists>w'. collect_key1 example_net example_platform [] (lit ''/b'') example_config example_files 0 = Some (w', Inr (lit ''a''))"
  using key1_recovered [OF example_boots example_dealt example_honest [of False] example_shuffle example_back, where w = 0 and ?uuid4.0 = "[]"]
  by (simp add: example_two example_counts)

text \<open>
  C9: nothing but KEY1 comes out. All hosts that the initiator trusts are honest; they may be down or answer
  with any other status than 200, at any time. Then the only value that \<open>_collect_key1\<close> can return is the KEY1
  that was split, it does so only if there are at least a treshold of hosts, and the only error that it can end
  with is the \<open>HTTPException\<close> of an answer that was broken off; otherwise it goes on asking.
\<close>

theorem only_key1_is_collected:
  assumes "boots_from pf basedir cfg fs d uuid port peers" "dealt key1 d" "peers \<noteq> []"
    and "honest_hosts net ok breaks port (cert_paths basedir cfg) (PStr uuid) d addr idx nm peers"
    and "\<And>w xs. mset (net_shuffle net w xs) = mset xs"
    and "ok w" "collect_key1 net pf uuid4 basedir cfg fs w = Some (w', r)"
  shows "breaks \<and> r = Inl HTTPException \<or> r = Inr key1 \<and> ss_treshold d \<le> int (length peers)"
  by (rule collect_key1_only [OF assms(1-3) honest_hosts_peers [OF assms(4)] assms(5-)])

theorem only_key1_is_collected_witness:
  "\<exists>w' r. collect_key1 example_net example_platform [] (lit ''/b'') example_config example_files 0 = Some (w', r) \<and>
    r = Inr (lit ''a'') \<and> ss_treshold example_dealer \<le> int (length example_peers)"
proof -
  obtain w' r where run: "collect_key1 example_net example_platform [] (lit ''/b'') example_config example_files 0 = Some (w', r)"
    using collect_key1_live [OF example_boots example_dealt honest_hosts_peers [OF example_honest [of False]] example_shuffle example_back]
    by (fastforce simp: example_two example_counts)
  have "example_peers \<noteq> []" by (simp add: example_peers_def)
  from only_key1_is_collected [OF example_boots example_dealt this example_honest [of False] example_shuffle TrueI run] run
  show ?thesis by blast
qed

section \<open>A broken answer ends the boot\<close>

text \<open>
  C39: one broken answer ends the boot. If the first host that is asked, which is any of them, sends something
  that is no HTTP answer or is cut short, \<open>http.client\<close> raises an \<open>HTTPException\<close>. That is no \<open>OSError\<close>, so that
  neither the loop over the hosts nor \<open>main\<close> catches it: the program ends with it, no other host is asked,
  nothing is printed and no server is started, however many other hosts would have sent their shares.
\<close>

theorem broken_answer_ends_boot:
  assumes "cfg_getboolean cfg (lit ''initiated'') = Inr True"
    and "boots_from pf basedir cfg (se_files s) d uuid port peers"
    and "\<forall>q \<in> set peers. \<exists>n. py_subscript q (lit ''name'') = Inr (PStr n)"
    and "net_shuffle net (se_world s) peers = p # others"
    and "py_subscript p (lit ''address'') = Inr a" "connection_host a = Inr host"
    and "net_certs net (cert_paths basedir cfg) (se_world s) = Inr ()" "request_path (lit ''/shares/'' @ uuid) = Inr path"
    and "net_exchange net \<lparr>hq_address = host, hq_port = port, hq_certs = cert_paths basedir cfg, hq_timeout = 10,
      hq_method = GET, hq_path = path, hq_body = None\<rparr> (se_world s) = (w, Inl HTTPException)"
    and "peers \<noteq> []"
  shows "initiator_main net sys pf uuid4 basedir config_file False cfg s = Some (s\<lparr>se_world := w\<rparr>, Inl HTTPException)"
proof -
  obtain opts name t n own where b: "cfg = Some opts"
    "key1_metadata (pf_int pf) Key1ReconstructionError opts = Inr (name, uuid, Some t, Some n)"
    "2 \<le> t" "t \<le> n" "own_name_and_peers basedir (se_files s) = Inr (own, peers)"
    "cfg_getint (pf_int pf) cfg (lit ''server-port'') None = Inr port"
    using assms(2) unfolding boots_from_def by blast
  obtain decoder where dec: "shamir_new (PStr name) own (Some n) (Some t) uuid4 = Inr decoder"
    using shamir_new_valid [OF b(3,4)] by blast
  have "not_contributed [] peers = Inr peers"
    using assms(3) by (induction peers) (auto simp: py_in_def hashable_def)
  moreover have "\<not> ss_ready_to_decode decoder" using dec by (auto simp: shamir_new_Inr shamir_init_def split: if_splits)
  moreover have "ask_peer net port (cert_paths basedir cfg) (PStr uuid) p (se_world s) = (w, Inl HTTPException)"
    using assms(5-9) by (simp add: ask_peer_def retrieve_share_def http_call_def connect_def doA_def format_value_def)
  ultimately have "collect_rounds net port (cert_paths basedir cfg) uuid peers (decoder, []) (se_world s) = Some (w, Inl HTTPException)"
    using assms(4) by (subst collect_rounds.simps) (simp add: doA_def tryA_def is_unavailable_def)
  then have "collect_key1 net pf uuid4 basedir cfg (se_files s) (se_world s) = Some (w, Inl HTTPException)"
    using b dec assms(10) by (simp add: collect_key1_def)
  then show ?thesis
    using assms(1) by (simp add: initiator_main_def doA_def tryA_def is_recovery_error_def)
qed

text \<open>Both hosts hold their shares, but the first to be asked answers with something else.\<close>

definition broken_net :: "nat net" where
  "broken_net = example_net\<lparr>net_exchange := (\<lambda>rq w. (Suc w, if w = 0 then Inl HTTPException
     else Inr (200, share_body (if hq_address rq = lit ''b0'' then 0 else 1))))\<rparr>"

theorem broken_answer_ends_boot_witness:
  "\<forall>sys config_file. initiator_main broken_net sys example_platform [] (lit ''/b'') config_file False example_config
      \<lparr>se_world = 0, se_files = example_files, se_echo = [], se_input = []\<rparr> =
    Some (\<lparr>se_world = 1, se_files = example_files, se_echo = [], se_input = []\<rparr>, Inl HTTPException)"
proof -
  let ?s = "\<lparr>se_world = 0, se_files = example_files, se_echo = [], se_input = []\<rparr> :: nat session"
  have initiated: "cfg_getboolean example_config (lit ''initiated'') = Inr True"
    by (simp add: cfg_getboolean_def cfg_option_def example_config_def str_lower_def lower_ascii_def lit_def)
  have boots: "boots_from example_platform (lit ''/b'') example_config (se_files ?s) example_dealer (lit ''u'') 59222 example_peers"
    using example_boots by simp
  have shuffled: "net_shuffle broken_net (se_world ?s) example_peers =
      named_record (lit ''c'') (example_record ''c0'' ''default'') # [named_record (lit ''b'') (example_record ''b0'' ''default'')]"
    by (simp add: broken_net_def example_net_def example_peers_def)
  have host: "connection_host (PStr (lit ''c0'')) = Inr (lit ''c0'')" "request_path (lit ''/shares/'' @ lit ''u'') = Inr (lit ''/shares/u'')"
    by (simp_all add: connection_host_def request_path_def is_control_def lit_def)
  have names: "\<forall>q \<in> set example_peers. \<exists>n. py_subscript q (lit ''name'') = Inr (PStr n)"
    by (simp add: example_peers_def example_peer_fields)
  have "example_peers \<noteq> []" by (simp add: example_peers_def)
  from broken_answer_ends_boot [OF initiated boots names shuffled example_peer_fields(1) host(1) _ host(2) _ this, of 1]
  have "initiator_main broken_net sys example_platform [] (lit ''/b'') config_file False example_config ?s =
      Some (?s\<lparr>se_world := 1\<rparr>, Inl HTTPException)" for sys config_file by (simp add: broken_net_def example_net_def)
  then show ?thesis by simp
qed

section \<open>Starting the server\<close>

lemma server_main_key1:
  assumes "server_main pf su basedir cfg handoff fs = (fs', out, Inr app)"
    and "key1_message key1 = Inr msg" "delivered handoff = msg"
  shows "ac_key1 app = key1"
proof -
  obtain h' where "receive_key1 handoff = Inr (key1, h')"
    by (rule receive_key1_message [OF assms(2), of handoff "[]"]) (use assms(3) in simp)
  then show ?thesis using assms(1)
    by (auto simp: server_main_def startup_guard_def serve_start_def bindE_Inr_iff split: sum.splits prod.splits)
qed

lemma int_text_scalar: "list_all is_scalar (int_text n)"
proof -
  have "list_all is_digit (dec_digits k)" for k using dec_digits_digits by simp
  then have "list_all is_scalar (dec_digits k)" for k
    by (fastforce simp: list_all_iff is_digit_def is_scalar_def)
  then show ?thesis by (simp add: int_text_def is_scalar_def)
qed


definition example_sys :: "(bool \<times> int) sys" where
  "example_sys = \<lparr>sy_spawn = (\<lambda>_ s. (s, Inr 7)), sy_child = (\<lambda>_ _ s. (s, Inr (), [Data send_ready])),
     sy_kill = (\<lambda>pid sig (r, t). if pid = 7 \<and> r then ((sig \<noteq> 9, t), Inr ()) else ((r, t), Inl ProcessLookupError)),
     sy_clock = snd, sy_nap = (\<lambda>d (r, t). (r, t + d)), sy_pid_io = example_io Finish, sy_status_text = (\<lambda>_. [])\<rparr>"


section \<open>Stopping the server\<close>

text \<open>
  Processes as signals see them: signal 0 tells whether a process runs, a process that does not run is
  not found, \<open>SIGKILL\<close> ends it, none comes back, and naps take their time.
\<close>

definition processes_ok :: "'w sys \<Rightarrow> ('w \<Rightarrow> int \<Rightarrow> bool) \<Rightarrow> bool" where
  "processes_ok sys running \<longleftrightarrow>
     (\<forall>w pid. running w pid \<longrightarrow> sy_kill sys pid 0 w = (w, Inr ()) \<and>
        snd (sy_kill sys pid 15 w) = Inr () \<and> snd (sy_kill sys pid 9 w) = Inr () \<and>
        \<not> running (fst (sy_kill sys pid 9 w)) pid) \<and>
     (\<forall>w pid sig. \<not> running w pid \<longrightarrow> sy_kill sys pid sig w = (w, Inl ProcessLookupError)) \<and>
     (\<forall>w pid d. \<not> running w pid \<longrightarrow> \<not> running (sy_nap sys d w) pid) \<and>
     (\<forall>w d. sy_clock sys w + d \<le> sy_clock sys (sy_nap sys d w))"

lemma pid_is_alive_running: "processes_ok sys running \<Longrightarrow> pid_is_alive sys pid w = (w, Inr (running w pid))"
  by (cases "running w pid") (simp_all add: processes_ok_def pid_is_alive_def)

lemma signals:
  assumes "processes_ok sys running" "running w pid"
  shows "\<exists>w'. sy_kill sys pid 15 w = (w', Inr ())"
    and "\<exists>w'. sy_kill sys pid 9 w = (w', Inr ()) \<and> \<not> running w' pid"
proof -
  have "snd (sy_kill sys pid 15 w) = Inr ()" "snd (sy_kill sys pid 9 w) = Inr ()"
    "\<not> running (fst (sy_kill sys pid 9 w)) pid"
    using assms by (simp_all add: processes_ok_def)
  then show "\<exists>w'. sy_kill sys pid 15 w = (w', Inr ())" "\<exists>w'. sy_kill sys pid 9 w = (w', Inr ()) \<and> \<not> running w' pid"
    by (cases "sy_kill sys pid 15 w"; cases "sy_kill sys pid 9 w"; simp)+
qed

lemma await_exit_ends:
  assumes "processes_ok sys running"
  shows "\<exists>w'. await_exit sys pid deadline w = Some (w', Inr ())"
proof (induction "nat (deadline - sy_clock sys w)" arbitrary: w rule: less_induct)
  case less
  show ?case
  proof (cases "sy_clock sys w < deadline \<and> running w pid")
    case True
    have "sy_clock sys w + 100000 \<le> sy_clock sys (sy_nap sys 100000 w)"
      using assms by (simp add: processes_ok_def)
    with True have "nat (deadline - sy_clock sys (sy_nap sys 100000 w)) < nat (deadline - sy_clock sys w)" by linarith
    from less [OF this] True show ?thesis
      by (subst await_exit.simps) (simp add: pid_is_alive_running [OF assms])
  next
    case False
    then show ?thesis by (subst await_exit.simps) (auto simp: pid_is_alive_running [OF assms])
  qed
qed

lemma terminate_pid_ends:
  assumes "processes_ok sys running"
  shows "\<exists>w'. terminate_pid sys timeout pid w = Some (w', Inr (running w pid)) \<and> \<not> running w' pid"
proof (cases "running w pid")
  case True
  obtain w2 where sigterm: "sy_kill sys pid 15 w = (w2, Inr ())"
    using signals(1) [OF assms True] by blast
  obtain w3 where w3: "await_exit sys pid (sy_clock sys w2 + timeout) w2 = Some (w3, Inr ())"
    using await_exit_ends [OF assms] by blast
  show ?thesis
  proof (cases "running w3 pid")
    case still: True
    obtain w4 where "sy_kill sys pid 9 w3 = (w4, Inr ())" "\<not> running w4 pid"
      using signals(2) [OF assms still] by blast
    then show ?thesis using True still sigterm w3
      by (simp add: terminate_pid_def pid_is_alive_running [OF assms] doA_def)
  qed (use True sigterm w3 in \<open>simp add: terminate_pid_def pid_is_alive_running [OF assms] doA_def\<close>)
qed (simp add: terminate_pid_def pid_is_alive_running [OF assms])

lemma stop_server_ends:
  assumes "processes_ok sys running"
  shows "\<exists>s' r. stop_server sys pf basedir timeout s = Some (s', r) \<and>
    (case read_pid pf (pid_file_path basedir) (se_files s) of
       Inl e \<Rightarrow> s' = s \<and> (e = FileNotFoundError \<or> is_value_error e \<longrightarrow> r = Inr False)
     | Inr pid \<Rightarrow> r = Inr (running (se_world s) pid) \<and> \<not> running (se_world s') pid \<and>
         se_files s' = (se_files s)(pid_file_path basedir := None))"
proof (cases "read_pid pf (pid_file_path basedir) (se_files s)")
  case (Inr pid)
  obtain w' where "terminate_pid sys timeout pid (se_world s) = Some (w', Inr (running (se_world s) pid))"
    "\<not> running w' pid" using terminate_pid_ends [OF assms] by blast
  then show ?thesis using Inr by (simp add: stop_server_def)
qed (simp add: stop_server_def)


lemma example_processes: "processes_ok example_sys (\<lambda>w pid. fst w \<and> pid = 7)"
  by (auto simp: processes_ok_def example_sys_def)


end
