(* ===== verification/ClientProperties.thy ===== *)
theory ClientProperties
  imports SecretwebClient InitiatorProperties
begin

text \<open>
  The properties of the day-2 client: what \<open>store-secret\<close> sends, in which order and to whom, and that
  it records a secret only when enough shares are out; and that \<open>get-secret\<close> prints the secret or
  nothing.
\<close>

section \<open>The requests of a command\<close>

text \<open>A network that keeps a log of the exchanges.\<close>

type_synonym exchange_log = "(http_request \<times> (nat \<times> byte list) py) list"

definition logged :: "'w net \<Rightarrow> ('w \<times> exchange_log) net" where
  "logged net = \<lparr>net_certs = (\<lambda>c w. net_certs net c (fst w)),
     net_exchange = (\<lambda>rq w. case net_exchange net rq (fst w) of (w', r) \<Rightarrow> ((w', snd w @ [(rq, r)]), r)),
     net_sleep = (\<lambda>n w. (net_sleep net n (fst w), snd w)),
     net_shuffle = (\<lambda>w. net_shuffle net (fst w)), net_format = net_format net\<rparr>"

lemma logged_simps [simp]:
  "net_certs (logged net) c w = net_certs net c (fst w)"
  "net_exchange (logged net) rq w = (case net_exchange net rq (fst w) of (w', r) \<Rightarrow> ((w', snd w @ [(rq, r)]), r))"
  "net_shuffle (logged net) w = net_shuffle net (fst w)" "net_format (logged net) = net_format net"
  "format_value (logged net) = format_value net"
  by (simp_all add: logged_def format_value_def fun_eq_iff split: pyval.split)

definition acknowledged :: "(nat \<times> byte list) py \<Rightarrow> bool" where
  "acknowledged answer \<longleftrightarrow> (case answer of Inr (status, _) \<Rightarrow> status \<in> {200, 201} | Inl _ \<Rightarrow> False)"

text \<open>One call makes at most one exchange, the last thing it does.\<close>

lemma http_call_log:
  assumes "http_call (logged net) address port certs timeout method path body w = (w', r)"
  shows "(\<exists>e. w' = w \<and> r = Inl e) \<or>
    (\<exists>host v. connection_host address = Inr host \<and> request_path path = Inr path \<and>
       w' = (v, snd w @ [(\<lparr>hq_address = host, hq_port = port, hq_certs = certs, hq_timeout = timeout,
         hq_method = method, hq_path = path, hq_body = body\<rparr>, r)]))"
proof -
  have path: "request_path path = Inr p \<Longrightarrow> p = path" for p
    by (auto simp: request_path_def split: if_splits)
  show ?thesis using assms
    by (auto simp: http_call_def doA_def connect_def dest!: path split: sum.splits prod.splits)
       (auto simp: bindE_Inr_iff dest: path)
qed

text \<open>The request that publishes one share.\<close>

definition share_request :: "'w net \<Rightarrow> int \<Rightarrow> certs \<Rightarrow> pyval \<times> pyval \<Rightarrow> http_request \<Rightarrow> bool" where
  "share_request net port certs ps rq \<longleftrightarrow>
     (\<exists>address host uuid body. py_subscript (fst ps) (lit ''address'') = Inr address \<and>
        connection_host address = Inr host \<and> py_subscript (snd ps) (lit ''uuid'') = Inr uuid \<and>
        json_bytes (snd ps) = Inr body \<and>
        rq = \<lparr>hq_address = host, hq_port = port, hq_certs = certs, hq_timeout = 10, hq_method = POST,
          hq_path = lit ''/shares/'' @ format_value net uuid, hq_body = Some body\<rparr>)"

lemma send_share_log:
  assumes "send_share (logged net) address port certs share w = (w', r)"
    and "py_subscript peer (lit ''address'') = Inr address"
  shows "(\<exists>e. w' = w \<and> r = Inl e) \<or>
    (\<exists>v rq answer. w' = (v, snd w @ [(rq, answer)]) \<and> share_request net port certs (peer, share) rq \<and>
       (r = Inr () \<longleftrightarrow> acknowledged answer))"
proof (cases "py_subscript share (lit ''uuid'')")
  case (Inr uuid)
  show ?thesis
  proof (cases "json_bytes share")
    case body: (Inr body)
    obtain w1 answer where call: "http_call (logged net) address port certs 10 POST
        (lit ''/shares/'' @ format_value net uuid) (Some body) w = (w1, answer)" by (rule prod.exhaust)
    have r: "w' = w1" "r = (case answer of Inl e \<Rightarrow> Inl e
      | Inr (status, _) \<Rightarrow> if status \<in> {200, 201} then Inr () else Inl PeerRequestError)"
      using assms(1) Inr body call by (auto simp: send_share_def doA_def split: sum.splits prod.splits)
    then have ack: "r = Inr () \<longleftrightarrow> acknowledged answer"
      by (auto simp: acknowledged_def split: sum.splits prod.splits)
    from http_call_log [OF call] show ?thesis
    proof (elim disjE exE conjE)
      fix e assume "w1 = w" "answer = Inl e"
      then show ?thesis using r by simp
    next
      fix host v assume h: "connection_host address = Inr host"
        "w1 = (v, snd w @ [(\<lparr>hq_address = host, hq_port = port, hq_certs = certs, hq_timeout = 10,
           hq_method = POST, hq_path = lit ''/shares/'' @ format_value net uuid, hq_body = Some body\<rparr>, answer)])"
      then show ?thesis using r(1) ack assms(2) Inr body unfolding share_request_def by fastforce
    qed
  qed (use assms(1) Inr in \<open>auto simp: send_share_def\<close>)
qed (use assms(1) in \<open>auto simp: send_share_def\<close>)

section \<open>The loop that publishes\<close>

text \<open>The log of the loop: shares go out in order, each at most once and to its own peer.\<close>

definition published :: "'w net \<Rightarrow> int \<Rightarrow> certs \<Rightarrow> (pyval \<times> pyval) list \<Rightarrow> exchange_log \<Rightarrow> bool" where
  "published net port certs pairs posts \<longleftrightarrow>
     (\<exists>is. sorted_wrt (<) is \<and> list_all2 (\<lambda>i (rq, answer). i < length pairs \<and>
        share_request net port certs (pairs ! i) rq) is posts)"

definition acks :: "exchange_log \<Rightarrow> int" where
  "acks posts = int (length (filter (\<lambda>(rq, answer). acknowledged answer) posts))"

lemma acks_simps [simp]: "acks [] = 0" "acks (x # xs) = (if acknowledged (snd x) then 1 else 0) + acks xs"
  by (auto simp: acks_def split: prod.splits)

lemma published_Nil: "published net port certs pairs []"
  by (auto simp: published_def intro: exI [of _ "[]"])

lemma published_skip: "published net port certs pairs posts \<Longrightarrow> published net port certs (p # pairs) posts"
proof -
  assume "published net port certs pairs posts"
  then obtain js where js: "sorted_wrt (<) js" "list_all2 (\<lambda>i (rq, answer). i < length pairs \<and>
      share_request net port certs (pairs ! i) rq) js posts" by (auto simp: published_def)
  have "sorted_wrt (<) (map Suc js)" using js(1) by (simp add: sorted_wrt_map)
  moreover have "list_all2 (\<lambda>i (rq, answer). i < length (p # pairs) \<and>
      share_request net port certs ((p # pairs) ! i) rq) (map Suc js) posts"
    using js(2) by (auto simp: list_all2_map1 elim!: list_all2_mono)
  ultimately show ?thesis unfolding published_def by blast
qed

lemma published_Cons:
  assumes "published net port certs pairs posts" "share_request net port certs p rq"
  shows "published net port certs (p # pairs) ((rq, answer) # posts)"
proof -
  obtain js where js: "sorted_wrt (<) js" "list_all2 (\<lambda>i (rq, answer). i < length pairs \<and>
      share_request net port certs (pairs ! i) rq) js posts" using assms(1) by (auto simp: published_def)
  have "sorted_wrt (<) (0 # map Suc js)" using js(1) by (simp add: sorted_wrt_map)
  moreover have "list_all2 (\<lambda>i (rq, answer). i < length (p # pairs) \<and>
      share_request net port certs ((p # pairs) ! i) rq) (0 # map Suc js) ((rq, answer) # posts)"
    using js(2) assms(2) by (auto simp: list_all2_map1 elim!: list_all2_mono)
  ultimately show ?thesis unfolding published_def by blast
qed

lemma peer_line_log:
  "peer_line net stream peer text s = (s', r) \<Longrightarrow> se_world s' = se_world s \<and> se_files s' = se_files s \<and>
     (r = Inr () \<longrightarrow> (\<exists>t. se_echo s' = se_echo s @ [stream t])) \<and> (\<forall>e. r = Inl e \<longrightarrow> se_echo s' = se_echo s)"
  by (auto simp: peer_line_def doA_def echoA_def split: sum.splits)

lemma publish_shares_log:
  assumes "publish_shares (logged net) pf port certs pairs k s = (s', r)"
  shows "\<exists>posts. snd (se_world s') = snd (se_world s) @ posts \<and> published net port certs pairs posts \<and>
    (\<forall>n. r = Inr n \<longrightarrow> n = k + acks posts)"
  using assms
proof (induction pairs arbitrary: k s)
  case Nil
  then show ?case by (auto intro!: exI [of _ "[]"] published_Nil)
next
  case (Cons p pairs)
  obtain peer share where p: "p = (peer, share)" by (rule prod.exhaust)
  show ?case
  proof (cases "py_subscript peer (lit ''address'')")
    case (Inl e)
    have "e = KeyError \<or> e = TypeError" using Inl by (cases peer) auto
    then have "s' = s \<and> r = Inl e" using Cons.prems p Inl by (auto simp: doA_def tryA_def)
    then show ?thesis by (auto intro!: exI [of _ "[]"] published_Nil)
  next
    case (Inr address)
    obtain w1 r1 where send: "send_share (logged net) address port certs share (se_world s) = (w1, r1)"
      by (rule prod.exhaust)
    let ?s1 = "s\<lparr>se_world := w1\<rparr>"
    let ?ok = "\<lambda>e. is_os_error e \<or> e = PeerRequestError"
    let ?line = "case r1 of Inr _ \<Rightarrow> peer_line (logged net) Out peer (lit '': OK'')
      | Inl e \<Rightarrow> peer_line (logged net) Out peer (lit '': FAILED ('' @ pf_exn_text pf e @ lit '')'')"
    obtain s2 r2 where line: "?line ?s1 = (s2, r2)" by (rule prod.exhaust)
    have world: "se_world s2 = w1"
      using line peer_line_log [of "logged net" Out peer _ ?s1 s2 r2] by (cases r1) auto
    have run: "(s', r) = (case r1 of
        Inl e \<Rightarrow> if ?ok e then (case r2 of Inl e' \<Rightarrow> (s2, Inl e')
          | Inr _ \<Rightarrow> publish_shares (logged net) pf port certs pairs k s2) else (?s1, Inl e)
      | Inr _ \<Rightarrow> (case r2 of Inl e' \<Rightarrow> (s2, Inl e')
          | Inr _ \<Rightarrow> publish_shares (logged net) pf port certs pairs (k + 1) s2))"
      using Cons.prems p Inr send line
      by (cases r1; cases r2) (auto simp: doA_def tryA_def worldA_def split: if_splits)
    have step: "(\<exists>e. r1 = Inl e \<and> w1 = se_world s) \<or> (\<exists>rq answer. snd w1 = snd (se_world s) @ [(rq, answer)] \<and>
        share_request net port certs p rq \<and> (r1 = Inr () \<longleftrightarrow> acknowledged answer))"
      using send_share_log [OF send Inr] p by auto
    have tail: "\<exists>posts. snd (se_world s') = snd w1 @ posts \<and> published net port certs pairs posts \<and>
        (\<forall>n. r = Inr n \<longrightarrow> n = (if r1 = Inr () then k + 1 else k) + acks posts)"
    proof (cases "\<exists>k'. (s', r) = publish_shares (logged net) pf port certs pairs k' s2 \<and>
        k' = (if r1 = Inr () then k + 1 else k)")
      case True
      then show ?thesis using Cons.IH [of _ s2] world by auto
    next
      case False
      then have "se_world s' = w1 \<and> (\<exists>e. r = Inl e)"
        using run world by (cases r1; cases r2) (auto split: if_splits)
      then show ?thesis by (auto intro!: exI [of _ "[]"] published_Nil)
    qed
    then obtain posts where posts: "snd (se_world s') = snd w1 @ posts" "published net port certs pairs posts"
      "\<forall>n. r = Inr n \<longrightarrow> n = (if r1 = Inr () then k + 1 else k) + acks posts" by blast
    from step show ?thesis
    proof (elim disjE exE conjE)
      fix e assume "r1 = Inl e" "w1 = se_world s"
      then show ?thesis using posts published_skip [OF posts(2), of p] by (intro exI [of _ posts]) auto
    next
      fix rq answer assume a: "snd w1 = snd (se_world s) @ [(rq, answer)]"
        "share_request net port certs p rq" "r1 = Inr () \<longleftrightarrow> acknowledged answer"
      then show ?thesis using posts published_Cons [OF posts(2) a(2)]
        by (intro exI [of _ "(rq, answer) # posts"]) auto
    qed
  qed
qed

section \<open>Recording\<close>

definition record_request ::
  "int \<Rightarrow> certs \<Rightarrow> pystr \<Rightarrow> pyval \<Rightarrow> int \<Rightarrow> int \<Rightarrow> http_request \<Rightarrow> bool" where
  "record_request port certs name uuid treshold successes rq \<longleftrightarrow>
     (\<exists>body. json_bytes (secret_body uuid treshold successes) = Inr body \<and>
        rq = \<lparr>hq_address = lit ''127.0.0.1'', hq_port = port, hq_certs = certs, hq_timeout = 10,
          hq_method = POST, hq_path = lit ''/secrets/'' @ name, hq_body = Some body\<rparr>)"

lemma localhost: "connection_host (PStr (lit ''127.0.0.1'')) = Inr (lit ''127.0.0.1'')"
  by (simp add: connection_host_def is_control_def lit_def)

lemma record_secret_log:
  assumes "record_secret (logged net) (PStr (lit ''127.0.0.1'')) port certs name uuid treshold successes w = (w', r)"
  shows "(w' = w \<and> (\<exists>e. r = Inl e)) \<or>
    (\<exists>v rq answer. w' = (v, snd w @ [(rq, answer)]) \<and> record_request port certs name uuid treshold successes rq \<and>
       ((\<exists>x. r = Inr x) \<longrightarrow> acknowledged answer))"
proof (cases "json_bytes (secret_body uuid treshold successes)")
  case (Inr body)
  obtain w1 answer where call: "http_call (logged net) (PStr (lit ''127.0.0.1'')) port certs 10 POST
      (lit ''/secrets/'' @ name) (Some body) w = (w1, answer)" by (rule prod.exhaust)
  have r: "w' = w1" "r = (case answer of Inl e \<Rightarrow> Inl e
    | Inr (status, b) \<Rightarrow> if status \<in> {200, 201} then json_loads_bytes b else Inl PeerRequestError)"
    using assms Inr call by (auto simp: record_secret_def doA_def split: sum.splits prod.splits)
  then have ack: "(\<exists>x. r = Inr x) \<longrightarrow> acknowledged answer"
    by (auto simp: acknowledged_def split: sum.splits prod.splits if_splits)
  from http_call_log [OF call] show ?thesis
  proof (elim disjE exE conjE)
    fix e assume "w1 = w" "answer = Inl e"
    then show ?thesis using r by simp
  next
    fix host v assume "connection_host (PStr (lit ''127.0.0.1'')) = Inr host"
      "w1 = (v, snd w @ [(\<lparr>hq_address = host, hq_port = port, hq_certs = certs, hq_timeout = 10,
         hq_method = POST, hq_path = lit ''/secrets/'' @ name, hq_body = Some body\<rparr>, answer)])"
    then show ?thesis using r(1) ack Inr localhost unfolding record_request_def by fastforce
  qed
qed (use assms in \<open>auto simp: record_secret_def\<close>)

lemma record_own_secret_log:
  assumes "record_own_secret (logged net) pf port certs name uuid shares treshold successes s = (s', r)"
  shows "(se_world s' = se_world s \<and> (\<exists>e. r = Inl e)) \<or>
    (\<exists>rq answer. snd (se_world s') = snd (se_world s) @ [(rq, answer)] \<and> treshold \<le> successes \<and>
       record_request port certs name uuid treshold successes rq \<and> (r = Inr () \<longrightarrow> acknowledged answer))"
proof (cases "successes < treshold")
  case False
  obtain w1 r1 where rec: "record_secret (logged net) (PStr (lit ''127.0.0.1'')) port certs name uuid treshold
      successes (se_world s) = (w1, r1)" by (rule prod.exhaust)
  have "se_world s' = w1" "r = Inr () \<Longrightarrow> \<exists>x. r1 = Inr x" "r1 = Inl e \<Longrightarrow> \<exists>e. r = Inl e" for e
    using assms False rec
    by (auto simp: record_own_secret_def doA_def tryA_def worldA_def echoA_def split: sum.splits if_splits)
  with record_secret_log [OF rec] False show ?thesis by fastforce
qed (use assms in \<open>auto simp: record_own_secret_def doA_def echoA_def\<close>)

text \<open>
  C6: a secret is recorded only when it is safely on the network. Whatever the network does,
  \<open>store-secret\<close> first sends shares of the secret, each to its own peer and at most once; only when at
  least a treshold of them was acknowledged does it send one more request, to this host's own server,
  which records the number of acknowledged shares; and it succeeds only if that was acknowledged too.
\<close>

theorem secret_recorded_when_saved:
  assumes "store_secret_cmd (logged net) pf tape uuid4 now stdin basedir cfg name secret shares_override
      treshold_override s = Some (s', r)"
    and "snd (se_world s) = []"
  shows "(snd (se_world s') = [] \<and> (\<exists>e. r = Inl e)) \<or>
    (\<exists>port own peers shares treshold obj dealer tape' participants posts recs.
       own_name_and_peers basedir (se_files s) = Inr (own, peers) \<and>
       shares_and_treshold (int (length peers)) shares_override treshold_override = Inr (shares, treshold) \<and>
       shamir_new (PStr name) own (Some shares) (Some treshold) uuid4 = Inr obj \<and>
       create_secret (case secret of None \<Rightarrow> without_newline stdin | Some v \<Rightarrow> v) now tape obj = Some (Inr dealer, tape') \<and>
       iterate_participants dealer = Inr participants \<and>
       snd (se_world s') = posts @ recs \<and>
       published net port (cert_paths basedir cfg) (zip (slice_to shares peers) participants) posts \<and>
       (recs = [] \<and> (\<exists>e. r = Inl e) \<or>
        (\<exists>rq answer. recs = [(rq, answer)] \<and> treshold \<le> acks posts \<and>
           record_request port (cert_paths basedir cfg) name (ss_uuid dealer) treshold (acks posts) rq \<and>
           (r = Inr () \<longrightarrow> acknowledged answer))))"
proof (cases "\<exists>e. se_world s' = se_world s \<and> r = Inl e")
  case False
  let ?plain = "case secret of None \<Rightarrow> without_newline stdin | Some v \<Rightarrow> v"
  obtain port own peers shares treshold obj where prep: "cfg_getint (pf_int pf) cfg (lit ''server-port'') None = Inr port"
      "own_name_and_peers basedir (se_files s) = Inr (own, peers)" "peers \<noteq> []"
      "shares_and_treshold (int (length peers)) shares_override treshold_override = Inr (shares, treshold)"
      "shamir_new (PStr name) own (Some shares) (Some treshold) uuid4 = Inr obj"
    using assms(1) False
    by (auto simp: store_secret_cmd_def bindE_Inl_iff bindE_Inr_iff split: sum.splits if_splits prod.splits)
  obtain dealer tape' where create: "create_secret ?plain now tape obj = Some (Inr dealer, tape')"
    using assms(1) False prep
    by (auto simp: store_secret_cmd_def split: option.splits sum.splits prod.splits)
  let ?s1 = "s\<lparr>se_echo := se_echo s @ [Out (lit ''Publishing '' @ [39] @ name @ [39] @ lit '' as '' @ int_text shares @
    lit '' share(s), treshold '' @ int_text treshold @ lit ''...'')]\<rparr>"
  obtain participants where parts: "iterate_participants dealer = Inr participants"
    using assms(1) False prep create
    by (cases "iterate_participants dealer") (auto simp: store_secret_cmd_def doA_def echoA_def)
  obtain s2 r2 where pub: "publish_shares (logged net) pf port (cert_paths basedir cfg)
      (zip (slice_to shares peers) participants) 0 ?s1 = (s2, r2)" by (rule prod.exhaust)
  obtain posts where posts: "snd (se_world s2) = posts"
    "published net port (cert_paths basedir cfg) (zip (slice_to shares peers) participants) posts"
    "\<forall>n. r2 = Inr n \<longrightarrow> n = acks posts"
    using publish_shares_log [OF pub] assms(2) by auto
  have run: "(s', r) = (case r2 of Inl e \<Rightarrow> (s2, Inl e) | Inr n \<Rightarrow>
      record_own_secret (logged net) pf port (cert_paths basedir cfg) name (ss_uuid dealer) shares treshold n s2)"
    using assms(1) prep create parts pub
    by (auto simp: store_secret_cmd_def doA_def echoA_def split: sum.splits)
  have "\<exists>recs. snd (se_world s') = posts @ recs \<and> (recs = [] \<and> (\<exists>e. r = Inl e) \<or>
        (\<exists>rq answer. recs = [(rq, answer)] \<and> treshold \<le> acks posts \<and>
           record_request port (cert_paths basedir cfg) name (ss_uuid dealer) treshold (acks posts) rq \<and>
           (r = Inr () \<longrightarrow> acknowledged answer)))"
  proof (cases r2)
    case (Inl e)
    then show ?thesis using run posts by auto
  next
    case (Inr n)
    then have "record_own_secret (logged net) pf port (cert_paths basedir cfg) name (ss_uuid dealer) shares
        treshold (acks posts) s2 = (s', r)" using run posts(3) by simp
    from record_own_secret_log [OF this] posts(1) show ?thesis by auto
  qed
  then show ?thesis using prep create parts posts by blast
qed (use assms(2) in auto)

text \<open>A worked run: alice splits a secret for her two peers, who both take their shares.\<close>

definition ack_body :: "byte list" where
  "ack_body = (case json_bytes (PDict [(lit ''last_updated'', PStr (lit ''now''))]) of Inr bs \<Rightarrow> bs | Inl _ \<Rightarrow> [])"

definition ack_net :: "unit net" where
  "ack_net = \<lparr>net_certs = (\<lambda>_ _. Inr ()), net_exchange = (\<lambda>rq w. (w, Inr (201, ack_body))),
     net_sleep = (\<lambda>_ w. w), net_shuffle = (\<lambda>_ xs. xs), net_format = (\<lambda>_. [])\<rparr>"

definition pair_matrix :: "(int \<times> int) list list" where
  "pair_matrix = [[(1, 8), (2, 15)], [(1, 6989586621679009803), (2, 6989586621679009814)]]"

definition pair_empty :: "shamir_secret" where
  "pair_empty = example_empty\<lparr>ss_shares := 2\<rparr>"

definition pair_dealer :: "shamir_secret" where
  "pair_dealer = pair_empty\<lparr>ss_secret_hash := PStr (sha256_hexdigest [97]),
     ss_creation_date := PStr (lit ''now''), ss_secret_matrix := pair_matrix, ss_ready_to_decode := True\<rparr>"

lemma pair_init: "shamir_new (PStr (lit ''n'')) (PStr (lit ''alice'')) (Some 2) (Some 2) (lit ''u'') = Inr pair_empty"
  by (simp add: shamir_new_def shamir_init_def pair_empty_def example_empty_def)

lemma pair_create_named:
  "create_secret (lit ''a'') (lit ''now'') [7, 0, 1, 11, 0, 1] (pair_empty\<lparr>ss_name := n\<rparr>) =
     Some (Inr (pair_dealer\<lparr>ss_name := n\<rparr>), [])"
proof -
  have split: "split_all 2 2 [1, 6989586621679009792] [7, 0, 1, 11, 0, 1] = Some (pair_matrix, [])"
    by (simp add: pair_matrix_def generate_shares_def coeff_def PRIME_def polynom_def Let_def)
  have "ss_shares pair_empty = 2" "ss_treshold pair_empty = 2"
    "ss_bytes_per_integer pair_empty = 8" "ss_secret_matrix pair_empty = []"
    by (simp_all add: pair_empty_def example_empty_def)
  then show ?thesis
    by (simp add: create_secret_def example_utf8 example_ints split MAX_SECRET_BYTES_def
        pair_dealer_def del: split_all.simps)
qed

lemma pair_create:
  "create_secret (lit ''a'') (lit ''now'') [7, 0, 1, 11, 0, 1] pair_empty = Some (Inr pair_dealer, [])"
  using pair_create_named [of "ss_name pair_empty"] by (simp add: pair_empty_def pair_dealer_def example_empty_def)

lemma pair_participants: "iterate_participants pair_dealer = Inr (map (participant_data pair_dealer) [0, 1])"
  by (simp add: iterate_participants_def pair_dealer_def pair_empty_def example_empty_def pair_matrix_def)

lemma pair_json:
  assumes i: "i < 2" and name: "str_ok n"
  shows "\<exists>bs. json_bytes (participant_data (pair_dealer\<lparr>ss_name := PStr n\<rparr>) i) = Inr bs"
proof -
  have "str_ok (sha256_hexdigest [97])"
    by (rule str_ok_ascii) (auto simp: list_all_iff dest: sha256_hexdigest_ascii)
  moreover have "json_ok (participant_keys pair_matrix i)" using i
    by (elim less_2_cases [elim_format] disjE)
       (simp_all add: participant_keys_def pair_matrix_def dec_digits.simps MAX_STR_DIGITS_def)
  ultimately have "json_ok (participant_data (pair_dealer\<lparr>ss_name := PStr n\<rparr>) i)" using name
    by (simp add: participant_data_def pair_dealer_def pair_empty_def example_empty_def dict_ok_def dec_digits.simps MAX_STR_DIGITS_def)
  then show ?thesis by (rule json_bytes_total)
qed

lemma pair_uuid:
  "py_subscript (participant_data (pair_dealer\<lparr>ss_name := n\<rparr>) i) (lit ''uuid'') = Inr (PStr (lit ''u''))"
  by (simp add: participant_data_def pair_dealer_def pair_empty_def example_empty_def)

lemma example_name_ok: "str_ok (lit ''n'')" "str_ok (lit ''key1'')"
  by (simp_all add: str_ok_ascii lit_def)

lemma pair_named: "pair_dealer\<lparr>ss_name := PStr (lit ''n'')\<rparr> = pair_dealer"
  by (simp add: pair_dealer_def pair_empty_def example_empty_def)

lemma ack_call:
  assumes "connection_host address = Inr host" "request_path path = Inr path"
  shows "\<exists>rq. http_call (logged ack_net) address port certs t m path b w = (((), snd w @ [(rq, Inr (201, ack_body))]), Inr (201, ack_body))"
  using assms by (simp add: http_call_def doA_def connect_def) (simp add: ack_net_def)

lemma ack_share:
  assumes "connection_host address = Inr host" "i < 2" "str_ok n"
  shows "\<exists>rq. send_share (logged ack_net) address port certs (participant_data (pair_dealer\<lparr>ss_name := PStr n\<rparr>) i) w =
    (((), snd w @ [(rq, Inr (201, ack_body))]), Inr ())"
proof -
  obtain bs where bs: "json_bytes (participant_data (pair_dealer\<lparr>ss_name := PStr n\<rparr>) i) = Inr bs"
    using pair_json [OF assms(2,3)] by blast
  have "request_path (lit ''/shares/'' @ lit ''u'') = Inr (lit ''/shares/'' @ lit ''u'')"
    by (simp add: request_path_def is_control_def lit_def)
  from ack_call [OF assms(1) this, of port certs 10 POST "Some bs" w] bs show ?thesis
    by (auto simp: send_share_def pair_uuid format_value_def doA_def)
qed

lemma ack_publish:
  "\<exists>posts s'. publish_shares (logged ack_net) pf port certs
      (zip example_peers (map (participant_data pair_dealer) [0, 1])) 0 s = (s', Inr 2) \<and>
    se_world s' = ((), snd (se_world s) @ posts) \<and> length posts = 2"
proof -
  have hosts: "connection_host (PStr (lit ''b0'')) = Inr (lit ''b0'')" "connection_host (PStr (lit ''c0'')) = Inr (lit ''c0'')"
    by (simp_all add: connection_host_def is_control_def lit_def)
  obtain rq0 where rq0: "send_share (logged ack_net) (PStr (lit ''b0'')) port certs (participant_data pair_dealer 0)
      (se_world s) = (((), snd (se_world s) @ [(rq0, Inr (201, ack_body))]), Inr ())"
    using ack_share [OF hosts(1), of 0 "lit ''n''" port certs "se_world s"] by (auto simp: pair_named example_name_ok)
  obtain rq1 where rq1: "send_share (logged ack_net) (PStr (lit ''c0'')) port certs (participant_data pair_dealer 1)
      ((), snd (se_world s) @ [(rq0, Inr (201, ack_body))]) =
      (((), (snd (se_world s) @ [(rq0, Inr (201, ack_body))]) @ [(rq1, Inr (201, ack_body))]), Inr ())"
    using ack_share [OF hosts(2), of 1 "lit ''n''" port certs "((), snd (se_world s) @ [(rq0, Inr (201, ack_body))])"]
    by (auto simp: pair_named example_name_ok)
  show ?thesis
    by (rule exI [of _ "[(rq0, Inr (201, ack_body)), (rq1, Inr (201, ack_body))]"])
       (simp add: example_peers_def example_peer_fields doA_def tryA_def worldA_def rq0 rq1 [simplified] peer_line_def echoA_def)
qed

lemma ack_record:
  "\<exists>s'. record_own_secret (logged ack_net) pf port certs (lit ''n'') (PStr (lit ''u'')) 2 2 2 s = (s', Inr ())"
proof -
  have ok: "json_ok (secret_body (PStr (lit ''u'')) 2 2)" "json_ok (PDict [(lit ''last_updated'', PStr (lit ''now''))])"
    by (simp_all add: secret_body_def dict_ok_def dec_digits.simps MAX_STR_DIGITS_def)
  obtain bs where bs: "json_bytes (secret_body (PStr (lit ''u'')) 2 2) = Inr bs" using json_bytes_total [OF ok(1)] by blast
  have body: "json_loads_bytes ack_body = Inr (PDict [(lit ''last_updated'', PStr (lit ''now''))])"
    using json_bytes_total [OF ok(2)] json_bytes_roundtrip [OF ok(2)] by (auto simp: ack_body_def)
  have "request_path (lit ''/secrets/'' @ lit ''n'') = Inr (lit ''/secrets/'' @ lit ''n'')"
    by (simp add: request_path_def is_control_def lit_def)
  from ack_call [OF localhost this, of port certs 10 POST "Some bs" "se_world s"]
  have "\<exists>w. record_secret (logged ack_net) (PStr (lit ''127.0.0.1'')) port certs (lit ''n'') (PStr (lit ''u'')) 2 2
      (se_world s) = (w, Inr (PDict [(lit ''last_updated'', PStr (lit ''now''))]))"
    using bs body by (auto simp: record_secret_def doA_def)
  then show ?thesis by (auto simp: record_own_secret_def doA_def tryA_def worldA_def echoA_def)
qed

lemma example_port: "cfg_getint x example_config (lit ''server-port'') None = Inr 59222"
  by (simp add: cfg_getint_def cfg_option_def example_config_def example_int)

theorem secret_recorded_when_saved_witness:
  "\<exists>s' posts rq answer. store_secret_cmd (logged ack_net) example_platform [7, 0, 1, 11, 0, 1] (lit ''u'') (lit ''now'') []
      (lit ''/b'') example_config (lit ''n'') (Some (lit ''a'')) None None
      \<lparr>se_world = ((), []), se_files = example_files, se_echo = [], se_input = []\<rparr> = Some (s', Inr ()) \<and>
    snd (se_world s') = posts @ [(rq, answer)] \<and> 2 \<le> acks posts \<and> acknowledged answer"
proof -
  let ?s = "\<lparr>se_world = ((), [] :: exchange_log), se_files = example_files, se_echo = [], se_input = []\<rparr>"
  have "length example_peers = 2" "example_peers \<noteq> []" "slice_to 2 example_peers = example_peers"
    by (simp_all add: example_peers_def slice_to_def)
  moreover have "shares_and_treshold 2 None None = Inr (2, 2)" by (simp add: shares_and_treshold_def Let_def)
  moreover have "ss_uuid pair_dealer = PStr (lit ''u'')" by (simp add: pair_dealer_def pair_empty_def example_empty_def)
  moreover define s1 where "s1 = ?s\<lparr>se_echo := [Out (lit ''Publishing '' @ [39] @ lit ''n'' @ [39] @ lit '' as '' @
    int_text 2 @ lit '' share(s), treshold '' @ int_text 2 @ lit ''...'')]\<rparr>"
  moreover obtain posts s2 where "publish_shares (logged ack_net) example_platform 59222 (cert_paths (lit ''/b'') example_config)
      (zip example_peers (map (participant_data pair_dealer) [0, 1])) 0 s1 = (s2, Inr 2)"
    using ack_publish by blast
  moreover obtain s3 where "record_own_secret (logged ack_net) example_platform 59222
      (cert_paths (lit ''/b'') example_config) (lit ''n'') (PStr (lit ''u'')) 2 2 2 s2 = (s3, Inr ())"
    using ack_record by blast
  ultimately have "store_secret_cmd (logged ack_net) example_platform [7, 0, 1, 11, 0, 1] (lit ''u'') (lit ''now'') []
      (lit ''/b'') example_config (lit ''n'') (Some (lit ''a'')) None None ?s = Some (s3, Inr ())"
    by (simp add: store_secret_cmd_def example_port example_own pair_init pair_create pair_participants doA_def echoA_def
        del: publish_shares.simps)
  then obtain s' where s': "store_secret_cmd (logged ack_net) example_platform [7, 0, 1, 11, 0, 1] (lit ''u'') (lit ''now'') []
      (lit ''/b'') example_config (lit ''n'') (Some (lit ''a'')) None None ?s = Some (s', Inr ())" by blast
  have "shares_and_treshold (int (length example_peers)) None None = Inr (2, 2)"
    by (simp add: shares_and_treshold_def Let_def example_peers_def)
  with secret_recorded_when_saved [OF s'] s' show ?thesis by (auto simp: example_own)
qed

section \<open>One pass over honest peers\<close>

fun is_err :: "echo \<Rightarrow> bool" where
  "is_err (Err _) = True"
| "is_err (Out _) = False"

definition reachable_set :: "'w net \<Rightarrow> ('w \<Rightarrow> bool) \<Rightarrow> int \<Rightarrow> certs \<Rightarrow> pyval \<Rightarrow> pyval set \<Rightarrow> bool" where
  "reachable_set net ok port certs uuid A \<longleftrightarrow>
     (\<forall>p \<in> A. \<forall>w. ok w \<longrightarrow> (\<exists>w' v. ask_peer net port certs uuid p w = (w', Inr v)))"

lemma honest_peer_line:
  assumes "honest_peers net ok breaks port certs u d idx nm peers" "p \<in> set peers"
  shows "\<exists>t. peer_line net stream p text s = (s\<lparr>se_echo := se_echo s @ [stream t]\<rparr>, Inr ())"
  using assms by (auto simp: honest_peers_def peer_line_def echoA_def)

lemma ask_all_honest:
  assumes "honest_peers net ok breaks port certs u d idx nm peers" "dealt secret d"
    and "set candidates \<subseteq> set peers" "distinct candidates" "set candidates \<inter> set ps = {}"
    and "collected d (map idx ps) decoder" "set ps \<subseteq> set peers" "ok (se_world s)"
  obtains (broken) s' lines where "breaks" "ask_all net pf port certs (Inr u) candidates (decoder, n) s = (s', Inl HTTPException)"
      "se_echo s' = se_echo s @ lines" "list_all is_err lines"
    | (asked) s' decoder' k qs lines where
      "ask_all net pf port certs (Inr u) candidates (decoder, n) s = (s', Inr (decoder', k))"
      "collected d (map idx (ps @ qs)) decoder'" "se_echo s' = se_echo s @ lines" "list_all is_err lines"
      "\<forall>A. reachable_set net ok port certs u A \<longrightarrow> \<not> ss_ready_to_decode decoder' \<longrightarrow> A \<inter> set candidates \<subseteq> set qs"
  using assms(3-)
proof (induction candidates arbitrary: ps decoder n s thesis)
  case Nil
  then show ?case by (intro Nil(2) [of s decoder n "[]" "[]"]) simp_all
next
  case (Cons p candidates)
  have rest: "set candidates \<subseteq> set peers" "distinct candidates" "set candidates \<inter> set ps = {}"
    "set candidates \<inter> set (ps @ [p]) = {}" "p \<in> set peers" using Cons.prems(3-5) by auto
  show ?case
  proof (cases "ss_ready_to_decode decoder")
    case True
    then show ?thesis using Cons.prems(6)
      by (intro Cons.prems(2) [of s decoder n "[]" "[]"]) simp_all
  next
    case False
    obtain w1 r where ask: "ask_peer net port certs u p (se_world s) = (w1, r)" by (rule prod.exhaust)
    note honest = honest_ask [OF assms(1) rest(5) Cons.prems(8) ask]
    show ?thesis
    proof (cases r)
      case (Inl e)
      have failure: "is_unavailable e \<or> breaks \<and> e = HTTPException"
        using honest(2) by (auto simp: Inl honest_answer_def is_unavailable_def)
      show ?thesis
      proof (cases "is_unavailable e")
        case True
        obtain t where t: "peer_line net Err p (lit '': unavailable ('' @ pf_exn_text pf e @ lit '')'') (s\<lparr>se_world := w1\<rparr>) =
            (s\<lparr>se_world := w1, se_echo := se_echo s @ [Err t]\<rparr>, Inr ())"
          using honest_peer_line [OF assms(1) rest(5), of Err _ "s\<lparr>se_world := w1\<rparr>"] by force
        let ?s = "s\<lparr>se_world := w1, se_echo := se_echo s @ [Err t]\<rparr>"
        have ok: "ok (se_world ?s)" using honest(1) by simp
        have step: "ask_all net pf port certs (Inr u) (p # candidates) (decoder, n) s =
            ask_all net pf port certs (Inr u) candidates (decoder, n) ?s"
          using False ask Inl True t by (simp add: doA_def tryA_def worldA_def)
        have gone: "p \<notin> A" if "reachable_set net ok port certs u A" for A
        proof
          assume "p \<in> A"
          with that have "\<exists>w' v. ask_peer net port certs u p (se_world s) = (w', Inr v)" using Cons.prems(8) by (simp add: reachable_set_def)
          then show False using ask Inl by simp
        qed
        show ?thesis
        proof (rule Cons.IH [OF _ _ rest(1-3) Cons.prems(6,7) ok])
          fix s' lines assume b: "breaks" "ask_all net pf port certs (Inr u) candidates (decoder, n) ?s = (s', Inl HTTPException)"
            "se_echo s' = se_echo ?s @ lines" "list_all is_err lines"
          show thesis by (rule Cons.prems(1) [OF b(1) b(2) [folded step], of "Err t # lines"]) (use b(3,4) in simp_all)
        next
          fix s' decoder' k qs lines
          assume ih: "ask_all net pf port certs (Inr u) candidates (decoder, n) ?s = (s', Inr (decoder', k))"
            "collected d (map idx (ps @ qs)) decoder'" "se_echo s' = se_echo ?s @ lines" "list_all is_err lines"
            "\<forall>A. reachable_set net ok port certs u A \<longrightarrow> \<not> ss_ready_to_decode decoder' \<longrightarrow> A \<inter> set candidates \<subseteq> set qs"
          show thesis
            by (rule Cons.prems(2) [OF ih(1) [folded step] ih(2), of "Err t # lines"]) (use ih(3-5) gone in auto)
        qed
      next
        case skipped: False
        then have "breaks" "e = HTTPException" using failure by simp_all
        then show ?thesis using skipped False ask Inl
          by (intro Cons.prems(1) [of "s\<lparr>se_world := w1\<rparr>" "[]"]) (simp_all add: doA_def tryA_def worldA_def)
      qed
    next
      case (Inr v)
      obtain decoder1 m where pop: "populate_decoder v decoder = (decoder1, Inr m)"
        "collected d (map idx (ps @ [p])) decoder1"
        using honest_share_accepted [OF assms(1,2) Cons.prems(6,7) rest(5) _ Cons.prems(8), of w1 v] ask Inr Cons.prems(5) by auto
      obtain t where t: "peer_line net Err p (lit '': OK'') (s\<lparr>se_world := w1\<rparr>) =
          (s\<lparr>se_world := w1, se_echo := se_echo s @ [Err t]\<rparr>, Inr ())"
        using honest_peer_line [OF assms(1) rest(5), of Err _ "s\<lparr>se_world := w1\<rparr>"] by force
      let ?s = "s\<lparr>se_world := w1, se_echo := se_echo s @ [Err t]\<rparr>"
      have ok: "ok (se_world ?s)" using honest(1) by simp
      have step: "ask_all net pf port certs (Inr u) (p # candidates) (decoder, n) s =
          ask_all net pf port certs (Inr u) candidates (decoder1, n + 1) ?s"
        using False ask Inr pop(1) t by (simp add: doA_def tryA_def worldA_def)
      have sub: "set (ps @ [p]) \<subseteq> set peers" using Cons.prems(7) rest(5) by simp
      show ?thesis
      proof (rule Cons.IH [OF _ _ rest(1,2,4) pop(2) sub ok])
        fix s' lines assume b: "breaks" "ask_all net pf port certs (Inr u) candidates (decoder1, n + 1) ?s = (s', Inl HTTPException)"
          "se_echo s' = se_echo ?s @ lines" "list_all is_err lines"
        show thesis by (rule Cons.prems(1) [OF b(1) b(2) [folded step], of "Err t # lines"]) (use b(3,4) in simp_all)
      next
        fix s' decoder' k qs lines
        assume ih: "ask_all net pf port certs (Inr u) candidates (decoder1, n + 1) ?s = (s', Inr (decoder', k))"
          "collected d (map idx ((ps @ [p]) @ qs)) decoder'" "se_echo s' = se_echo ?s @ lines" "list_all is_err lines"
          "\<forall>A. reachable_set net ok port certs u A \<longrightarrow> \<not> ss_ready_to_decode decoder' \<longrightarrow> A \<inter> set candidates \<subseteq> set qs"
        have coll: "collected d (map idx (ps @ p # qs)) decoder'" using ih(2) by simp
        show thesis
          by (rule Cons.prems(2) [OF ih(1) [folded step] coll, of "Err t # lines"]) (use ih(3-5) in auto)
      qed
    qed
  qed
qed

text \<open>What the two commands end with.\<close>

definition printed_or_nothing ::
  "'w session \<Rightarrow> pystr \<Rightarrow> 'w session \<times> unit py \<Rightarrow> bool" where
  "printed_or_nothing s secret result \<longleftrightarrow> (\<exists>lines. list_all is_err lines \<and>
     (case result of
        (s', Inr _) \<Rightarrow> se_echo s' = se_echo s @ lines @ [Out secret]
      | (s', Inl e) \<Rightarrow> se_echo s' = se_echo s @ lines \<and> e = ClickException))"

text \<open>A command that is ended by a broken answer has printed nothing to standard output either.\<close>

definition broken_off :: "'w session \<Rightarrow> 'w session \<times> unit py \<Rightarrow> bool" where
  "broken_off s result \<longleftrightarrow>
     (\<exists>s' lines. result = (s', Inl HTTPException) \<and> se_echo s' = se_echo s @ lines \<and> list_all is_err lines)"

lemma reconstruct_honest:
  assumes "honest_peers net ok breaks port certs u d idx nm peers" "dealt secret d" "collected d [] decoder"
    and "\<And>w xs. mset (net_shuffle net w xs) = mset xs" "ok (se_world s)"
  obtains (broken) "breaks" "broken_off s (reconstruct_and_print net pf port certs (Inr u) peers decoder s)"
    | (told) "printed_or_nothing s secret (reconstruct_and_print net pf port certs (Inr u) peers decoder s)"
      "\<And>A. \<lbrakk>reachable_set net ok port certs u A; A \<subseteq> set peers; ss_treshold d \<le> int (card A)\<rbrakk> \<Longrightarrow>
        snd (reconstruct_and_print net pf port certs (Inr u) peers decoder s) = Inr ()"
proof -
  let ?cs = "net_shuffle net (se_world s) peers"
  have cs: "set ?cs = set peers" "distinct ?cs"
    using assms(1,4) mset_eq_setD [OF assms(4)] mset_eq_imp_distinct_iff [OF assms(4)]
    by (simp_all add: honest_peers_def)
  show thesis
  proof (rule ask_all_honest [where candidates = ?cs and ps = "[]" and n = 0 and pf = pf, OF assms(1,2)])
    fix s' lines assume "breaks" "ask_all net pf port certs (Inr u) ?cs (decoder, 0) s = (s', Inl HTTPException)"
      "se_echo s' = se_echo s @ lines" "list_all is_err lines"
    then show thesis by (intro broken) (auto simp: reconstruct_and_print_def doA_def broken_off_def)
  next
    fix s' decoder' k qs lines
    assume a: "ask_all net pf port certs (Inr u) ?cs (decoder, 0) s = (s', Inr (decoder', k))"
      "collected d (map idx ([] @ qs)) decoder'" "se_echo s' = se_echo s @ lines" "list_all is_err lines"
      "\<forall>A. reachable_set net ok port certs u A \<longrightarrow> \<not> ss_ready_to_decode decoder' \<longrightarrow> A \<inter> set ?cs \<subseteq> set qs"
    have coll: "collected d (map idx qs) decoder'" using a(2) by simp
    have run: "reconstruct_and_print net pf port certs (Inr u) peers decoder s =
        (if ss_ready_to_decode decoder' then (s'\<lparr>se_echo := se_echo s' @ [Out secret]\<rparr>, Inr ()) else (s', Inl ClickException))"
      using a(1) ready_decodes [OF assms(2) coll] by (simp add: reconstruct_and_print_def doA_def echoA_def)
    have ready: "ss_ready_to_decode decoder'"
      if A: "reachable_set net ok port certs u A" "A \<subseteq> set peers" "ss_treshold d \<le> int (card A)" for A
    proof (rule ccontr)
      assume n: "\<not> ss_ready_to_decode decoder'"
      then have "A \<subseteq> set qs" using a(5) A(1,2) cs(1) by blast
      from honest_ready [OF coll this A(3)] n show False by simp
    qed
    show thesis
    proof (rule told)
      show "printed_or_nothing s secret (reconstruct_and_print net pf port certs (Inr u) peers decoder s)"
        using a(3,4) by (auto simp: run printed_or_nothing_def)
      show "snd (reconstruct_and_print net pf port certs (Inr u) peers decoder s) = Inr ()"
        if "reachable_set net ok port certs u A" "A \<subseteq> set peers" "ss_treshold d \<le> int (card A)" for A
        using ready [OF that] by (simp add: run)
    qed
  qed (use cs assms(3,5) in simp_all)
qed

text \<open>The whole command, with a record of the own server.\<close>

lemma get_secret_honest:
  assumes "cfg_getint (pf_int pf) cfg (lit ''server-port'') None = Inr port"
    and "fetch_secret_metadata net (PStr (lit ''127.0.0.1'')) port (cert_paths basedir cfg) name (se_world s) =
      (w, Inr (PDict d))"
    and "map_of d (lit ''uuid'') = Some u" "map_of d (lit ''treshold'') = Some (PInt t)"
    and "map_of d (lit ''shares_saved'') = Some (PInt n)" "2 \<le> t" "t \<le> n"
    and "own_name_and_peers basedir (se_files s) = Inr (own, peers)"
    and "dealt secret dealer" "ss_name dealer = PStr name" "ss_owner dealer = own"
    and "honest_peers net ok breaks port (cert_paths basedir cfg) u dealer idx nm peers"
    and "\<And>w xs. mset (net_shuffle net w xs) = mset xs" "ok w"
  shows "breaks \<and> broken_off s (get_secret_cmd net pf uuid4 basedir cfg name s) \<or>
    printed_or_nothing s secret (get_secret_cmd net pf uuid4 basedir cfg name s) \<and>
    (\<forall>A. reachable_set net ok port (cert_paths basedir cfg) u A \<longrightarrow> A \<subseteq> set peers \<longrightarrow>
       ss_treshold dealer \<le> int (card A) \<longrightarrow> snd (get_secret_cmd net pf uuid4 basedir cfg name s) = Inr ())"
proof -
  let ?s = "s\<lparr>se_world := w\<rparr>"
  obtain decoder where dec: "shamir_new (PStr name) own (Some n) (Some t) uuid4 = Inr decoder"
    using shamir_new_valid [OF assms(6,7)] by blast
  have coll: "collected dealer [] decoder" by (rule shamir_new_collected [OF dec assms(9,10,11)])
  have run: "get_secret_cmd net pf uuid4 basedir cfg name s =
      reconstruct_and_print net pf port (cert_paths basedir cfg) (Inr u) peers decoder ?s"
    using assms(1-5,8) dec by (simp add: get_secret_cmd_def doA_def tryA_def worldA_def)
  have echo: "se_echo ?s = se_echo s" by simp
  have same: "printed_or_nothing s secret x \<longleftrightarrow> printed_or_nothing ?s secret x" "broken_off s x \<longleftrightarrow> broken_off ?s x" for x
    unfolding printed_or_nothing_def broken_off_def echo by (rule refl)+
  have ok: "ok (se_world ?s)" using assms(14) by simp
  show ?thesis unfolding run same
    by (rule reconstruct_honest [where pf = pf, OF assms(12,9) coll assms(13) ok]) blast+
qed

text \<open>
  C7: \<open>get-secret\<close> prints the secret or nothing. The own server gave the record of the secret, and all hosts
  that are asked are honest, but may be down or answer with any other status than 200. Then standard output
  gets exactly the secret, or the command ends with an error of \<open>click\<close> and standard output gets nothing; it is
  the secret whenever a treshold of hosts can be reached. If hosts may also break off their answers, the
  command may be ended by the \<open>HTTPException\<close>; standard output gets nothing then either. What is told about
  the hosts goes to standard error.
\<close>

theorem get_secret_prints:
  assumes "cfg_getint (pf_int pf) cfg (lit ''server-port'') None = Inr port"
    and "fetch_secret_metadata net (PStr (lit ''127.0.0.1'')) port (cert_paths basedir cfg) name (se_world s) =
      (w, Inr (PDict d))"
    and "map_of d (lit ''uuid'') = Some u" "map_of d (lit ''treshold'') = Some (PInt t)"
    and "map_of d (lit ''shares_saved'') = Some (PInt n)" "2 \<le> t" "t \<le> n"
    and "own_name_and_peers basedir (se_files s) = Inr (own, peers)"
    and "dealt secret dealer" "ss_name dealer = PStr name" "ss_owner dealer = own"
    and "honest_hosts net ok breaks port (cert_paths basedir cfg) u dealer addr idx nm peers"
    and "\<And>w xs. mset (net_shuffle net w xs) = mset xs" "ok w"
  shows "breaks \<and> broken_off s (get_secret_cmd net pf uuid4 basedir cfg name s) \<or>
    printed_or_nothing s secret (get_secret_cmd net pf uuid4 basedir cfg name s) \<and>
    (\<forall>A. reachable_set net ok port (cert_paths basedir cfg) u A \<longrightarrow> A \<subseteq> set peers \<longrightarrow>
       ss_treshold dealer \<le> int (card A) \<longrightarrow> snd (get_secret_cmd net pf uuid4 basedir cfg name s) = Inr ())"
  by (rule get_secret_honest [OF assms(1-11) honest_hosts_peers [OF assms(12)] assms(13-)])

text \<open>A network that is up: alice's own server knows the record, her peers hold the shares.\<close>

definition record_body :: "byte list" where
  "record_body = (case json_bytes (secret_body (PStr (lit ''u'')) 2 3) of Inr bs \<Rightarrow> bs | Inl _ \<Rightarrow> [])"

definition up_net :: "unit net" where
  "up_net = \<lparr>net_certs = (\<lambda>_ _. Inr ()),
     net_exchange = (\<lambda>rq w. (w, Inr (200, if hq_address rq = lit ''127.0.0.1'' then record_body
        else share_body (if hq_address rq = lit ''b0'' then 0 else 1)))),
     net_sleep = (\<lambda>_ w. w), net_shuffle = (\<lambda>_. rev), net_format = (\<lambda>_. [])\<rparr>"

lemma up_net_simps:
  "net_certs up_net c w = Inr ()" "net_shuffle up_net w xs = rev xs"
  "net_exchange up_net rq w = (w, Inr (200, if hq_address rq = lit ''127.0.0.1'' then record_body
        else share_body (if hq_address rq = lit ''b0'' then 0 else 1)))"
  by (simp_all add: up_net_def)

lemma up_ask:
  assumes "c \<in> {CHR ''b'', CHR ''c''}"
  shows "ask_peer up_net port certs (PStr (lit ''u'')) (named_record (lit n) (example_record [c, ''0'' ! 0] st)) w =
    (w, Inr (detuple (participant_data example_dealer (if c = CHR ''b'' then 0 else 1))))"
proof -
  have host: "connection_host (PStr (lit [c, ''0'' ! 0])) = Inr (lit [c, ''0'' ! 0])"
    using assms by (auto simp: connection_host_def is_control_def lit_def)
  have "request_path (lit ''/shares/'' @ lit ''u'') = Inr (lit ''/shares/u'')"
    by (simp add: request_path_def is_control_def lit_def)
  with host assms show ?thesis
    by (auto simp: ask_peer_def example_peer_fields retrieve_share_def http_call_def connect_def doA_def
        format_value_def up_net_simps example_body)
qed

lemma up_honest:
  "honest_hosts up_net (\<lambda>_. True) breaks 59222 certs (PStr (lit ''u'')) example_dealer example_address example_index
    example_name example_peers"
  by (rule example_hosts_honest)
     (auto simp: format_value_def up_net_simps honest_response_def example_body example_counts lit_def)

lemma up_reachable: "reachable_set up_net (\<lambda>_. True) 59222 certs (PStr (lit ''u'')) (set example_peers)"
  using up_ask [of "CHR ''b''"] up_ask [of "CHR ''c''"] by (auto simp: reachable_set_def example_peers_def)

lemma up_metadata:
  "fetch_secret_metadata up_net (PStr (lit ''127.0.0.1'')) 59222 certs (lit ''n'') w =
    (w, Inr (secret_body (PStr (lit ''u'')) 2 3))"
proof -
  have ok: "json_ok (secret_body (PStr (lit ''u'')) 2 3)"
    by (simp add: secret_body_def dict_ok_def dec_digits.simps MAX_STR_DIGITS_def)
  obtain bs where "json_bytes (secret_body (PStr (lit ''u'')) 2 3) = Inr bs" using json_bytes_total [OF ok] by blast
  with json_bytes_roundtrip [OF ok] have "json_loads_bytes record_body = Inr (secret_body (PStr (lit ''u'')) 2 3)"
    by (simp add: record_body_def) (simp add: secret_body_def)
  moreover have "request_path (lit ''/secrets/'' @ lit ''n'') = Inr (lit ''/secrets/n'')"
    by (simp add: request_path_def is_control_def lit_def)
  ultimately show ?thesis
    by (simp add: fetch_secret_metadata_def http_call_def connect_def doA_def localhost up_net_simps)
qed

theorem get_secret_prints_witness:
  "\<exists>s' lines. get_secret_cmd up_net example_platform [] (lit ''/b'') example_config (lit ''n'')
      \<lparr>se_world = (), se_files = example_files, se_echo = [], se_input = []\<rparr> = (s', Inr ()) \<and>
    list_all is_err lines \<and> se_echo s' = lines @ [Out (lit ''a'')]"
proof -
  let ?s = "\<lparr>se_world = (), se_files = example_files, se_echo = [], se_input = []\<rparr>"
  let ?r = "get_secret_cmd up_net example_platform [] (lit ''/b'') example_config (lit ''n'') ?s"
  have meta: "fetch_secret_metadata up_net (PStr (lit ''127.0.0.1'')) 59222 (cert_paths (lit ''/b'') example_config)
      (lit ''n'') (se_world ?s) = ((), Inr (PDict [(lit ''uuid'', PStr (lit ''u'')), (lit ''treshold'', PInt 2),
        (lit ''shares_saved'', PInt 3)]))"
    by (simp add: up_metadata secret_body_def)
  have own: "own_name_and_peers (lit ''/b'') (se_files ?s) = Inr (PStr (lit ''alice''), example_peers)"
    by (simp add: example_own)
  have names: "ss_name example_dealer = PStr (lit ''n'')" "ss_owner example_dealer = PStr (lit ''alice'')"
    by (simp_all add: example_dealer_def example_empty_def)
  have "False \<and> broken_off ?s ?r \<or> printed_or_nothing ?s (lit ''a'') ?r \<and>
    (\<forall>A. reachable_set up_net (\<lambda>_. True) 59222 (cert_paths (lit ''/b'') example_config) (PStr (lit ''u'')) A \<longrightarrow>
       A \<subseteq> set example_peers \<longrightarrow> ss_treshold example_dealer \<le> int (card A) \<longrightarrow> snd ?r = Inr ())"
    by (rule get_secret_prints [OF example_port meta _ _ _ _ _ own example_dealt names up_honest _ TrueI, where t = 2 and n = 3])
       (simp_all add: up_net_simps)
  moreover have "ss_treshold example_dealer \<le> int (card (set example_peers))" by (simp add: example_two example_counts)
  ultimately have "printed_or_nothing ?s (lit ''a'') ?r \<and> snd ?r = Inr ()" using up_reachable by blast
  then show ?thesis
    by (cases ?r) (auto simp: printed_or_nothing_def)
qed

text \<open>The same of \<open>get-key1\<close>, with the metadata of the configuration.\<close>

lemma get_key1_prints:
  assumes "boots_from pf basedir cfg (se_files s) dealer uuid port peers" "dealt key1 dealer"
    and "honest_peers net ok breaks port (cert_paths basedir cfg) (PStr uuid) dealer idx nm peers"
    and "\<And>w xs. mset (net_shuffle net w xs) = mset xs" "ok (se_world s)"
  shows "breaks \<and> broken_off s (get_key1_cmd net pf uuid4 basedir cfg s) \<or>
    printed_or_nothing s key1 (get_key1_cmd net pf uuid4 basedir cfg s)"
proof -
  obtain opts name t n own where b: "cfg = Some opts"
    "key1_metadata (pf_int pf) Key1ReconstructionError opts = Inr (name, uuid, Some t, Some n)"
    "2 \<le> t" "t \<le> n" "own_name_and_peers basedir (se_files s) = Inr (own, peers)"
    "cfg_getint (pf_int pf) cfg (lit ''server-port'') None = Inr port"
    "ss_name dealer = PStr name" "ss_owner dealer = own"
    using assms(1) unfolding boots_from_def by blast
  have meta: "key1_metadata (pf_int pf) ClickException opts = Inr (name, uuid, Some t, Some n)"
    using b(2) unfolding key1_metadata_def
    by (cases "section_item opts (lit ''key1-name'')"; cases "section_item opts (lit ''key1-uuid'')";
        cases "section_getint (pf_int pf) opts (lit ''key1-treshold'')";
        cases "section_getint (pf_int pf) opts (lit ''key1-shares'')") (auto split: if_splits)
  obtain decoder where dec: "shamir_new (PStr name) own (Some n) (Some t) uuid4 = Inr decoder"
    using shamir_new_valid [OF b(3,4)] by blast
  have coll: "collected dealer [] decoder" by (rule shamir_new_collected [OF dec assms(2) b(7,8)])
  have run: "get_key1_cmd net pf uuid4 basedir cfg s =
      reconstruct_and_print net pf port (cert_paths basedir cfg) (Inr (PStr uuid)) peers decoder s"
    using b meta dec by (simp add: get_key1_cmd_def doA_def)
  show ?thesis unfolding run by (rule reconstruct_honest [where pf = pf, OF assms(3,2) coll assms(4,5)]) blast+
qed

end
