(* ===== verification/SetupProperties.thy ===== *)
theory SetupProperties
  imports Setup ClientProperties
begin

text \<open>
  The properties of the interactive bootstrap: archiving old data loses nothing, the list of hosts is
  large enough, KEY1 goes to every other host or the program stops, and waiting for the hosts ends.
\<close>

section \<open>Archiving\<close>

definition archive_name :: "path \<Rightarrow> pystr \<Rightarrow> nat \<Rightarrow> path" where
  "archive_name path tag counter =
     path @ lit ''.old.'' @ tag @ (if counter = 0 then [] else lit ''-'' @ dec_digits counter)"

lemma archive_name_inj: "inj (archive_name path tag)"
proof (rule injI)
  fix i j assume "archive_name path tag i = archive_name path tag j"
  then have "(if i = 0 then [] else lit ''-'' @ dec_digits i) = (if j = 0 then [] else lit ''-'' @ dec_digits j)"
    by (simp add: archive_name_def)
  then have "i = 0 \<and> j = 0 \<or> dec_digits i = dec_digits j" by (auto split: if_splits)
  moreover have "dec_digits i = dec_digits j \<Longrightarrow> i = j" by (metis dec_value_digits)
  ultimately show "i = j" by blast
qed

lemma archive_candidate_free:
  assumes "finite (dom fs)"
  shows "\<exists>k. archive_candidate fs path tag n = Some (archive_name path tag k) \<and> fs (archive_name path tag k) = None"
proof -
  have "infinite (archive_name path tag ` {n..})"
    using finite_imageD [of "archive_name path tag" "{n..}"] archive_name_inj infinite_Ici by (metis inj_on_subset subset_UNIV)
  then have "\<not> archive_name path tag ` {n..} \<subseteq> dom fs" using assms finite_subset by blast
  then obtain m where m: "n \<le> m" "fs (archive_name path tag m) = None" by auto
  from m(1) show ?thesis
  proof (induction "m - n" arbitrary: n)
    case 0
    then have "n = m" by simp
    then show ?case using m(2)
      by (subst archive_candidate.simps) (auto simp: archive_name_def path_exists_def Let_def intro!: exI [of _ m])
  next
    case (Suc i)
    then have rec: "\<exists>k. archive_candidate fs path tag (Suc n) = Some (archive_name path tag k) \<and>
        fs (archive_name path tag k) = None" by simp
    show ?case
    proof (cases "fs (archive_name path tag n)")
      case None
      then show ?thesis
        by (subst archive_candidate.simps) (auto simp: archive_name_def path_exists_def Let_def intro!: exI [of _ n])
    next
      case (Some bs)
      then have "archive_candidate fs path tag n = archive_candidate fs path tag (Suc n)"
        by (subst archive_candidate.simps) (simp add: archive_name_def path_exists_def Let_def)
      then show ?thesis using rec by simp
    qed
  qed
qed

lemma archive_path_free:
  assumes "finite (dom fs)"
  obtains k where "archive_path fs path tag = Some (archive_name path tag k)" "fs (archive_name path tag k) = None"
  using archive_candidate_free [OF assms] that unfolding archive_path_def by blast

text \<open>No name of a data file is an archived name of another one.\<close>

lemma data_names:
  assumes "name \<in> set DATA_FILENAMES" "name' \<in> set DATA_FILENAMES"
  shows "take 1 name \<noteq> lit ''/''" "archive_name (path_join dir name) tag k \<noteq> path_join dir name'"
proof -
  have rel: "take 1 n \<noteq> lit ''/''" "length n \<le> 11" "4 \<le> length n" "take 4 (drop (length n - 4) n) \<noteq> lit ''.old''"
    if "n \<in> set DATA_FILENAMES" for n
    using that by (auto simp: DATA_FILENAMES_def HOSTS_FILENAME_def HOSTS_PLAINTEXT_FILENAME_def SITES_FILENAME_def
        SITES_PLAINTEXT_FILENAME_def SECRETS_FILENAME_def lit_def)
  show "take 1 name \<noteq> lit ''/''" by (rule rel(1) [OF assms(1)])
  have join: "\<exists>pre. \<forall>n. take 1 n \<noteq> lit ''/'' \<longrightarrow> path_join dir n = pre @ n"
    by (cases "dir = [] \<or> last dir = 47") (auto simp: path_join_def intro: exI [of _ "dir"] exI [of _ "dir @ lit ''/''"])
  then obtain pre where pre: "path_join dir name = pre @ name" "path_join dir name' = pre @ name'"
    using rel(1) assms by blast
  have "\<not> prefix (name @ lit ''.old.'') name'"
    using assms by (auto simp: DATA_FILENAMES_def HOSTS_FILENAME_def HOSTS_PLAINTEXT_FILENAME_def SITES_FILENAME_def
        SITES_PLAINTEXT_FILENAME_def SECRETS_FILENAME_def lit_def)
  then show "archive_name (path_join dir name) tag k \<noteq> path_join dir name'"
    unfolding pre archive_name_def by (auto simp: prefix_def)
qed

lemma archive_loop:
  assumes "finite (dom (se_files s))" "distinct names" "set names \<subseteq> set DATA_FILENAMES"
    and "\<forall>name \<in> set names. se_files s (path_join dir name) \<noteq> None"
  shows "\<exists>s' f. archive_existing_files dir tag names s = Some (s', Inr ()) \<and> inj_on f (set names) \<and>
    (\<forall>name \<in> set names. (\<exists>k. f name = archive_name (path_join dir name) tag k) \<and> se_files s (f name) = None \<and>
       se_files s' (f name) = se_files s (path_join dir name) \<and> se_files s' (path_join dir name) = None) \<and>
    (\<forall>p. p \<notin> path_join dir ` set names \<union> f ` set names \<longrightarrow> se_files s' p = se_files s p)"
  using assms
proof (induction names arbitrary: s)
  case (Cons name names)
  let ?p = "path_join dir name"
  obtain k where k: "archive_path (se_files s) ?p tag = Some (archive_name ?p tag k)"
    "se_files s (archive_name ?p tag k) = None" by (rule archive_path_free [OF Cons.prems(1)])
  let ?a = "archive_name ?p tag k"
  obtain bs where bs: "se_files s ?p = Some bs" using Cons.prems(4) by auto
  let ?fs = "(se_files s)(?p := None, ?a := Some bs)"
  let ?s = "s\<lparr>se_files := ?fs, se_echo := se_echo s @ [Out (lit ''renamed '' @ name @ lit '' -> '' @ basename ?a)]\<rparr>"
  have step: "archive_existing_files dir tag (name # names) s = archive_existing_files dir tag names ?s"
    using k bs by (simp add: Let_def doP_def doA_def filesA_def echoA_def rename_def)
  have ne: "path_join dir n \<noteq> ?p \<and> path_join dir n \<noteq> ?a" if "n \<in> set names" for n
  proof -
    have "n \<in> set DATA_FILENAMES" "name \<in> set DATA_FILENAMES" "n \<noteq> name" using that Cons.prems(2,3) by auto
    then show ?thesis
      using data_names(1) [of name n] data_names(1) [of n n] data_names(2) [of name n dir tag k] path_join_inj [of dir n name]
      by metis
  qed
  have "finite (dom (se_files ?s))"
    by (rule finite_subset [of _ "insert ?a (dom (se_files s))"]) (use Cons.prems(1) in auto)
  moreover have "\<forall>n \<in> set names. se_files ?s (path_join dir n) \<noteq> None" using ne Cons.prems(4) by auto
  moreover have "distinct names" "set names \<subseteq> set DATA_FILENAMES" using Cons.prems(2,3) by auto
  ultimately obtain s' f where ih: "archive_existing_files dir tag names ?s = Some (s', Inr ())" "inj_on f (set names)"
    "\<forall>n \<in> set names. (\<exists>k. f n = archive_name (path_join dir n) tag k) \<and> se_files ?s (f n) = None \<and>
       se_files s' (f n) = se_files ?s (path_join dir n) \<and> se_files s' (path_join dir n) = None"
    "\<forall>p. p \<notin> path_join dir ` set names \<union> f ` set names \<longrightarrow> se_files s' p = se_files ?s p"
    using Cons.IH [of ?s] by blast
  let ?f = "f(name := ?a)"
  have fresh: "f n \<noteq> ?a \<and> f n \<noteq> ?p" if "n \<in> set names" for n
  proof -
    note facts = bspec [OF ih(3) that]
    have "se_files ?s (f n) = None" by (rule facts [THEN conjunct2, THEN conjunct1])
    then have "f n \<noteq> ?a" by auto
    moreover obtain j where j: "f n = archive_name (path_join dir n) tag j" using facts [THEN conjunct1] ..
    have "n \<in> set DATA_FILENAMES" "name \<in> set DATA_FILENAMES" using Cons.prems(3) that by auto
    from data_names(2) [OF this, of dir tag j] have "f n \<noteq> ?p" unfolding j .
    ultimately show ?thesis by blast
  qed
  have name: "name \<notin> set names" using Cons.prems(2) by simp
  have a: "?a \<notin> path_join dir ` set names \<union> f ` set names" "?p \<notin> path_join dir ` set names \<union> f ` set names"
    by (auto dest: ne fresh dest: sym)
  have inj: "inj_on ?f (set (name # names))"
    using ih(2) a(1) name by (auto simp: inj_on_def image_iff)
  have pa: "?p \<noteq> ?a" using bs k(2) by (metis option.distinct(1))
  have "se_files s' ?a = Some bs" "se_files s' ?p = None"
    using ih(4) [rule_format, OF a(1)] ih(4) [rule_format, OF a(2)] pa by simp_all
  moreover have "(\<exists>k. f n = archive_name (path_join dir n) tag k) \<and> se_files s (f n) = None \<and>
       se_files s' (f n) = se_files s (path_join dir n) \<and> se_files s' (path_join dir n) = None" if "n \<in> set names" for n
    using bspec [OF ih(3) that] ne [OF that] fresh [OF that] by simp
  ultimately have moved: "\<forall>n \<in> set (name # names). (\<exists>k. ?f n = archive_name (path_join dir n) tag k) \<and>
       se_files s (?f n) = None \<and> se_files s' (?f n) = se_files s (path_join dir n) \<and>
       se_files s' (path_join dir n) = None"
    using k(2) bs by auto
  have rest: "\<forall>p. p \<notin> path_join dir ` set (name # names) \<union> ?f ` set (name # names) \<longrightarrow> se_files s' p = se_files s p"
  proof (intro allI impI)
    fix p assume p: "p \<notin> path_join dir ` set (name # names) \<union> ?f ` set (name # names)"
    then have "p \<noteq> ?p" "p \<noteq> ?a" by auto
    moreover have "p \<notin> path_join dir ` set names \<union> f ` set names" using p name by (auto simp: image_iff)
    ultimately show "se_files s' p = se_files s p" using ih(4) by simp
  qed
  show ?case unfolding step ih(1) using inj moved rest by blast
qed simp

text \<open>
  C15: the destructive reset loses nothing. Whatever data files there are, archiving ends, and each of
  them is afterwards under a new name that was free before, with its content; no two share a name, and
  no other file has changed. (The counter in the names ends because there are finitely many files.)
\<close>

theorem archive_keeps_everything:
  assumes "finite (dom (se_files s))"
  shows "\<exists>s' f. archive_existing_files dir tag (existing_data_files dir (se_files s)) s = Some (s', Inr ()) \<and>
    inj_on f (set (existing_data_files dir (se_files s))) \<and>
    (\<forall>name \<in> set (existing_data_files dir (se_files s)).
       (\<exists>k. f name = archive_name (path_join dir name) tag k) \<and>
       se_files s (f name) = None \<and> se_files s' (f name) = se_files s (path_join dir name) \<and>
       se_files s' (path_join dir name) = None) \<and>
    (\<forall>p. p \<notin> path_join dir ` set (existing_data_files dir (se_files s)) \<union>
          f ` set (existing_data_files dir (se_files s)) \<longrightarrow> se_files s' p = se_files s p)"
proof -
  have "distinct DATA_FILENAMES"
    by (simp add: DATA_FILENAMES_def HOSTS_FILENAME_def HOSTS_PLAINTEXT_FILENAME_def SITES_FILENAME_def
        SITES_PLAINTEXT_FILENAME_def SECRETS_FILENAME_def)
  then have "distinct (existing_data_files dir (se_files s))"
    "set (existing_data_files dir (se_files s)) \<subseteq> set DATA_FILENAMES"
    "\<forall>name \<in> set (existing_data_files dir (se_files s)). se_files s (path_join dir name) \<noteq> None"
    by (auto simp: existing_data_files_def path_exists_def)
  from archive_loop [OF assms this] show ?thesis .
qed

theorem archive_keeps_everything_witness:
  "\<exists>s' f. archive_existing_files (lit ''/d'') (lit ''t'') [HOSTS_FILENAME]
      \<lparr>se_world = (), se_files = [lit ''/d/hosts.dta'' \<mapsto> [7]], se_echo = [], se_input = []\<rparr> = Some (s', Inr ()) \<and>
    se_files s' (f HOSTS_FILENAME) = Some [7] \<and> se_files s' (lit ''/d/hosts.dta'') = None"
proof -
  let ?s = "\<lparr>se_world = (), se_files = [lit ''/d/hosts.dta'' \<mapsto> [7 :: byte]], se_echo = [], se_input = []\<rparr>"
  have names: "existing_data_files (lit ''/d'') (se_files ?s) = [HOSTS_FILENAME]"
    by (simp add: existing_data_files_def DATA_FILENAMES_def HOSTS_FILENAME_def HOSTS_PLAINTEXT_FILENAME_def
        SITES_FILENAME_def SITES_PLAINTEXT_FILENAME_def SECRETS_FILENAME_def path_exists_def path_join_def lit_def)
  have path: "path_join (lit ''/d'') HOSTS_FILENAME = lit ''/d/hosts.dta''"
    by (simp add: path_join_def HOSTS_FILENAME_def lit_def)
  from archive_keeps_everything [of ?s "lit ''/d''" "lit ''t''"]
  show ?thesis unfolding names by (auto simp: path)
qed

section \<open>The list of hosts\<close>

lemma split_on_parts: "a \<in> set (split_on c s) \<Longrightarrow> c \<notin> set a"
proof (induction s arbitrary: a)
  case (Cons x s)
  then show ?case by (auto split: if_splits list.splits)
qed simp

lemma set_str_strip: "set (str_strip s) \<subseteq> set s"
proof -
  have "set (dropWhile is_space (rev (dropWhile is_space s))) \<subseteq> set (rev (dropWhile is_space s))"
    by (rule set_dropWhileD [THEN subsetI])
  also have "\<dots> \<subseteq> set s" using set_dropWhileD by fastforce
  finally show ?thesis by (simp add: str_strip_def)
qed

definition host_ok :: "setup_host \<Rightarrow> bool" where
  "host_ok h \<longleftrightarrow> sh_name h \<noteq> [] \<and> sh_addresses h \<noteq> [] \<and> (\<forall>a \<in> set (sh_addresses h). a \<noteq> [] \<and> 44 \<notin> set a)"

lemma addresses_of_ok: "a \<in> set (addresses_of raw) \<Longrightarrow> a \<noteq> [] \<and> 44 \<notin> set a"
  using split_on_parts set_str_strip by (fastforce simp: addresses_of_def)

lemma prompt_addresses_ok:
  "prompt_addresses input = (rest, es, Inr addresses) \<Longrightarrow> addresses \<noteq> [] \<and> (\<forall>a \<in> set addresses. a \<noteq> [] \<and> 44 \<notin> set a)"
proof (induction input arbitrary: rest es)
  case (Cons raw input)
  then show ?case
    using addresses_of_ok by (auto split: if_splits prod.splits)
qed simp

lemma prompt_host_ok: "prompt_host input = (rest, es, Inr (Some h)) \<Longrightarrow> host_ok h"
  using prompt_addresses_ok
  by (cases input) (fastforce simp: host_ok_def split: if_splits prod.splits sum.splits)+

lemma collect_loop_ok:
  assumes "collect_loop hosts input = (rest, es, Inr hosts')" "list_all host_ok hosts"
  shows "minimum_met hosts' \<and> list_all host_ok hosts'"
  using assms
proof (induction hosts input arbitrary: rest es rule: collect_loop.induct)
  case (1 hosts input)
  obtain rest1 es1 r where p: "prompt_host input = (rest1, es1, r)" by (rule prod_cases3)
  show ?case
  proof (cases r)
    case (Inl e)
    then show ?thesis using "1.prems"(1) p by (simp add: collect_loop.simps [of hosts input])
  next
    case (Inr ho)
    show ?thesis
    proof (cases ho)
      case None
      show ?thesis
      proof (cases "minimum_met hosts \<and> hosts \<noteq> []")
        case True
        then show ?thesis using "1.prems" p Inr None by (simp add: collect_loop.simps [of hosts input])
      next
        case False
        obtain rest2 es2 r2 where q: "collect_loop hosts rest1 = (rest2, es2, r2)" by (rule prod_cases3)
        then have "r2 = Inr hosts'"
          using "1.prems"(1) p Inr None False by (auto simp: collect_loop.simps [of hosts input])
        with "1.IH"(1) [of rest1 _ es1 r ho, OF p [symmetric] _ Inr None False, of rest2 es2] q "1.prems"(2) show ?thesis by simp
      qed
    next
      case (Some h)
      obtain rest2 es2 r2 where q: "collect_loop (hosts @ [h]) rest1 = (rest2, es2, r2)" by (rule prod_cases3)
      then have "r2 = Inr hosts'" using "1.prems"(1) p Inr Some by (auto simp: collect_loop.simps [of hosts input])
      moreover have "host_ok h" using prompt_host_ok p Inr Some by blast
      ultimately show ?thesis
        using "1.IH"(2) [of rest1 _ es1 r ho h, OF p [symmetric] _ Inr Some, of rest2 es2] q "1.prems"(2) by simp
    qed
  qed
qed

text \<open>
  C16: the list of hosts is large enough for the bootstrap. Whatever the operator types, the collection
  ends with the input; a list that it returns has three servers, a controller, and for every host a
  name and addresses that are not empty; and if no two hosts have the same name, then for every own
  name there are at least three other hosts and the counts for KEY1 are ones that the constructor of
  \<open>ShamirSecret\<close> accepts.
\<close>

theorem collected_hosts_suffice:
  assumes "collect_hosts input = (rest, es, Inr hosts)"
  shows "3 \<le> fst (tally hosts) \<and> 1 \<le> snd (tally hosts) \<and> list_all host_ok hosts \<and>
    (distinct (map sh_name hosts) \<longrightarrow> 3 \<le> length (other_hosts hosts own) \<and>
       (case key1_shares_and_treshold (other_hosts hosts own) of (shares, treshold) \<Rightarrow>
          2 \<le> treshold \<and> treshold \<le> shares \<and> (\<exists>s. shamir_init name own shares treshold uuid4 = Inr s)))"
proof -
  obtain rest' es' r where "collect_loop [] input = (rest', es', r)" by (rule prod_cases3)
  then have loop: "collect_loop [] input = (rest', es', Inr hosts)" using assms by (auto simp: collect_hosts_def)
  from collect_loop_ok [OF this] have ok: "minimum_met hosts" "list_all host_ok hosts" by simp_all
  have roles: "3 \<le> fst (tally hosts)" "1 \<le> snd (tally hosts)"
    using ok(1) by (simp_all add: minimum_met_def MIN_SERVERS_def MIN_CONTROLLERS_def)
  have "3 \<le> length (other_hosts hosts own)" if "distinct (map sh_name hosts)"
  proof -
    have "fst (tally hosts) + snd (tally hosts) \<le> length hosts"
      by (induction hosts) (auto simp: tally_def)
    with roles have "4 \<le> length hosts" by linarith
    moreover have "length (filter (\<lambda>h. sh_name h = own) hosts) \<le> 1" using that
      by (induction hosts) (auto simp: filter_empty_conv image_iff)
    moreover have "length (filter (\<lambda>h. sh_name h = own) hosts) + length (other_hosts hosts own) = length hosts"
      by (simp add: other_hosts_def sum_length_filter_compl)
    ultimately show ?thesis by linarith
  qed
  moreover have "2 \<le> t \<and> t \<le> n \<and> (\<exists>s. shamir_init name own n t uuid4 = Inr s)"
    if "3 \<le> length xs" "key1_shares_and_treshold xs = (n, t)" for xs :: "setup_host list" and n t
  proof -
    have "n = int (length xs)" "t = n div 2 + 1" using that(2) by (auto simp: key1_shares_and_treshold_def Let_def)
    then have "2 \<le> t" "t \<le> n" using that(1) by auto
    then show ?thesis by (simp add: shamir_init_def)
  qed
  ultimately show ?thesis using roles ok(2) by (auto split: prod.split)
qed

theorem collected_hosts_suffice_witness:
  "\<exists>rest es hosts. collect_hosts (concat (map (\<lambda>(n, role). [lit n, lit ''10.0.0.1'', lit role])
      [(''a'', ''server''), (''b'', ''server''), (''c'', ''server''), (''d'', ''controller'')]) @ [[]]) = (rest, es, Inr hosts) \<and>
    3 \<le> length (other_hosts hosts (lit ''a''))"
proof -
  let ?h = "\<lambda>(n, role). \<lparr>sh_name = lit n, sh_addresses = [lit ''10.0.0.1''], sh_role = lit role\<rparr>"
  let ?in = "[(''a'', ''server''), (''b'', ''server''), (''c'', ''server''), (''d'', ''controller'')]"
  let ?hosts = "map ?h ?in"
  have addr: "addresses_of (lit ''10.0.0.1'') = [lit ''10.0.0.1'']"
    by (simp add: addresses_of_def str_strip_def is_space_def lit_def)
  have step: "collect_loop hosts ([lit n, lit ''10.0.0.1'', lit role] @ input) =
      (case collect_loop (hosts @ [?h (n, role)]) input of (rest, es, r) \<Rightarrow> (rest, tally_line hosts # es, r))"
    if "n \<noteq> []" for hosts n role input
    using that by (subst collect_loop.simps) (simp add: addr)
  have last: "collect_loop ?hosts [[]] = ([], [tally_line ?hosts], Inr ?hosts)"
    by (subst collect_loop.simps) (simp add: minimum_met_def tally_def MIN_SERVERS_def MIN_CONTROLLERS_def)
  have "\<exists>es. collect_hosts (concat (map (\<lambda>(n, role). [lit n, lit ''10.0.0.1'', lit role]) ?in) @ [[]]) = ([], es, Inr ?hosts)"
    using step [where n = "''a''"] step [where n = "''b''"] step [where n = "''c''"] step [where n = "''d''"] last
    by (simp add: collect_hosts_def)
  then obtain es where es: "collect_hosts (concat (map (\<lambda>(n, role). [lit n, lit ''10.0.0.1'', lit role]) ?in) @ [[]])
      = ([], es, Inr ?hosts)" by blast
  have "distinct (map sh_name ?hosts)" by simp
  with collected_hosts_suffice [OF es] have "3 \<le> length (other_hosts ?hosts (lit ''a''))" by blast
  with es show ?thesis by blast
qed

section \<open>Publishing KEY1\<close>

text \<open>A collected host as the peer that a share is sent to.\<close>

definition peer_of :: "setup_host \<Rightarrow> pyval" where
  "peer_of h = PDict (case sh_addresses h of [] \<Rightarrow> [] | a # _ \<Rightarrow> [(lit ''address'', PStr a)])"

lemma first_address_peer: "first_address h = Inr a \<Longrightarrow> py_subscript (peer_of h) (lit ''address'') = Inr (PStr a)"
  by (auto simp: first_address_def peer_of_def split: list.splits)

lemma publish_all_log:
  assumes "publish_all (logged net) pf port certs pairs s = (s', r)"
  shows "\<exists>posts. snd (se_world s') = snd (se_world s) @ posts \<and> length posts \<le> length pairs \<and>
    list_all2 (\<lambda>(host, share) (rq, answer). share_request net port certs (peer_of host, share) rq)
      (take (length posts) pairs) posts \<and>
    list_all (\<lambda>(rq, answer). acknowledged answer) (butlast posts) \<and>
    (r = Inr () \<longrightarrow> length posts = length pairs \<and> list_all (\<lambda>(rq, answer). acknowledged answer) posts)"
  using assms
proof (induction pairs arbitrary: s)
  case (Cons p pairs)
  obtain host share where p: "p = (host, share)" by (rule prod.exhaust)
  show ?case
  proof (cases "first_address host")
    case (Inl e)
    then have "s' = s" "r = Inl e" using Cons.prems p by simp_all
    then show ?thesis by (intro exI [of _ "[]"]) simp
  next
    case (Inr a)
    obtain w1 r1 where send: "send_share (logged net) (PStr a) port certs share (se_world s) = (w1, r1)"
      by (rule prod.exhaust)
    have step: "(\<exists>e. r1 = Inl e \<and> w1 = se_world s) \<or> (\<exists>rq answer. snd w1 = snd (se_world s) @ [(rq, answer)] \<and>
        share_request net port certs (peer_of host, share) rq \<and> (r1 = Inr () \<longleftrightarrow> acknowledged answer))"
      using send_share_log [OF send first_address_peer [OF Inr]] by auto
    show ?thesis
    proof (cases r1)
      case (Inl e)
      then have "se_world s' = w1" "\<exists>e. r = Inl e"
        using Cons.prems p Inr send by (auto simp: doA_def tryA_def worldA_def echoA_def split: if_splits)
      with step Inl p show ?thesis
        by (elim disjE exE conjE) (auto intro: exI [of _ "[]"] exI [of _ "[_]"])
    next
      case r1: (Inr u)
      let ?s = "s\<lparr>se_world := w1, se_echo := se_echo s @ [Out (lit ''  stored on '' @ sh_name host)]\<rparr>"
      have "publish_all (logged net) pf port certs pairs ?s = (s', r)"
        using Cons.prems p Inr send r1 by (simp add: doA_def tryA_def worldA_def echoA_def)
      from Cons.IH [OF this] obtain posts where posts: "snd (se_world s') = snd w1 @ posts" "length posts \<le> length pairs"
        "list_all2 (\<lambda>(host, share) (rq, answer). share_request net port certs (peer_of host, share) rq)
          (take (length posts) pairs) posts"
        "list_all (\<lambda>(rq, answer). acknowledged answer) (butlast posts)"
        "r = Inr () \<longrightarrow> length posts = length pairs \<and> list_all (\<lambda>(rq, answer). acknowledged answer) posts"
        by auto
      obtain rq answer where "snd w1 = snd (se_world s) @ [(rq, answer)]"
        "share_request net port certs (peer_of host, share) rq" "acknowledged answer"
        using step r1 by auto
      then show ?thesis using posts p by (intro exI [of _ "(rq, answer) # posts"]) auto
    qed
  qed
qed (auto intro: exI [of _ "[]"])

text \<open>
  C10: KEY1 is published completely or the program stops. The shares go out in the order of the hosts,
  the \<open>i\<close>-th share to the \<open>i\<close>-th host; all but the last request were acknowledged, so nothing is sent
  after a failure; and the step ends normally only if every other host acknowledged its share.
\<close>

theorem key1_published_to_all:
  assumes "publish_key1_to_network (logged net) pf tape uuid4 now basedir key1 hosts own cfg s = Some (s', r)"
    and "snd (se_world s) = []"
  shows "(\<exists>port dealer participants posts. snd (se_world s') = posts \<and> dealt key1 dealer \<and>
       iterate_participants dealer = Inr participants \<and> length participants = length (other_hosts hosts own) \<and>
       list_all2 (\<lambda>(host, share) (rq, answer). share_request net port (cert_paths basedir cfg) (peer_of host, share) rq)
         (take (length posts) (zip (other_hosts hosts own) participants)) posts \<and>
       list_all (\<lambda>(rq, answer). acknowledged answer) (butlast posts) \<and>
       (\<forall>u t n. r = Inr (u, t, n) \<longrightarrow> length posts = length (other_hosts hosts own) \<and>
          list_all (\<lambda>(rq, answer). acknowledged answer) posts \<and>
          u = ss_uuid dealer \<and> t = ss_treshold dealer \<and> n = ss_shares dealer)) \<or>
    (snd (se_world s') = [] \<and> (\<exists>e. r = Inl e))"
proof (cases "\<exists>e. se_world s' = se_world s \<and> r = Inl e")
  case False
  let ?others = "other_hosts hosts own"
  define shares treshold where "shares = int (length ?others)" and "treshold = shares div 2 + 1"
  have counts: "key1_shares_and_treshold ?others = (shares, treshold)"
    by (simp add: key1_shares_and_treshold_def shares_def treshold_def Let_def)
  obtain port secret dealer tape' where prep: "cfg_getint (pf_int pf) cfg (lit ''server-port'') None = Inr port"
      "shamir_init (lit ''key1'') own shares treshold uuid4 = Inr secret"
      "create_secret key1 now tape secret = Some (Inr dealer, tape')"
    using assms(1) False
    by (auto simp: publish_key1_to_network_def counts doP_def split: sum.splits option.splits prod.splits)
  have dealt: "dealt key1 dealer" using create_secret_dealt [OF prep(2,3)] by blast
  have fields: "ss_shares dealer = shares" "ss_treshold dealer = treshold"
    using prep(2,3) by (auto simp: create_secret_def shamir_init_def split: sum.splits if_splits option.splits)
  have parts: "iterate_participants dealer = Inr (map (participant_data dealer) [0..<nat shares])"
    using iterate_participants_dealt [OF dealt] by (simp add: fields)
  let ?s1 = "s\<lparr>se_echo := se_echo s @ [Out [], Out (lit ''Publishing key1 as '' @ int_text shares @ lit '' share(s), treshold '' @
               int_text treshold @ lit ''...'')]\<rparr>"
  let ?pairs = "zip ?others (map (participant_data dealer) [0..<nat shares])"
  obtain s2 r2 where pub: "publish_all (logged net) pf port (cert_paths basedir cfg) ?pairs ?s1 = (s2, r2)"
    by (rule prod.exhaust)
  have run: "se_world s' = se_world s2" "r = (case r2 of Inl e \<Rightarrow> Inl e | Inr _ \<Rightarrow> Inr (ss_uuid dealer, treshold, shares))"
    using assms(1) prep parts pub
    by (auto simp: publish_key1_to_network_def counts doP_def doA_def echoA_def split: sum.splits)
  obtain posts where posts: "snd (se_world s2) = posts" "length posts \<le> length ?pairs"
    "list_all2 (\<lambda>(host, share) (rq, answer). share_request net port (cert_paths basedir cfg) (peer_of host, share) rq)
      (take (length posts) ?pairs) posts"
    "list_all (\<lambda>(rq, answer). acknowledged answer) (butlast posts)"
    "r2 = Inr () \<longrightarrow> length posts = length ?pairs \<and> list_all (\<lambda>(rq, answer). acknowledged answer) posts"
    using publish_all_log [OF pub] assms(2) by auto
  have "length ?pairs = length ?others" by (simp add: shares_def)
  then show ?thesis using posts run parts dealt fields
    by (intro disjI1 exI [of _ port] exI [of _ dealer] exI [of _ "map (participant_data dealer) [0..<nat shares]"]
        exI [of _ posts] conjI) (auto simp: shares_def split: sum.splits)
qed (use assms(2) in auto)

definition pair_hosts :: "setup_host list" where
  "pair_hosts = [\<lparr>sh_name = lit ''alice'', sh_addresses = [lit ''a0''], sh_role = lit ''server''\<rparr>,
     \<lparr>sh_name = lit ''b'', sh_addresses = [lit ''b0''], sh_role = lit ''server''\<rparr>,
     \<lparr>sh_name = lit ''c'', sh_addresses = [lit ''c0''], sh_role = lit ''server''\<rparr>]"

definition key1_dealer :: "shamir_secret" where
  "key1_dealer = pair_dealer\<lparr>ss_name := PStr (lit ''key1'')\<rparr>"

lemma key1_create:
  "shamir_init (lit ''key1'') (lit ''alice'') 2 2 (lit ''u'') = Inr (pair_empty\<lparr>ss_name := PStr (lit ''key1'')\<rparr>)"
  "create_secret (lit ''a'') (lit ''now'') [7, 0, 1, 11, 0, 1] (pair_empty\<lparr>ss_name := PStr (lit ''key1'')\<rparr>) =
     Some (Inr key1_dealer, [])"
  by (simp_all add: shamir_init_def pair_empty_def example_empty_def key1_dealer_def pair_create_named
      [unfolded pair_empty_def example_empty_def, simplified])

lemma key1_participants: "iterate_participants key1_dealer = Inr (map (participant_data key1_dealer) [0, 1])"
  by (simp add: iterate_participants_def key1_dealer_def pair_dealer_def pair_empty_def example_empty_def pair_matrix_def)

lemma ack_key1:
  "\<exists>s' posts. publish_all (logged ack_net) pf port certs (zip (other_hosts pair_hosts (lit ''alice''))
      (map (participant_data key1_dealer) [0, 1])) s = (s', Inr ()) \<and>
    snd (se_world s') = snd (se_world s) @ posts \<and> length posts = 2"
proof -
  have hosts: "connection_host (PStr (lit ''b0'')) = Inr (lit ''b0'')" "connection_host (PStr (lit ''c0'')) = Inr (lit ''c0'')"
    by (simp_all add: connection_host_def is_control_def lit_def)
  note share = ack_share [OF _ _ example_name_ok(2), folded key1_dealer_def]
  obtain rq0 where rq0: "send_share (logged ack_net) (PStr (lit ''b0'')) port certs (participant_data key1_dealer 0)
      (se_world s) = (((), snd (se_world s) @ [(rq0, Inr (201, ack_body))]), Inr ())"
    using share [OF hosts(1), of 0 port certs "se_world s"] by auto
  obtain rq1 where rq1: "send_share (logged ack_net) (PStr (lit ''c0'')) port certs (participant_data key1_dealer 1)
      ((), snd (se_world s) @ [(rq0, Inr (201, ack_body))]) =
      (((), (snd (se_world s) @ [(rq0, Inr (201, ack_body))]) @ [(rq1, Inr (201, ack_body))]), Inr ())"
    using share [OF hosts(2), of 1 port certs "((), snd (se_world s) @ [(rq0, Inr (201, ack_body))])"] by auto
  have others: "other_hosts pair_hosts (lit ''alice'') =
     [\<lparr>sh_name = lit ''b'', sh_addresses = [lit ''b0''], sh_role = lit ''server''\<rparr>,
      \<lparr>sh_name = lit ''c'', sh_addresses = [lit ''c0''], sh_role = lit ''server''\<rparr>]"
    by (simp add: other_hosts_def pair_hosts_def lit_def)
  show ?thesis
    by (subst ex_comm, rule exI [of _ "[(rq0, Inr (201, ack_body)), (rq1, Inr (201, ack_body))]"])
       (simp add: others first_address_def doA_def tryA_def worldA_def pureA_def echoA_def rq0 rq1 [simplified])
qed

theorem key1_published_to_all_witness:
  "\<exists>s' t. publish_key1_to_network (logged ack_net) example_platform [7, 0, 1, 11, 0, 1] (lit ''u'') (lit ''now'')
      (lit ''/b'') (lit ''a'') pair_hosts (lit ''alice'') example_config
      \<lparr>se_world = ((), []), se_files = Map.empty, se_echo = [], se_input = []\<rparr> = Some (s', Inr t) \<and>
    length (snd (se_world s')) = 2 \<and> list_all (\<lambda>(rq, answer). acknowledged answer) (snd (se_world s'))"
proof -
  let ?s = "\<lparr>se_world = ((), [] :: exchange_log), se_files = Map.empty, se_echo = [], se_input = []\<rparr>"
  have len: "length (other_hosts pair_hosts (lit ''alice'')) = 2"
    by (simp add: other_hosts_def pair_hosts_def lit_def)
  define s1 where "s1 = ?s\<lparr>se_echo := [Out [], Out (lit ''Publishing key1 as '' @ int_text 2 @ lit '' share(s), treshold '' @
      int_text 2 @ lit ''...'')]\<rparr>"
  obtain s2 where pub: "publish_all (logged ack_net) example_platform 59222 (cert_paths (lit ''/b'') example_config)
      (zip (other_hosts pair_hosts (lit ''alice'')) (map (participant_data key1_dealer) [0, 1])) s1 = (s2, Inr ())"
    using ack_key1 by blast
  obtain s' t where run: "publish_key1_to_network (logged ack_net) example_platform [7, 0, 1, 11, 0, 1] (lit ''u'')
      (lit ''now'') (lit ''/b'') (lit ''a'') pair_hosts (lit ''alice'') example_config ?s = Some (s', Inr t)"
    using pub by (simp add: s1_def publish_key1_to_network_def key1_shares_and_treshold_def len example_port doP_def doA_def
        key1_create key1_participants echoA_def)
  with key1_published_to_all [OF run] show ?thesis by (cases t) (auto simp: len)
qed

end
