(* ===== verification/Commands.thy ===== *)
theory Commands
  imports SecretwebClient Setup ServerProperties
begin

text \<open>
  The programs as they are started: the path of \<open>config.ini\<close>, the configuration loaded from that file, and
  the command on what it holds. The options that the setup writes for KEY1 are those that the next
  boot reads.
\<close>

section \<open>From the file to the command\<close>

definition command_config :: "platform \<Rightarrow> pystr \<Rightarrow> pystr option \<Rightarrow> files \<Rightarrow> config py" where
  "command_config pf basedir config_file fs =
     bindE (load_config (str_lower (pf_lower pf)) (config_path basedir config_file) fs) (\<lambda>ini. Inr (secretweb_section ini))"

definition initiator_command ::
  "'w net \<Rightarrow> 'w sys \<Rightarrow> platform \<Rightarrow> pystr \<Rightarrow> pystr \<Rightarrow> pystr option \<Rightarrow> bool \<Rightarrow> ('w session, unit) partial_action" where
  "initiator_command net sys pf uuid4 basedir config_file stop s =
     (if stop then initiator_main net sys pf uuid4 basedir (config_path basedir config_file) True None s
      else case command_config pf basedir config_file (se_files s) of
        Inl e \<Rightarrow> Some (s, Inl e)
      | Inr cfg \<Rightarrow> initiator_main net sys pf uuid4 basedir (config_path basedir config_file) False cfg s)"

definition server_command ::
  "platform \<Rightarrow> startup \<Rightarrow> pystr \<Rightarrow> pystr option \<Rightarrow> sock \<Rightarrow> files \<Rightarrow> files \<times> byte list \<times> app_config py" where
  "server_command pf su basedir config_file handoff fs =
     (case command_config pf basedir config_file fs of
        Inl e \<Rightarrow> (fs, [], Inl e)
      | Inr cfg \<Rightarrow> server_main pf su basedir cfg handoff fs)"

definition store_secret_command ::
  "'w net \<Rightarrow> platform \<Rightarrow> int list \<Rightarrow> pystr \<Rightarrow> pystr \<Rightarrow> pystr \<Rightarrow> pystr \<Rightarrow> pystr option \<Rightarrow> pystr \<Rightarrow> pystr option \<Rightarrow>
   int option \<Rightarrow> int option \<Rightarrow> ('w session, unit) partial_action" where
  "store_secret_command net pf tape uuid4 now stdin basedir config_file name secret shares_override treshold_override s =
     (case command_config pf basedir config_file (se_files s) of
        Inl e \<Rightarrow> Some (s, Inl e)
      | Inr cfg \<Rightarrow> store_secret_cmd net pf tape uuid4 now stdin basedir cfg name secret shares_override treshold_override s)"

definition get_secret_command ::
  "'w net \<Rightarrow> platform \<Rightarrow> pystr \<Rightarrow> pystr \<Rightarrow> pystr option \<Rightarrow> pystr \<Rightarrow> ('w session, unit) action" where
  "get_secret_command net pf uuid4 basedir config_file name s =
     (case command_config pf basedir config_file (se_files s) of
        Inl e \<Rightarrow> (s, Inl e)
      | Inr cfg \<Rightarrow> get_secret_cmd net pf uuid4 basedir cfg name s)"

definition get_key1_command ::
  "'w net \<Rightarrow> platform \<Rightarrow> pystr \<Rightarrow> pystr \<Rightarrow> pystr option \<Rightarrow> ('w session, unit) action" where
  "get_key1_command net pf uuid4 basedir config_file s =
     (case command_config pf basedir config_file (se_files s) of
        Inl e \<Rightarrow> (s, Inl e)
      | Inr cfg \<Rightarrow> get_key1_cmd net pf uuid4 basedir cfg s)"

section \<open>The options of KEY1\<close>

lemma one_line_int_text: "one_line (int_text n)"
proof -
  have d: "list_all is_digit (dec_digits k)" "dec_digits k \<noteq> []" for k using dec_digits_digits by simp_all
  have "\<forall>c \<in> set (int_text n). c = 45 \<or> is_digit c" using d(1) by (auto simp: int_text_def list_all_iff)
  then have "\<forall>c \<in> set (int_text n). \<not> is_space c \<and> c \<noteq> 10 \<and> c \<noteq> 13" by (auto simp: is_space_def is_digit_def)
  then show ?thesis by (auto simp: one_line_def)
qed

lemma option_ok_update:
  "list_all (option_ok lower) opts \<Longrightarrow> option_ok lower (k, v) \<Longrightarrow> list_all (option_ok lower) (AList.update k v opts)"
  by (induction opts) (auto simp: option_ok_def)

lemma key1_names:
  "name_ok (str_lower f) (lit ''key1-name'')" "name_ok (str_lower f) (lit ''key1-uuid'')"
  "name_ok (str_lower f) (lit ''key1-treshold'')" "name_ok (str_lower f) (lit ''key1-shares'')"
  by (simp_all add: name_ok_def one_line_def is_space_def is_delimiter_def str_lower_def lower_ascii_def lit_def)

lemma add_key1_metadata_ok:
  assumes "list_all (option_ok (str_lower f)) opts" "one_line (str_of u)"
  shows "list_all (option_ok (str_lower f)) (add_key1_metadata u t n str_of opts)"
proof -
  have "one_line (lit ''key1'')" by (simp add: one_line_def is_space_def lit_def)
  then show ?thesis unfolding add_key1_metadata_def
    by (intro option_ok_update assms(1)) (simp_all add: option_ok_def key1_names one_line_int_text assms(2))
qed

lemma ini_ok_with_options:
  assumes "ini_ok lower ini" "map_of ini (lit ''secretweb'') = Some own"
    and "list_all (option_ok lower) (f own)" "dict_ok (f own)"
  shows "ini_ok lower (with_options f ini)"
proof -
  have table: "table_ok_ini lower (lit ''secretweb'', f own)" using assms(3,4) by (simp add: table_ok_ini_def lit_def)
  have "list_all (table_ok_ini lower) (AList.update (lit ''secretweb'') (f own) ini)"
    if "list_all (table_ok_ini lower) ini" for ini using that table by (induction ini) auto
  moreover have "lit ''secretweb'' \<noteq> DEFAULT_SECTION" by (simp add: DEFAULT_SECTION_def)
  then have "\<exists>d tables. with_options f ini = (DEFAULT_SECTION, d) # tables"
    using assms(1,2) by (auto simp: ini_ok_def with_options_def)
  ultimately show ?thesis using assms(1,2) by (simp add: ini_ok_def with_options_def distinct_update)
qed

text \<open>
  C29: what the setup writes into \<open>config.ini\<close> the next boot reads. Writing a configuration with the options
  of KEY1 in its section and loading the file gives the name \<open>key1\<close>, the uuid, the treshold and the
  number of shares back as they were, and every other option of the section keeps its value.
\<close>

theorem key1_options_are_read:
  assumes "ini_ok (str_lower (pf_lower pf)) ini" "map_of ini (lit ''secretweb'') = Some opts" "one_line uuid"
    and "length (dec_digits (nat \<bar>t\<bar>)) \<le> MAX_STR_DIGITS" "length (dec_digits (nat \<bar>n\<bar>)) \<le> MAX_STR_DIGITS"
    and "utf8_encode (write_ini (with_options (add_key1_metadata (PStr uuid) t n (format_value net)) ini)) = Inr bs"
    and "fs (config_path basedir config_file) = Some bs"
  shows "\<exists>old new. secretweb_section ini = Some old \<and> command_config pf basedir config_file fs = Inr (Some new) \<and>
    key1_metadata (pf_int pf) Key1ReconstructionError new = Inr (lit ''key1'', uuid, Some t, Some n) \<and>
    (\<forall>k. k \<notin> {lit ''key1-name'', lit ''key1-uuid'', lit ''key1-treshold'', lit ''key1-shares''} \<longrightarrow>
       map_of new k = map_of old k)"
proof -
  let ?lower = "str_lower (pf_lower pf)" and ?opts = "add_key1_metadata (PStr uuid) t n (format_value net) opts"
  let ?defaults = "case map_of ini DEFAULT_SECTION of None \<Rightarrow> [] | Some d \<Rightarrow> d"
  have "(lit ''secretweb'', opts) \<in> set ini" using assms(2) by (rule map_of_SomeD)
  then have opts: "list_all (option_ok ?lower) opts" "dict_ok opts"
    using assms(1) by (auto simp: ini_ok_def table_ok_ini_def list_all_iff)
  have new: "list_all (option_ok ?lower) ?opts" "dict_ok ?opts"
    using add_key1_metadata_ok [OF opts(1)] assms(3) opts(2) by (simp_all add: format_value_def add_key1_metadata_def)
  let ?change = "add_key1_metadata (PStr uuid) t n (format_value net)"
  have load: "load_config ?lower (config_path basedir config_file) fs = Inr (with_options ?change ini)"
    by (rule load_written_config [where fs = fs, OF ini_ok_with_options [where f = ?change, OF assms(1,2) new] assms(6,7)])
  have "lit ''secretweb'' \<noteq> DEFAULT_SECTION" by (simp add: DEFAULT_SECTION_def)
  then have sect: "secretweb_section (with_options ?change ini) = Some (dict_merge ?defaults ?opts)"
    by (simp add: secretweb_section_def with_options_def assms(2))
  have old: "secretweb_section ini = Some (dict_merge ?defaults opts)" by (simp add: secretweb_section_def assms(2))
  have look: "map_of (dict_merge ?defaults ?opts) k = (case map_of ?opts k of None \<Rightarrow> map_of ?defaults k | Some v \<Rightarrow> Some v)" for k
    by (rule dict_merge_lookup [OF new(2)])
  have "map_of (dict_merge ?defaults ?opts) k = map_of (dict_merge ?defaults opts) k"
    if "k \<notin> {lit ''key1-name'', lit ''key1-uuid'', lit ''key1-treshold'', lit ''key1-shares''}" for k
    unfolding look dict_merge_lookup [OF opts(2)] using that by (simp add: add_key1_metadata_def)
  moreover have "map_of ?opts (lit ''key1-name'') = Some (lit ''key1'')" "map_of ?opts (lit ''key1-uuid'') = Some uuid"
      "map_of ?opts (lit ''key1-treshold'') = Some (int_text t)" "map_of ?opts (lit ''key1-shares'') = Some (int_text n)"
    by (simp_all add: add_key1_metadata_def format_value_def)
  then have "key1_metadata (pf_int pf) Key1ReconstructionError (dict_merge ?defaults ?opts) = Inr (lit ''key1'', uuid, Some t, Some n)"
    by (simp add: key1_metadata_def section_item_def section_getint_def look int_of_text_int_text assms(4,5))
  ultimately show ?thesis using old sect load by (simp add: command_config_def)
qed

definition quiet_net :: "unit net" where
  "quiet_net = \<lparr>net_certs = (\<lambda>_ _. Inr ()), net_exchange = (\<lambda>rq w. (w, Inl ConnectionError)),
     net_sleep = (\<lambda>_ w. w), net_shuffle = (\<lambda>_ xs. xs), net_format = (\<lambda>_. [])\<rparr>"

definition example_ini :: ini where
  "example_ini = [(DEFAULT_SECTION, []), (lit ''secretweb'', [(lit ''server-port'', lit ''59222'')])]"

lemma example_ini_ok: "ini_ok (str_lower f) example_ini"
proof -
  have "name_ok (str_lower f) (lit ''server-port'')" "one_line (lit ''59222'')"
    by (simp_all add: name_ok_def one_line_def is_space_def is_delimiter_def str_lower_def lower_ascii_def lit_def)
  then show ?thesis
    by (simp add: ini_ok_def example_ini_def table_ok_ini_def option_ok_def dict_ok_def) (simp add: lit_def DEFAULT_SECTION_def)
qed

theorem key1_options_are_read_witness:
  "\<exists>bs new. command_config example_platform (lit ''/b'') None [config_path (lit ''/b'') None \<mapsto> bs] = Inr (Some new) \<and>
    key1_metadata (pf_int example_platform) Key1ReconstructionError new = Inr (lit ''key1'', lit ''u'', Some 2, Some 3)"
proof -
  have o: "map_of example_ini (lit ''secretweb'') = Some [(lit ''server-port'', lit ''59222'')]"
    by (simp add: example_ini_def DEFAULT_SECTION_def)
  have u: "one_line (lit ''u'')" by (simp add: one_line_def is_space_def lit_def)
  let ?text = "write_ini (with_options (add_key1_metadata (PStr (lit ''u'')) 2 3 (format_value quiet_net)) example_ini)"
  have "list_all is_scalar ?text"
    by (simp add: write_ini_def with_options_def add_key1_metadata_def example_ini_def section_text_def option_line_def
        format_value_def int_text_def dec_digits.simps DEFAULT_SECTION_def lit_def is_scalar_def)
  then obtain bs where bs: "utf8_encode ?text = Inr bs" using utf8.enc_valid by blast
  have d: "length (dec_digits (nat \<bar>2\<bar>)) \<le> MAX_STR_DIGITS" "length (dec_digits (nat \<bar>3\<bar>)) \<le> MAX_STR_DIGITS"
    by (simp_all add: dec_digits.simps MAX_STR_DIGITS_def)
  have "[config_path (lit ''/b'') None \<mapsto> bs] (config_path (lit ''/b'') None) = Some bs" by simp
  from key1_options_are_read [where pf = example_platform and ini = example_ini and net = quiet_net
      and fs = "[config_path (lit ''/b'') None \<mapsto> bs]" and basedir = "lit ''/b''" and config_file = None,
      OF example_ini_ok o u d bs this]
  show ?thesis by blast
qed

end
