(* ===== verification/Clock.thy ===== *)
theory Clock
  imports PyValues
begin

text \<open>
  The model of \<open>src/timeutils.py\<close>: the text of a UTC time that the documents store as
  \<open>last_updated\<close>. The time itself comes from the system; its text is the ISO-8601 form of the
  standard library, which leaves the fraction of the second out when it is zero. Such a text is plain
  ASCII, and names the instant and its offset from UTC.
\<close>

record utc_time =
  ut_year :: nat
  ut_month :: nat
  ut_day :: nat
  ut_hour :: nat
  ut_minute :: nat
  ut_second :: nat
  ut_microsecond :: nat

text \<open>What a \<open>datetime\<close> can hold (the lengths of the months do not matter here).\<close>

definition is_time :: "utc_time \<Rightarrow> bool" where
  "is_time t \<longleftrightarrow> 1 \<le> ut_year t \<and> ut_year t \<le> 9999 \<and> 1 \<le> ut_month t \<and> ut_month t \<le> 12 \<and>
     1 \<le> ut_day t \<and> ut_day t \<le> 31 \<and> ut_hour t < 24 \<and> ut_minute t < 60 \<and> ut_second t < 60 \<and>
     ut_microsecond t < 1000000"

text \<open>Decimal digits with leading zeros.\<close>

fun padded :: "nat \<Rightarrow> nat \<Rightarrow> pystr" where
  "padded 0 n = []"
| "padded (Suc w) n = padded w (n div 10) @ [48 + n mod 10]"

definition fraction :: "nat \<Rightarrow> pystr" where
  "fraction us = (if us = 0 then [] else lit ''.'' @ padded 6 us)"

text \<open>\<open>datetime.now(timezone.utc).isoformat()\<close>\<close>

definition utc_now_iso :: "utc_time \<Rightarrow> pystr" where
  "utc_now_iso t =
     padded 4 (ut_year t) @ lit ''-'' @ padded 2 (ut_month t) @ lit ''-'' @ padded 2 (ut_day t) @ lit ''T'' @
     padded 2 (ut_hour t) @ lit '':'' @ padded 2 (ut_minute t) @ lit '':'' @ padded 2 (ut_second t) @
     fraction (ut_microsecond t) @ lit ''+00:00''"

section \<open>ASCII\<close>

lemma padded_digits: "list_all (\<lambda>c. 48 \<le> c \<and> c < 58) (padded w n)"
  by (induction w arbitrary: n) auto

lemma utc_ascii: "list_all (\<lambda>c. c < 128) (utc_now_iso t)"
proof -
  have "list_all (\<lambda>c. c < 128) (padded w n)" for w n
    using padded_digits [of w n] by (auto simp: list_all_iff)
  then show ?thesis by (simp add: utc_now_iso_def fraction_def lit_def)
qed

section \<open>Reading a timestamp\<close>

text \<open>
  What \<open>datetime.fromisoformat\<close> makes of a text of this form: the time on the clock and its offset in
  minutes. A text without an offset is a time in no zone, which is \<open>None\<close> here.
\<close>

definition number :: "pystr \<Rightarrow> nat" where
  "number ds = foldl (\<lambda>n c. 10 * n + (c - 48)) 0 ds"

definition read_offset :: "pystr \<Rightarrow> int option" where
  "read_offset s = (let minutes = int (60 * number (take 2 (drop 1 s)) + number (take 2 (drop 4 s))) in
     if length s \<noteq> 6 then None else if take 1 s = lit ''+'' then Some minutes
     else if take 1 s = lit ''-'' then Some (- minutes) else None)"

definition read_iso :: "pystr \<Rightarrow> (utc_time \<times> int) option" where
  "read_iso s = (let rest = drop 19 s; fractional = (take 1 rest = lit ''.'') in
     map_option (Pair \<lparr>ut_year = number (take 4 s), ut_month = number (take 2 (drop 5 s)), ut_day = number (take 2 (drop 8 s)),
         ut_hour = number (take 2 (drop 11 s)), ut_minute = number (take 2 (drop 14 s)), ut_second = number (take 2 (drop 17 s)),
         ut_microsecond = (if fractional then number (take 6 (drop 1 rest)) else 0)\<rparr>)
       (read_offset (if fractional then drop 7 rest else rest)))"

lemma padded_length [simp]: "length (padded w n) = w"
  by (induction w arbitrary: n) simp_all

lemma number_padded [simp]: "number (padded w n) = n mod 10 ^ w"
proof (induction w arbitrary: n)
  case (Suc w)
  have "n mod (10 * 10 ^ w) = 10 * (n div 10 mod 10 ^ w) + n mod 10" by (rule mod_mult2_eq)
  with Suc.IH [of "n div 10"] show ?case by (simp add: number_def)
qed (simp add: number_def)

theorem timestamp_reads_back:
  assumes "is_time t"
  shows "read_iso (utc_now_iso t) = Some (t, 0)"
proof -
  have "number (lit ''00'') = 0" by (simp add: number_def lit_def)
  then have offset: "read_offset (lit ''+00:00'') = Some 0" by (simp add: read_offset_def lit_def)
  show ?thesis using assms offset
    by (simp add: utc_now_iso_def read_iso_def Let_def fraction_def is_time_def lit_def)
qed

definition example_time :: "nat \<Rightarrow> nat \<Rightarrow> utc_time" where
  "example_time s us = \<lparr>ut_year = 2026, ut_month = 1, ut_day = 2, ut_hour = 3, ut_minute = 4, ut_second = s,
     ut_microsecond = us\<rparr>"

end
