(* ===== verification/Network.thy ===== *)
theory Network
  imports ClientProperties Clock
begin

text \<open>
  The hosts together: the requests of one host's commands meet the handlers of the servers, which
  answer everybody else in between. What lies between \<open>http.client\<close> and a handler (TLS, \<open>wsgiref\<close>,
  bottle's routing and its JSON) is not under \<open>src/\<close>; its documented behaviour is the predicate
  \<open>connects\<close>, the assumption of the locale \<open>server_network\<close>. The locale shows what each call of
  \<open>peer_client\<close> does to the servers, and that they stay honest.
\<close>

section \<open>The requests of the others\<close>

text \<open>A server goes through any sequence of requests by callers other than the host \<open>me\<close>.\<close>

inductive traffic :: "platform \<Rightarrow> pystr \<Rightarrow> app_config \<Rightarrow> app_config \<Rightarrow> bool" for pf me ac0 where
  quiet: "traffic pf me ac0 ac0"
| other: "traffic pf me ac0 ac \<Longrightarrow> \<not> caller_is pf rq me \<Longrightarrow> handle pf route rq ac = (ac', resp) \<Longrightarrow>
    traffic pf me ac0 ac'"

lemma traffic_serves: "traffic pf me ac ac' \<Longrightarrow> serves pf ac ac'"
  by (induction rule: traffic.induct) (auto intro: serves.intros)

lemma serves_trans: "serves pf b c \<Longrightarrow> serves pf a b \<Longrightarrow> serves pf a c"
  by (induction rule: serves.induct) (auto intro: serves.intros)

lemma serves_one: "handle pf route rq ac = (ac', resp) \<Longrightarrow> serves pf ac ac'"
  by (rule serves.request [OF serves.start])

lemma handle_hosts: "handle pf route rq ac = (ac', resp) \<Longrightarrow> ac_hosts ac' = ac_hosts ac"
  by (cases route)
     (auto simp: index_def get_share_def get_secret_metadata_def store_share_def store_secret_metadata_def
       dest!: persist_shares_ac persist_secrets_ac split: sum.splits prod.splits if_splits)

lemma serves_own_name: "serves pf ac ac' \<Longrightarrow> own_name_of ac' = own_name_of ac"
  by (induction rule: serves.induct) (auto simp: own_name_of_def dest: handle_hosts)

section \<open>The shares of one host under one uuid\<close>

definition same_name :: "platform \<Rightarrow> pystr \<Rightarrow> pystr \<Rightarrow> bool" where
  "same_name pf a b \<longleftrightarrow> str_lower (pf_lower pf) a = str_lower (pf_lower pf) b"

lemma caller_same_name: "caller_is pf rq a \<Longrightarrow> caller_is pf rq b \<longleftrightarrow> same_name pf a b"
  by (auto simp: caller_is_def same_name_def)

definition is_mine :: "platform \<Rightarrow> pystr \<Rightarrow> pyval \<Rightarrow> bool" where
  "is_mine pf me v \<longleftrightarrow> (\<exists>owner. owned_by v owner \<and> same_name pf owner me)"

text \<open>
  A server is honest about a uuid: what it holds under it for the host \<open>me\<close> is the expected share, if
  it holds anything.
\<close>

definition honest_node :: "platform \<Rightarrow> pystr \<Rightarrow> pystr \<Rightarrow> pyval option \<Rightarrow> app_config \<Rightarrow> bool" where
  "honest_node pf me u expected ac \<longleftrightarrow>
     app_ok ac \<and> (\<forall>v. stored_shares ac u = Some v \<longrightarrow> is_mine pf me v \<longrightarrow> expected = Some v)"

lemma honest_node_other:
  assumes "handle pf route rq ac = (ac', resp)" "\<not> caller_is pf rq me" "honest_node pf me u x ac"
  shows "honest_node pf me u x ac'"
proof -
  have ok: "app_ok ac" using assms(3) by (simp add: honest_node_def)
  have "stored_shares ac' u = Some v \<Longrightarrow> is_mine pf me v \<Longrightarrow> stored_shares ac u = Some v" for v
    using shares_after_handle [OF assms(1) ok] assms(2)
    by (auto simp: is_mine_def owned_by_def caller_same_name split: if_splits)
  then show ?thesis using assms(3) app_ok_handle [OF assms(1) ok] by (auto simp: honest_node_def)
qed

lemma honest_node_traffic: "traffic pf me ac ac' \<Longrightarrow> honest_node pf me u x ac \<Longrightarrow> honest_node pf me u x ac'"
  by (induction rule: traffic.induct) (auto intro: honest_node_other)

lemma traffic_secrets:
  assumes "traffic pf me ac ac'" "app_ok ac" "own_name_of ac = Inr (PStr me)"
  shows "stored_secrets ac' = stored_secrets ac"
  using assms
proof (induction rule: traffic.induct)
  case (other ac rq route ac' resp)
  have ok: "app_ok ac" "own_name_of ac = Inr (PStr me)"
    using serves_app_ok serves_own_name other.prems traffic_serves [OF other.hyps(1)] by simp_all
  have "stored_secrets ac' = stored_secrets ac"
    using secrets_after_handle [OF other.hyps(3) ok(1)] other.hyps(2) ok(2) by auto
  with other show ?case by simp
qed simp

section \<open>From a request to a handler and back\<close>

text \<open>Segments of a path that bottle takes as they are: letters, digits and the marks \<open>-._~\<close>.\<close>

definition unreserved :: "nat \<Rightarrow> bool" where
  "unreserved c \<longleftrightarrow> 48 \<le> c \<and> c \<le> 57 \<or> 65 \<le> c \<and> c \<le> 90 \<or> 97 \<le> c \<and> c \<le> 122 \<or> c \<in> {45, 46, 95, 126}"

definition plain_segment :: "pystr \<Rightarrow> bool" where
  "plain_segment s \<longleftrightarrow> s \<noteq> [] \<and> list_all unreserved s"

definition route_of :: "http_method \<Rightarrow> pystr \<Rightarrow> route option" where
  "route_of m path =
     (if take 8 path = lit ''/shares/'' \<and> plain_segment (drop 8 path)
      then Some (case m of GET \<Rightarrow> GetShare (drop 8 path) | POST \<Rightarrow> PostShare (drop 8 path))
      else if take 9 path = lit ''/secrets/'' \<and> plain_segment (drop 9 path)
      then Some (case m of GET \<Rightarrow> GetSecret (drop 9 path) | POST \<Rightarrow> PostSecret (drop 9 path))
      else if m = GET \<and> path = lit ''/'' then Some Index else None)"

text \<open>The request that a handler gets: the certificate of \<open>me\<close>, a time of the clock, the parsed body.\<close>

definition arrives :: "platform \<Rightarrow> pystr \<Rightarrow> http_request \<Rightarrow> request \<Rightarrow> bool" where
  "arrives pf me hq rq \<longleftrightarrow> caller_is pf rq me \<and> (\<exists>t. is_time t \<and> rq_now rq = utc_now_iso t) \<and>
     (\<forall>body v. hq_body hq = Some body \<longrightarrow> json_loads_bytes body = Inr v \<longrightarrow> rq_json rq = Inr v)"

text \<open>The answer on the wire: a dictionary as JSON, an error with its status, which is never a success.\<close>

definition rendered :: "response \<Rightarrow> nat \<times> byte list \<Rightarrow> bool" where
  "rendered resp answer \<longleftrightarrow> (case resp of
     Inr (code, PDict d) \<Rightarrow> (case json_bytes (PDict d) of Inr bs \<Rightarrow> answer = (code, bs) | Inl _ \<Rightarrow> fst answer = 500)
   | Inr (code, _) \<Rightarrow> fst answer = code
   | Inl _ \<Rightarrow> fst answer = (if 400 \<le> status_of resp then status_of resp else 500))"

text \<open>
  One exchange with a server: either the request is lost, or a handler runs on it, between requests
  of the others, and the answer arrives or is lost. What is lost is an \<open>OSError\<close> for the client.
\<close>

definition answered ::
  "platform \<Rightarrow> pystr \<Rightarrow> http_request \<Rightarrow> route \<Rightarrow> app_config \<Rightarrow> app_config \<Rightarrow> (nat \<times> byte list) py \<Rightarrow> bool" where
  "answered pf me hq route ac ac' r \<longleftrightarrow>
     traffic pf me ac ac' \<and> (\<exists>e. r = Inl e \<and> is_os_error e) \<or>
     (\<exists>ac1 rq ac2 resp. traffic pf me ac ac1 \<and> arrives pf me hq rq \<and> handle pf route rq ac1 = (ac2, resp) \<and>
        traffic pf me ac2 ac' \<and> (case r of Inl e \<Rightarrow> is_os_error e | Inr answer \<Rightarrow> rendered resp answer))"

text \<open>
  A network whose world contains a server behind every address that the host \<open>me\<close> uses.
\<close>

definition connects :: "'w net \<Rightarrow> platform \<Rightarrow> ('w \<Rightarrow> pystr \<Rightarrow> app_config) \<Rightarrow> pystr \<Rightarrow> certs \<Rightarrow> bool" where
  "connects net pf node me certs \<longleftrightarrow>
     (\<forall>w e. net_certs net certs w = Inl e \<longrightarrow> is_os_error e) \<and>
     (\<forall>n w a. traffic pf me (node w a) (node (net_sleep net n w) a)) \<and>
     (\<forall>rq route w w' r. hq_certs rq = certs \<longrightarrow> route_of (hq_method rq) (hq_path rq) = Some route \<longrightarrow>
        net_exchange net rq w = (w', r) \<longrightarrow>
        (\<forall>a. a \<noteq> hq_address rq \<longrightarrow> traffic pf me (node w a) (node w' a)) \<and>
        answered pf me rq route (node w (hq_address rq)) (node w' (hq_address rq)) r)"

text \<open>A request to this address is answered now, and every request to one of these addresses.\<close>

definition answers_now :: "'w net \<Rightarrow> certs \<Rightarrow> 'w \<Rightarrow> pystr \<Rightarrow> bool" where
  "answers_now net certs w a \<longleftrightarrow> net_certs net certs w = Inr () \<and>
     (\<forall>rq. hq_certs rq = certs \<longrightarrow> hq_address rq = a \<longrightarrow> (\<exists>w' answer. net_exchange net rq w = (w', Inr answer)))"

definition answers_at :: "'w net \<Rightarrow> certs \<Rightarrow> pystr set \<Rightarrow> bool" where
  "answers_at net certs A \<longleftrightarrow> (\<forall>w. \<forall>a \<in> A. answers_now net certs w a)"

lemma connects_exchange:
  assumes "connects net pf node me certs" "hq_certs rq = certs"
    and "route_of (hq_method rq) (hq_path rq) = Some route" "net_exchange net rq w = (w', r)"
  shows "answered pf me rq route (node w (hq_address rq)) (node w' (hq_address rq)) r"
    and "a \<noteq> hq_address rq \<Longrightarrow> traffic pf me (node w a) (node w' a)"
  using assms unfolding connects_def by blast+

lemma answered_now:
  assumes "arrives pf me hq rq" "handle pf route rq ac = (ac', resp)"
    and "case r of Inl e \<Rightarrow> is_os_error e | Inr answer \<Rightarrow> rendered resp answer"
  shows "answered pf me hq route ac ac' r"
  unfolding answered_def using assms traffic.quiet [of pf me] by blast

lemma answered_serves:
  assumes "answered pf me hq route ac ac' r"
  shows "serves pf ac ac'"
  using assms unfolding answered_def
proof (elim disjE exE conjE)
  fix ac1 rq ac2 resp
  assume "traffic pf me ac ac1" "handle pf route rq ac1 = (ac2, resp)" "traffic pf me ac2 ac'"
  then show ?thesis using serves_trans traffic_serves serves_one by meson
qed (rule traffic_serves)

lemma answered_honest:
  assumes "answered pf me hq route ac ac' r" "honest_node pf me u x ac"
    and "\<And>rq ac1 ac2 resp. arrives pf me hq rq \<Longrightarrow> honest_node pf me u x ac1 \<Longrightarrow>
      handle pf route rq ac1 = (ac2, resp) \<Longrightarrow> honest_node pf me u x ac2"
  shows "honest_node pf me u x ac'"
  using assms(1) unfolding answered_def
proof (elim disjE exE conjE)
  fix ac1 rq ac2 resp
  assume a: "traffic pf me ac ac1" "arrives pf me hq rq" "handle pf route rq ac1 = (ac2, resp)" "traffic pf me ac2 ac'"
  have "honest_node pf me u x ac1" by (rule honest_node_traffic [OF a(1) assms(2)])
  from honest_node_traffic [OF a(4) assms(3) [OF a(2) this a(3)]] show ?thesis .
qed (rule honest_node_traffic [OF _ assms(2)])

lemma answers_now_call:
  assumes "answers_now net certs w h" "connection_host address = Inr h" "request_path path = Inr path"
  shows "\<exists>w' answer. http_call net address port certs t m path b w = (w', Inr answer)"
proof -
  let ?hq = "\<lparr>hq_address = h, hq_port = port, hq_certs = certs, hq_timeout = t, hq_method = m, hq_path = path, hq_body = b\<rparr>"
  have "hq_certs ?hq = certs" "hq_address ?hq = h" by simp_all
  then have "\<exists>w' answer. net_exchange net ?hq w = (w', Inr answer)" using assms(1) unfolding answers_now_def by blast
  then show ?thesis using assms by (simp add: http_call_def doA_def connect_def answers_now_def)
qed

lemma plain_ascii: "plain_segment s \<Longrightarrow> list_all (\<lambda>c. 32 < c \<and> c < 127) s"
  by (auto simp: plain_segment_def list_all_iff unreserved_def)

lemma plain_path:
  assumes "plain_segment s"
  shows "request_path (lit ''/shares/'' @ s) = Inr (lit ''/shares/'' @ s)"
    "request_path (lit ''/secrets/'' @ s) = Inr (lit ''/secrets/'' @ s)"
    "route_of GET (lit ''/shares/'' @ s) = Some (GetShare s)"
    "route_of POST (lit ''/shares/'' @ s) = Some (PostShare s)"
    "route_of GET (lit ''/secrets/'' @ s) = Some (GetSecret s)"
    "route_of POST (lit ''/secrets/'' @ s) = Some (PostSecret s)"
  using assms plain_ascii [OF assms]
  by (auto simp: request_path_def is_control_def list_ex_iff list_all_iff lit_def route_of_def)

section \<open>Documents on the wire\<close>

lemma detuple_detuple [simp]: "detuple (detuple v) = detuple v"
proof (induction v rule: detuple.induct)
  case (3 d)
  then show ?case by (auto simp: case_prod_beta)
qed auto

lemma json_ok_detuple: "json_ok v \<Longrightarrow> json_ok (detuple v)"
proof (induction v rule: detuple.induct)
  case (3 d)
  then show ?case by (fastforce simp: list_all_iff dict_ok_def case_prod_beta comp_def)
qed (auto simp: list_all_iff)

lemma utc_str_ok: "str_ok (utc_now_iso t)"
  by (rule str_ok_ascii [OF utc_ascii])

lemma rendered_dict:
  assumes "rendered (Inr (code, v)) (status, body)" "v = PDict d" "json_ok v"
  shows "status = code" "json_loads_bytes body = Inr (detuple v)"
proof -
  obtain bs where "json_bytes v = Inr bs" using json_bytes_total [OF assms(3)] by blast
  with assms json_bytes_roundtrip [OF assms(3)] show "status = code" "json_loads_bytes body = Inr (detuple v)"
    by (auto simp: rendered_def)
qed

lemma rendered_error: "rendered (Inl e) (status, body) \<Longrightarrow> 400 \<le> status"
  by (simp add: rendered_def split: if_splits)

section \<open>One call\<close>

text \<open>The world as the host \<open>me\<close> left it: an honest server behind every address.\<close>

definition honest_world ::
  "platform \<Rightarrow> ('w \<Rightarrow> pystr \<Rightarrow> app_config) \<Rightarrow> pystr \<Rightarrow> pystr \<Rightarrow> (pystr \<Rightarrow> pyval option) \<Rightarrow> 'w \<Rightarrow> bool" where
  "honest_world pf node me u expected w \<longleftrightarrow> (\<forall>a. honest_node pf me u (expected a) (node w a))"

definition servers_went_on :: "platform \<Rightarrow> (pystr \<Rightarrow> app_config) \<Rightarrow> (pystr \<Rightarrow> app_config) \<Rightarrow> bool" where
  "servers_went_on pf n n' \<longleftrightarrow> (\<forall>a. serves pf (n a) (n' a))"

lemma went_on_refl [simp]: "servers_went_on pf n n"
  by (simp add: servers_went_on_def serves.start)

lemma went_on_trans: "servers_went_on pf b c \<Longrightarrow> servers_went_on pf a b \<Longrightarrow> servers_went_on pf a c"
  by (auto simp: servers_went_on_def intro: serves_trans)

lemma went_on_own_name: "servers_went_on pf n n' \<Longrightarrow> own_name_of (n' a) = own_name_of (n a)"
  unfolding servers_went_on_def by (rule serves_own_name) blast

lemma went_on_stored:
  "servers_went_on pf (node w) (node w') \<Longrightarrow> honest_world pf node me u x w \<Longrightarrow> stored_shares (node w a) u = Some v \<Longrightarrow>
    stored_shares (node w' a) u = Some v"
  using serves_shares [of pf "node w a" "node w' a"]
  by (auto simp: servers_went_on_def honest_world_def honest_node_def map_le_def dom_def)

text \<open>The handler of a share that \<open>me\<close> sends.\<close>

lemma store_mine:
  assumes "store_share pf u rq ac = (ac', resp)" "honest_node pf me u (Some x) ac"
    and "rq_json rq = Inr x" "owned_by x me"
  shows "honest_node pf me u (Some x) ac'" "resp = Inr y \<Longrightarrow> stored_shares ac' u = Some x"
proof -
  have ok: "app_ok ac" using assms(2) by (simp add: honest_node_def)
  from assms(1) ok have "honest_node pf me u (Some x) ac' \<and> (\<forall>y. resp = Inr y \<longrightarrow> stored_shares ac' u = Some x)"
  proof (cases rule: store_share_cases)
    case (known payload w)
    have "share_entry u w" using ok known(4) by (simp add: app_ok_def)
    then obtain f owner where f: "w = PDict f" "map_of f (lit ''owner'') = Some (PStr owner)"
      by (auto simp: share_entry_def)
    have eq: "py_eq (PDict f) x" using known(3,5) assms(3) f(1) by simp
    then obtain e where e: "x = PDict e" by (cases x) auto
    then have "map_of e (lit ''owner'') = Some (PStr owner)"
      using eq map_of_SomeD [OF f(2)] by (auto simp: list_all_iff split: option.splits)
    then have "owned_by w me" using assms(4) e f by (simp add: owned_by_def)
    then have "is_mine pf me w" by (auto simp: is_mine_def same_name_def)
    then have "w = x" using assms(2) known(4) by (simp add: honest_node_def)
    then show ?thesis using assms(2) known by simp
  next
    case (stored d owner fs r)
    then have "stored_shares ac' = (stored_shares ac)(u \<mapsto> x)"
      using ok assms(3) by (simp add: stored_shares_def app_ok_def)
    then show ?thesis using assms(2) app_ok_store_share [OF assms(1) ok] by (simp add: honest_node_def)
  qed (use assms(2) in auto)
  then show "honest_node pf me u (Some x) ac'" "resp = Inr y \<Longrightarrow> stored_shares ac' u = Some x" by auto
qed

text \<open>The handler keeps its server honest when \<open>me\<close> sends this body.\<close>

definition keeps_honest ::
  "platform \<Rightarrow> pystr \<Rightarrow> pystr \<Rightarrow> pyval option \<Rightarrow> byte list option \<Rightarrow> route \<Rightarrow> bool" where
  "keeps_honest pf me u x b route \<longleftrightarrow> (\<forall>hq rq ac ac' resp. hq_body hq = b \<longrightarrow> arrives pf me hq rq \<longrightarrow>
     honest_node pf me u x ac \<longrightarrow> handle pf route rq ac = (ac', resp) \<longrightarrow> honest_node pf me u x ac')"

lemma keeps_honest_others:
  assumes "\<And>u'. route \<noteq> PostShare u'"
  shows "keeps_honest pf me u x b route"
  unfolding keeps_honest_def
proof (intro allI impI)
  fix hq rq ac ac' resp
  assume "honest_node pf me u x ac" and h: "handle pf route rq ac = (ac', resp)"
  then show "honest_node pf me u x ac'"
    using shares_after_handle [OF h] app_ok_handle [OF h] assms by (auto simp: honest_node_def)
qed

text \<open>The handlers of an own record.\<close>

lemma store_record_eval:
  assumes "app_ok ac" "own_name_of ac = Inr (PStr me)" "caller_is pf rq me"
    and "rq_json rq = Inr (secret_body u t k)" "store_secret_metadata pf n rq ac = (ac', resp)"
  shows "stored_secrets ac' n = Some (secret_record u t k (rq_now rq))"
proof -
  obtain d where "table (ac_secrets ac) (lit ''secrets'') = Inr d"
    using secrets_table [OF assms(1)] by blast
  moreover have "metadata_of pf (secret_body u t k) = Inr (u, t, k)"
    by (simp add: metadata_of_def secret_body_def)
  moreover obtain fs r where "persist_secrets pf (rq_io rq) (ac\<lparr>ac_secrets :=
      table_put (ac_secrets ac) (lit ''secrets'') n (secret_record u t k (rq_now rq))\<rparr>) =
    (ac\<lparr>ac_secrets := table_put (ac_secrets ac) (lit ''secrets'') n (secret_record u t k (rq_now rq)), ac_files := fs\<rparr>, r)"
    using persist_secrets_ac by (metis surj_pair)
  ultimately have "\<exists>fs. ac' = ac\<lparr>ac_secrets := table_put (ac_secrets ac) (lit ''secrets'') n (secret_record u t k (rq_now rq)),
      ac_files := fs\<rparr>"
    using assms(2-5) by (auto simp: store_secret_metadata_def secret_body_def require_owner_PStr split: sum.splits)
  then show ?thesis using assms(1) by (auto simp: stored_secrets_def app_ok_def)
qed

lemma get_record_eval:
  assumes "app_ok ac" "own_name_of ac = Inr (PStr me)" "caller_is pf rq me"
    and "stored_secrets ac n = Some (secret_record u t k now)"
  shows "get_secret_metadata pf n rq ac = (ac, Inr (200, secret_record u t k now))"
  using assms secrets_table [OF assms(1)]
  by (auto simp: get_secret_metadata_def require_owner_PStr dict_get_def secret_record_def)

locale server_network =
  fixes net :: "'w net" and pf :: platform and node :: "'w \<Rightarrow> pystr \<Rightarrow> app_config"
    and me :: pystr and certs :: certs
  assumes connected: "connects net pf node me certs"
begin

text \<open>What one call leaves behind at the address it went to, and elsewhere.\<close>

lemma call_answered:
  assumes "http_call net address port certs t m path b w = (w', r)"
    and "connection_host address = Inr h" "request_path path = Inr path" "route_of m path = Some route"
  shows "\<exists>hq. hq_body hq = b \<and> answered pf me hq route (node w h) (node w' h) r"
    and "a \<noteq> h \<Longrightarrow> traffic pf me (node w a) (node w' a)"
proof -
  let ?hq = "\<lparr>hq_address = h, hq_port = port, hq_certs = certs, hq_timeout = t, hq_method = m, hq_path = path, hq_body = b\<rparr>"
  have both: "answered pf me ?hq route (node w h) (node w' h) r \<and> (\<forall>a. a \<noteq> h \<longrightarrow> traffic pf me (node w a) (node w' a))"
  proof (cases "net_certs net certs w")
    case (Inl e)
    then have "w' = w \<and> r = Inl e \<and> is_os_error e"
      using assms(1) connected by (auto simp: http_call_def doA_def connect_def connects_def)
    then show ?thesis by (auto simp: answered_def intro: traffic.quiet)
  next
    case (Inr u)
    then have "net_exchange net ?hq w = (w', r)"
      using assms(1-3) by (simp add: http_call_def doA_def connect_def)
    from connects_exchange [OF connected _ _ this] assms(4) show ?thesis by simp
  qed
  have "hq_body ?hq = b" by simp
  with both show "\<exists>hq. hq_body hq = b \<and> answered pf me hq route (node w h) (node w' h) r" by blast
  show "a \<noteq> h \<Longrightarrow> traffic pf me (node w a) (node w' a)" using both by blast
qed

lemma call_went_on:
  assumes "http_call net address port certs t m path b w = (w', r)"
    and "connection_host address = Inr h" "request_path path = Inr path" "route_of m path = Some route"
  shows "servers_went_on pf (node w) (node w')"
  unfolding servers_went_on_def
proof
  fix a
  show "serves pf (node w a) (node w' a)"
  proof (cases "a = h")
    case True
    from call_answered(1) [OF assms] True show ?thesis by (auto intro: answered_serves)
  qed (use call_answered(2) [OF assms] in \<open>auto intro: traffic_serves\<close>)
qed

text \<open>
  If the handler keeps the honesty of its server for the requests of \<open>me\<close>, the call keeps the world
  honest; the handler's answer, if it arrives, came from an honest server.
\<close>

lemma call_honest:
  assumes "http_call net address port certs t m path b w = (w', r)"
    and "connection_host address = Inr h" "request_path path = Inr path" "route_of m path = Some route"
    and "honest_world pf node me u expected w"
    and "keeps_honest pf me u (expected h) b route"
  shows "honest_world pf node me u expected w'"
    and "case r of Inl e \<Rightarrow> is_os_error e
      | Inr answer \<Rightarrow> (\<exists>hq rq ac ac' resp. hq_body hq = b \<and> arrives pf me hq rq \<and> traffic pf me (node w h) ac \<and>
          honest_node pf me u (expected h) ac \<and> handle pf route rq ac = (ac', resp) \<and> traffic pf me ac' (node w' h) \<and>
          rendered resp answer)"
proof -
  have h: "honest_node pf me u (expected h) (node w h)" using assms(5) by (simp add: honest_world_def)
  obtain hq where hq: "hq_body hq = b" "answered pf me hq route (node w h) (node w' h) r"
    using call_answered(1) [OF assms(1-4)] by blast
  have "honest_node pf me u (expected h) (node w' h)"
    by (rule answered_honest [OF hq(2) h]) (use assms(6) hq(1) in \<open>auto simp: keeps_honest_def\<close>)
  moreover have "honest_node pf me u (expected a) (node w' a)" if "a \<noteq> h" for a
    using honest_node_traffic [OF call_answered(2) [OF assms(1-4) that]] assms(5) by (simp add: honest_world_def)
  ultimately show "honest_world pf node me u expected w'" unfolding honest_world_def by metis
  show "case r of Inl e \<Rightarrow> is_os_error e
      | Inr answer \<Rightarrow> (\<exists>hq rq ac ac' resp. hq_body hq = b \<and> arrives pf me hq rq \<and> traffic pf me (node w h) ac \<and>
          honest_node pf me u (expected h) ac \<and> handle pf route rq ac = (ac', resp) \<and> traffic pf me ac' (node w' h) \<and>
          rendered resp answer)"
  proof (cases r)
    case (Inr answer)
    then obtain ac1 rq ac2 resp where a: "traffic pf me (node w h) ac1" "arrives pf me hq rq"
        "handle pf route rq ac1 = (ac2, resp)" "traffic pf me ac2 (node w' h)" "rendered resp answer"
      using hq(2) unfolding answered_def by auto
    then show ?thesis using hq(1) honest_node_traffic [OF a(1) h] unfolding Inr sum.case by blast
  qed (use hq(2) in \<open>auto simp: answered_def\<close>)
qed

text \<open>Fetching a share: what comes, if anything comes, is the expected share of that server.\<close>

lemma fetch_honest:
  assumes "retrieve_share net address port certs (PStr u) w = (w', r)"
    and "connection_host address = Inr h" "plain_segment u" "honest_world pf node me u expected w"
    and "\<forall>x. expected h = Some x \<longrightarrow> json_ok x"
  shows "honest_world pf node me u expected w'" "servers_went_on pf (node w) (node w')"
    and "case r of Inl e \<Rightarrow> is_os_error e \<or> e \<in> {ShareNotFoundError, PeerRequestError} | Inr v \<Rightarrow> (\<exists>x. expected h = Some x \<and> v = detuple x)"
    and "stored_shares (node w h) u = expected h \<Longrightarrow> expected h = Some x \<Longrightarrow> is_mine pf me x \<Longrightarrow>
      answers_now net certs w h \<Longrightarrow> \<exists>v. r = Inr v"
proof -
  note path = plain_path(1,3) [OF assms(3)]
  obtain a where call: "http_call net address port certs 10 GET (lit ''/shares/'' @ u) None w = (w', a)"
    and r: "r = (case a of Inl e \<Rightarrow> Inl e
      | Inr (status, body) \<Rightarrow> if status = 404 then Inl ShareNotFoundError
          else if status \<noteq> 200 then Inl PeerRequestError else json_loads_bytes body)"
    using assms(1) by (auto simp: retrieve_share_def doA_def format_value_def split: sum.splits prod.splits)
  have keeps: "keeps_honest pf me u (expected h) None (GetShare u)"
    by (simp add: keeps_honest_def get_share_def)
  note honest = call_honest [OF call assms(2) path assms(4) keeps]
  show "honest_world pf node me u expected w'" by (rule honest(1))
  show "servers_went_on pf (node w) (node w')" by (rule call_went_on [OF call assms(2) path])
  have mine: "json_loads_bytes body = Inr (detuple x) \<and> status = 200"
    if m: "expected h = Some x" "app_ok ac" "stored_shares ac u = Some x" "rendered (Inr (200, x)) (status, body)" for x ac status body
  proof -
    obtain f where "x = PDict f" using m(2,3) by (auto simp: app_ok_def share_entry_def)
    moreover have "json_ok x" using assms(5) m(1) by blast
    ultimately show ?thesis using rendered_dict [OF m(4)] by blast
  qed
  show "case r of Inl e \<Rightarrow> is_os_error e \<or> e \<in> {ShareNotFoundError, PeerRequestError} | Inr v \<Rightarrow> (\<exists>x. expected h = Some x \<and> v = detuple x)"
  proof (cases a)
    case (Inr answer)
    obtain status body where answer: "answer = (status, body)" by (rule prod.exhaust)
    obtain hq rq ac ac' resp where g: "arrives pf me hq rq" "honest_node pf me u (expected h) ac"
        "handle pf (GetShare u) rq ac = (ac', resp)" "rendered resp (status, body)"
      using honest(2) Inr answer by auto
    have ok: "app_ok ac" using g(2) by (simp add: honest_node_def)
    have resp: "resp = (case stored_shares ac u of None \<Rightarrow> Inl (HTTPError 404)
        | Some v \<Rightarrow> if \<exists>owner. owned_by v owner \<and> caller_is pf rq owner then Inr (200, v) else Inl (HTTPError 403))"
      using g(3) unfolding handle.simps get_share_eval [OF ok] prod.inject by (elim conjE) (rule sym)
    show ?thesis
    proof (cases "\<exists>v. stored_shares ac u = Some v \<and> (\<exists>owner. owned_by v owner \<and> caller_is pf rq owner)")
      case True
      then obtain v owner where v: "stored_shares ac u = Some v" "owned_by v owner" "caller_is pf rq owner" by blast
      moreover have "same_name pf owner me" using v(3) g(1) caller_same_name unfolding arrives_def by blast
      ultimately have "is_mine pf me v" by (auto simp: is_mine_def)
      then have "expected h = Some v" using g(2) v(1) by (simp add: honest_node_def)
      moreover have "resp = Inr (200, v)" using resp v by auto
      ultimately have "json_loads_bytes body = Inr (detuple v) \<and> status = 200" "expected h = Some v"
        using mine [OF _ ok v(1)] g(4) by simp_all
      then show ?thesis using r Inr answer by simp
    next
      case False
      then have "\<exists>e. resp = Inl e" using resp by (auto split: option.splits)
      then have "400 \<le> status" using g(4) rendered_error by blast
      then show ?thesis using r Inr answer by simp
    qed
  qed (use r honest(2) in \<open>auto\<close>)
  assume up: "stored_shares (node w h) u = expected h" "expected h = Some x" "is_mine pf me x" "answers_now net certs w h"
  have "\<exists>answer. a = Inr answer"
    using answers_now_call [OF up(4) assms(2) path(1), of port 10 GET None] call by auto
  then obtain status body where answer: "a = Inr (status, body)" by (metis prod.collapse)
  obtain hq rq ac ac' resp where g: "arrives pf me hq rq" "traffic pf me (node w h) ac" "honest_node pf me u (expected h) ac"
      "handle pf (GetShare u) rq ac = (ac', resp)" "rendered resp (status, body)"
    using honest(2) answer by auto
  have ok: "app_ok (node w h)" "app_ok ac" using g(3) assms(4) by (simp_all add: honest_world_def honest_node_def)
  have held: "stored_shares ac u = Some x"
    using serves_shares [OF traffic_serves [OF g(2)] ok(1)] up(1,2) by (auto simp: map_le_def dom_def)
  obtain owner where "owned_by x owner" "caller_is pf rq owner"
    using up(3) g(1) by (auto simp: is_mine_def arrives_def caller_is_def same_name_def)
  then have "resp = Inr (200, x)" using g(4) get_share_eval [OF ok(2), of pf u rq] held by auto
  then have "json_loads_bytes body = Inr (detuple x) \<and> status = 200" using mine [OF up(2) ok(2) held] g(5) by simp
  then show "\<exists>v. r = Inr v" using r answer by simp
qed

text \<open>Sending the expected share keeps the world honest; a success means that the server holds it.\<close>

lemma post_honest:
  assumes "send_share net address port certs share w = (w', r)"
    and "connection_host address = Inr h" "plain_segment u" "py_subscript share (lit ''uuid'') = Inr (PStr u)"
    and "\<And>bs. json_bytes share = Inr bs \<Longrightarrow> json_ok share \<and> expected h = Some (detuple share)"
    and "owned_by (detuple share) me" "honest_world pf node me u expected w"
  shows "honest_world pf node me u expected w'" "servers_went_on pf (node w) (node w')"
    and "r = Inr () \<Longrightarrow> stored_shares (node w' h) u = Some (detuple share) \<and> json_ok share"
proof -
  have "honest_world pf node me u expected w' \<and> servers_went_on pf (node w) (node w') \<and>
    (r = Inr () \<longrightarrow> stored_shares (node w' h) u = Some (detuple share) \<and> json_ok share)"
  proof (cases "json_bytes share")
    case (Inl e)
    then show ?thesis using assms(1,4,7) by (auto simp: send_share_def)
  next
    case (Inr bs)
    note share = assms(5) [OF Inr, THEN conjunct1] assms(5) [OF Inr, THEN conjunct2]
    note path = plain_path(1,4) [OF assms(3)]
    obtain a where call: "http_call net address port certs 10 POST (lit ''/shares/'' @ u) (Some bs) w = (w', a)"
      and r: "r = (case a of Inl e \<Rightarrow> Inl e
        | Inr (status, body) \<Rightarrow> if status \<in> {200, 201} then Inr () else Inl PeerRequestError)"
      using assms(1,4) Inr by (auto simp: send_share_def doA_def format_value_def split: sum.splits prod.splits)
    have json: "rq_json rq = Inr (detuple share)" if "hq_body hq = Some bs" "arrives pf me hq rq" for hq rq
      using that json_bytes_roundtrip [OF share(1) Inr] by (simp add: arrives_def)
    have keeps: "keeps_honest pf me u (expected h) (Some bs) (PostShare u)"
      unfolding keeps_honest_def using store_mine(1) [OF _ _ json assms(6)] share(2) by auto
    note honest = call_honest [OF call assms(2) path assms(7) keeps]
    have "stored_shares (node w' h) u = Some (detuple share)" if success: "r = Inr ()"
    proof -
      obtain status body where a: "a = Inr (status, body)" "status \<in> {200, 201}"
        using r success by (auto split: sum.splits prod.splits if_splits)
      obtain hq rq ac ac' resp where g: "hq_body hq = Some bs" "arrives pf me hq rq" "honest_node pf me u (expected h) ac"
        "store_share pf u rq ac = (ac', resp)" "traffic pf me ac' (node w' h)" "rendered resp (status, body)"
        using honest(2) a(1) by auto
      have n: "honest_node pf me u (Some (detuple share)) ac" using g(3) share(2) by simp
      obtain y where y: "resp = Inr y" using g(6) a(2) rendered_error by (cases resp) fastforce+
      have "stored_shares ac' u = Some (detuple share)"
        by (rule store_mine(2) [OF g(4) n json [OF g(1,2)] assms(6) y])
      moreover have "app_ok ac'" using store_mine(1) [OF g(4) n json [OF g(1,2)] assms(6)] by (simp add: honest_node_def)
      ultimately show ?thesis
        using serves_shares [OF traffic_serves [OF g(5)]] by (auto simp: map_le_def dom_def)
    qed
    then show ?thesis using honest(1) call_went_on [OF call assms(2) path] share(1) by blast
  qed
  then show "honest_world pf node me u expected w'" "servers_went_on pf (node w) (node w')"
    "r = Inr () \<Longrightarrow> stored_shares (node w' h) u = Some (detuple share) \<and> json_ok share" by auto
qed

text \<open>Recording a secret at the own server, and fetching the record.\<close>

lemma record_honest:
  assumes "record_secret net address port certs name (PStr u') t k w = (w', r)"
    and "connection_host address = Inr h" "plain_segment name" "str_ok u'"
    and "own_name_of (node w h) = Inr (PStr me)" "honest_world pf node me u expected w"
  shows "honest_world pf node me u expected w'" "servers_went_on pf (node w) (node w')"
    and "r = Inr v \<Longrightarrow> \<exists>now. stored_secrets (node w' h) name = Some (secret_record (PStr u') t k (utc_now_iso now)) \<and>
      json_ok (secret_body (PStr u') t k)"
proof -
  let ?body = "secret_body (PStr u') t k"
  have "honest_world pf node me u expected w' \<and> servers_went_on pf (node w) (node w') \<and>
    (\<forall>v. r = Inr v \<longrightarrow> (\<exists>now. stored_secrets (node w' h) name = Some (secret_record (PStr u') t k (utc_now_iso now)) \<and>
      json_ok ?body))"
  proof (cases "json_bytes ?body")
    case (Inl e)
    then show ?thesis using assms(1,6) by (auto simp: record_secret_def)
  next
    case (Inr bs)
    have ok: "json_ok ?body"
      using Inr assms(4) by (auto simp: json_bytes_def json_dumps_def bindE_Inr_iff secret_body_def dict_ok_def split: if_splits)
    note path = plain_path(2,6) [OF assms(3)]
    obtain a where call: "http_call net address port certs 10 POST (lit ''/secrets/'' @ name) (Some bs) w = (w', a)"
      and r: "r = (case a of Inl e \<Rightarrow> Inl e
        | Inr (status, body) \<Rightarrow> if status \<in> {200, 201} then json_loads_bytes body else Inl PeerRequestError)"
      using assms(1) Inr by (auto simp: record_secret_def doA_def split: sum.splits prod.splits)
    have keeps: "keeps_honest pf me u (expected h) (Some bs) (PostSecret name)" by (rule keeps_honest_others) simp
    note honest = call_honest [OF call assms(2) path assms(6) keeps]
    have "\<exists>now. stored_secrets (node w' h) name = Some (secret_record (PStr u') t k (utc_now_iso now))" if success: "r = Inr v" for v
    proof -
      obtain status body where a: "a = Inr (status, body)"
        using r success by (auto split: sum.splits)
      obtain hq rq ac ac' resp where g: "hq_body hq = Some bs" "arrives pf me hq rq" "traffic pf me (node w h) ac"
        "honest_node pf me u (expected h) ac" "store_secret_metadata pf name rq ac = (ac', resp)" "traffic pf me ac' (node w' h)"
        using honest(2) a(1) by auto
      have ok1: "app_ok ac" "own_name_of ac = Inr (PStr me)"
        using g(4) serves_own_name [OF traffic_serves [OF g(3)]] assms(5) by (simp_all add: honest_node_def)
      have ok2: "app_ok ac'" "own_name_of ac' = Inr (PStr me)"
        using app_ok_store_secret [OF g(5) ok1(1)] serves_own_name [OF serves_one, of pf "PostSecret name" rq ac ac' resp] g(5) ok1(2)
        by simp_all
      have "rq_json rq = Inr ?body"
        using g(1,2) json_bytes_roundtrip [OF ok Inr] by (simp add: arrives_def) (simp add: secret_body_def)
      moreover obtain now where "rq_now rq = utc_now_iso now" "caller_is pf rq me" using g(2) by (auto simp: arrives_def)
      ultimately have "stored_secrets ac' name = Some (secret_record (PStr u') t k (utc_now_iso now))"
        using store_record_eval [OF ok1 _ _ g(5)] by metis
      then show ?thesis using traffic_secrets [OF g(6) ok2] by auto
    qed
    then show ?thesis using honest(1) call_went_on [OF call assms(2) path] ok by blast
  qed
  then show "honest_world pf node me u expected w'" "servers_went_on pf (node w) (node w')"
    "r = Inr v \<Longrightarrow> \<exists>now. stored_secrets (node w' h) name = Some (secret_record (PStr u') t k (utc_now_iso now)) \<and>
      json_ok ?body" by auto
qed

lemma lookup_honest:
  assumes "fetch_secret_metadata net address port certs name w = (w', r)"
    and "connection_host address = Inr h" "plain_segment name"
    and "own_name_of (node w h) = Inr (PStr me)" "honest_world pf node me u expected w"
    and "stored_secrets (node w h) name = Some rec" "rec = secret_record (PStr u') t k now" "json_ok rec"
  shows "honest_world pf node me u expected w'" "servers_went_on pf (node w) (node w')"
    and "case r of Inl e \<Rightarrow> is_lookup_failure e | Inr v \<Rightarrow> v = rec"
    and "answers_now net certs w h \<Longrightarrow> r = Inr rec"
proof -
  note path = plain_path(2,5) [OF assms(3)]
  obtain a where call: "http_call net address port certs 10 GET (lit ''/secrets/'' @ name) None w = (w', a)"
    and r: "r = (case a of Inl e \<Rightarrow> Inl e
      | Inr (status, body) \<Rightarrow> if status = 404 then Inl SecretNotFoundError
          else if status \<noteq> 200 then Inl PeerRequestError else json_loads_bytes body)"
    using assms(1) by (auto simp: fetch_secret_metadata_def doA_def split: sum.splits prod.splits)
  have keeps: "keeps_honest pf me u (expected h) None (GetSecret name)" by (rule keeps_honest_others) simp
  note honest = call_honest [OF call assms(2) path assms(5) keeps]
  show "honest_world pf node me u expected w'" by (rule honest(1))
  show "servers_went_on pf (node w) (node w')" by (rule call_went_on [OF call assms(2) path])
  have known: "r = Inr rec" if answer: "a = Inr answer" for answer
  proof -
    obtain status body where ans: "answer = (status, body)" by (rule prod.exhaust)
    obtain hq rq ac ac' resp where g: "arrives pf me hq rq" "traffic pf me (node w h) ac" "honest_node pf me u (expected h) ac"
      "get_secret_metadata pf name rq ac = (ac', resp)" "rendered resp (status, body)"
      using honest(2) answer ans by auto
    have "app_ok (node w h)" using assms(5) by (simp add: honest_world_def honest_node_def)
    with assms(4) traffic_secrets [OF g(2)] have "stored_secrets ac = stored_secrets (node w h)" by simp
    then have held: "stored_secrets ac name = Some (secret_record (PStr u') t k now)" using assms(6,7) by simp
    have "app_ok ac" "own_name_of ac = Inr (PStr me)" "caller_is pf rq me"
      using g(1,3) serves_own_name [OF traffic_serves [OF g(2)]] assms(4) by (simp_all add: honest_node_def arrives_def)
    from get_record_eval [OF this held] have "resp = Inr (200, rec)" using g(4) assms(7) by simp
    moreover have "detuple rec = rec" by (simp add: assms(7) secret_record_def)
    moreover obtain d where "rec = PDict d" using assms(7) by (simp add: secret_record_def)
    ultimately have "status = 200" "json_loads_bytes body = Inr rec"
      using rendered_dict [OF _ _ assms(8)] g(5) by metis+
    then show ?thesis using r answer ans by simp
  qed
  show "case r of Inl e \<Rightarrow> is_lookup_failure e | Inr v \<Rightarrow> v = rec"
    using known r honest(2) by (cases a) (auto simp: is_lookup_failure_def)
  assume "answers_now net certs w h"
  then show "r = Inr rec" using answers_now_call [OF _ assms(2) path(1), of net certs w port 10 GET None] call known by auto
qed

end

end
