(* ===== verification/NetworkProperties.thy ===== *)
theory NetworkProperties
  imports Network
begin

text \<open>
  The properties of the whole system: what one command puts on the servers of the network is what
  another brings back, whatever the other hosts ask of those servers in between.
\<close>

section \<open>Which server is to hold which share\<close>

definition position :: "'a \<Rightarrow> 'a list \<Rightarrow> nat" where
  "position a xs = length (takeWhile (\<lambda>x. x \<noteq> a) xs)"

lemma position_nth: "distinct xs \<Longrightarrow> i < length xs \<Longrightarrow> position (xs ! i) xs = i"
proof (induction xs arbitrary: i)
  case (Cons x xs)
  then show ?case by (cases i) (auto simp: position_def)
qed simp

lemma position_less: "a \<in> set xs \<Longrightarrow> position a xs < length xs"
  by (induction xs) (auto simp: position_def)

lemma nth_position: "position a xs < length xs \<Longrightarrow> xs ! position a xs = a"
  unfolding position_def by (metis (mono_tags, lifting) nth_length_takeWhile)

text \<open>
  The \<open>i\<close>-th share for the \<open>i\<close>-th address, if there is one and it can be written as JSON.
\<close>

definition expected_share :: "shamir_secret \<Rightarrow> pystr list \<Rightarrow> pystr \<Rightarrow> pyval option" where
  "expected_share d addresses a =
     (let i = position a addresses in
      if i < length addresses \<and> i < nat (ss_shares d) \<and> json_ok (participant_data d i)
      then Some (detuple (participant_data d i)) else None)"

lemma expected_share_Some:
  "expected_share d addresses a = Some x \<Longrightarrow> position a addresses < nat (ss_shares d) \<and>
     x = detuple (participant_data d (position a addresses)) \<and> json_ok x"
  by (auto simp: expected_share_def Let_def json_ok_detuple split: if_splits)

definition texts_ok :: "shamir_secret \<Rightarrow> bool" where
  "texts_ok d \<longleftrightarrow> (\<exists>date owner name uuid. ss_creation_date d = PStr date \<and> ss_owner d = PStr owner \<and>
     ss_name d = PStr name \<and> ss_uuid d = PStr uuid \<and> list_all str_ok [date, owner, name, uuid])"

lemma participant_json:
  assumes "dealt secret d" "texts_ok d" "json_bytes (participant_data d i) = Inr bs"
  shows "json_ok (participant_data d i)"
proof -
  obtain raw where "ss_secret_hash d = PStr (sha256_hexdigest raw)" using assms(1) by (auto simp: dealt_def)
  moreover have "str_ok (sha256_hexdigest raw)"
    by (rule str_ok_ascii) (auto simp: list_all_iff dest: sha256_hexdigest_ascii)
  moreover have "ints_ok (participant_data d i)"
    using assms(3) by (auto simp: json_bytes_def json_dumps_def bindE_Inr_iff split: if_splits)
  ultimately show ?thesis using assms(2)
    by (auto simp: participant_data_def participant_keys_def texts_ok_def dict_ok_def list_all_iff)
qed

text \<open>A share that may go to an address: the uuid and the owner of the command, and the expected one there.\<close>

definition due :: "pystr \<Rightarrow> pystr \<Rightarrow> (pystr \<Rightarrow> pyval option) \<Rightarrow> pystr \<Rightarrow> pyval \<Rightarrow> bool" where
  "due me u expected a share \<longleftrightarrow> py_subscript share (lit ''uuid'') = Inr (PStr u) \<and> owned_by (detuple share) me \<and>
     (\<forall>bs. json_bytes share = Inr bs \<longrightarrow> json_ok share \<and> expected a = Some (detuple share))"

lemma participant_due:
  assumes "dealt secret d" "texts_ok d" "ss_uuid d = PStr u" "ss_owner d = PStr me"
    and "distinct addresses" "i < length addresses" "i < nat (ss_shares d)"
  shows "due me u (expected_share d addresses) (addresses ! i) (participant_data d i)"
proof -
  have fields: "py_subscript (participant_data d i) (lit ''uuid'') = Inr (PStr u)"
    "owned_by (detuple (participant_data d i)) me"
    by (simp_all add: participant_data_def owned_by_def assms(3,4))
  have "position (addresses ! i) addresses = i" by (rule position_nth [OF assms(5,6)])
  then have "json_bytes (participant_data d i) = Inr bs \<Longrightarrow>
      json_ok (participant_data d i) \<and> expected_share d addresses (addresses ! i) = Some (detuple (participant_data d i))" for bs
    using participant_json [OF assms(1,2)] assms(6,7) by (simp add: expected_share_def)
  with fields show ?thesis by (auto simp: due_def)
qed

section \<open>Publishing and asking\<close>

text \<open>Peers with names and addresses of their own.\<close>

definition peers_at :: "(pyval \<Rightarrow> pystr) \<Rightarrow> (pyval \<Rightarrow> pystr) \<Rightarrow> pyval list \<Rightarrow> bool" where
  "peers_at addr nm peers \<longleftrightarrow> distinct peers \<and> inj_on nm (set peers) \<and> inj_on addr (set peers) \<and>
     (\<forall>p \<in> set peers. py_subscript p (lit ''name'') = Inr (PStr (nm p)) \<and>
        (\<exists>address. py_subscript p (lit ''address'') = Inr address \<and> connection_host address = Inr (addr p)))"

text \<open>These servers hold what they are expected to hold.\<close>

definition held_at ::
  "('w \<Rightarrow> pystr \<Rightarrow> app_config) \<Rightarrow> pystr \<Rightarrow> (pystr \<Rightarrow> pyval option) \<Rightarrow> pystr set \<Rightarrow> 'w \<Rightarrow> bool" where
  "held_at node u expected A w \<longleftrightarrow>
     (\<forall>a \<in> A. expected a \<noteq> None \<and> stored_shares (node w a) u = expected a)"

lemma held_at_went_on:
  assumes "held_at node u expected A w" "servers_went_on pf (node w) (node w')"
    and "honest_world pf node me u expected w"
  shows "held_at node u expected A w'"
  using assms(1) went_on_stored [OF assms(2,3)] by (fastforce simp: held_at_def)

lemma publish_step:
  assumes "publish_shares net pf port certs ((peer, share) # rest) k s = (s', Inr n)"
    and "py_subscript peer (lit ''address'') = Inr address"
  shows "\<exists>w1 r1 s1. send_share net address port certs share (se_world s) = (w1, r1) \<and> se_world s1 = w1 \<and>
    se_files s1 = se_files s \<and> publish_shares net pf port certs rest (if r1 = Inr () then k + 1 else k) s1 = (s', Inr n)"
proof -
  obtain w1 r1 where send: "send_share net address port certs share (se_world s) = (w1, r1)" by (rule prod.exhaust)
  have line: "peer_line net stream peer t s0 = (s1, r) \<Longrightarrow> se_world s1 = se_world s0 \<and> se_files s1 = se_files s0" for stream t s0 s1 r
    using peer_line_log by blast
  show ?thesis
  proof (cases r1)
    case (Inl e)
    then show ?thesis using assms send
      by (auto simp: doA_def tryA_def worldA_def split: sum.splits prod.splits if_splits dest!: line)
  next
    case (Inr u)
    then show ?thesis using assms send
      by (auto simp: doA_def tryA_def worldA_def split: sum.splits prod.splits if_splits dest!: line)
  qed
qed

context server_network begin

lemma publish_honest:
  assumes "publish_shares net pf' port certs pairs k s = (s', Inr n)"
    and "\<forall>(p, share) \<in> set pairs. due me u expected (addr p) share \<and>
      (\<exists>address. py_subscript p (lit ''address'') = Inr address \<and> connection_host address = Inr (addr p))"
    and "distinct (map fst pairs)" "plain_segment u" "honest_world pf node me u expected (se_world s)"
  shows "\<exists>H \<subseteq> fst ` set pairs. n = k + int (card H) \<and> honest_world pf node me u expected (se_world s') \<and>
    servers_went_on pf (node (se_world s)) (node (se_world s')) \<and> se_files s' = se_files s \<and>
    held_at node u expected (addr ` H) (se_world s')"
  using assms
proof (induction pairs arbitrary: k s)
  case Nil
  then show ?case by (intro exI [of _ "{}"]) (auto simp: held_at_def)
next
  case (Cons pair pairs)
  obtain p share where pair: "pair = (p, share)" by (rule prod.exhaust)
  obtain address where p: "due me u expected (addr p) share" "py_subscript p (lit ''address'') = Inr address"
    "connection_host address = Inr (addr p)" using Cons.prems(2) pair by auto
  obtain w1 r1 s1 where step: "send_share net address port certs share (se_world s) = (w1, r1)" "se_world s1 = w1"
    "se_files s1 = se_files s" "publish_shares net pf' port certs pairs (if r1 = Inr () then k + 1 else k) s1 = (s', Inr n)"
    using publish_step [OF _ p(2)] Cons.prems(1) pair by metis
  have d: "py_subscript share (lit ''uuid'') = Inr (PStr u)" "owned_by (detuple share) me"
    "\<And>bs. json_bytes share = Inr bs \<Longrightarrow> json_ok share \<and> expected (addr p) = Some (detuple share)"
    using p(1) by (auto simp: due_def)
  note post = post_honest [OF step(1) p(3) Cons.prems(4) d(1,3,2) Cons.prems(5)]
  have w1: "honest_world pf node me u expected (se_world s1)" "servers_went_on pf (node (se_world s)) (node (se_world s1))"
    using post(1,2) step(2) by simp_all
  obtain H where H: "H \<subseteq> fst ` set pairs" "n = (if r1 = Inr () then k + 1 else k) + int (card H)"
    "honest_world pf node me u expected (se_world s')" "servers_went_on pf (node (se_world s1)) (node (se_world s'))"
    "se_files s' = se_files s1" "held_at node u expected (addr ` H) (se_world s')"
    using Cons.IH [OF step(4) _ _ Cons.prems(4) w1(1)] Cons.prems(2,3) by auto
  note on = went_on_trans [OF H(4) w1(2)]
  show ?case
  proof (cases "r1 = Inr ()")
    case True
    have stored: "stored_shares (node w1 (addr p)) u = Some (detuple share)" "json_ok share" using post(3) True by auto
    obtain bs where "json_bytes share = Inr bs" using json_bytes_total [OF stored(2)] by blast
    then have "held_at node u expected {addr p} (se_world s1)" using d(3) stored(1) step(2) by (simp add: held_at_def)
    from held_at_went_on [OF this H(4) w1(1)] H(6) have "held_at node u expected (addr ` insert p H) (se_world s')"
      by (simp add: held_at_def)
    moreover have "p \<notin> fst ` set pairs" using Cons.prems(3) pair by auto
    then have "p \<notin> H" using H(1) by blast
    moreover have "finite H" using H(1) by (rule finite_subset) simp
    ultimately have "n = k + int (card (insert p H))" "held_at node u expected (addr ` insert p H) (se_world s')"
      using H(2) True by simp_all
    then show ?thesis using H(1,3,5) on step(3) pair by (intro exI [of _ "insert p H"]) auto
  next
    case False
    then show ?thesis using H on step(3) by (intro exI [of _ H]) auto
  qed
qed

text \<open>The servers are honest peers for everything that later asks them.\<close>

lemma servers_honest:
  assumes "peers_at addr nm peers" "dealt secret d" "plain_segment u"
    and "expected = expected_share d (map addr peers)"
  shows "honest_peers net (\<lambda>w. honest_world pf node me u expected w \<and> held_at node u expected A w) False port certs (PStr u) d
    (\<lambda>p. position (addr p) (map addr peers)) nm peers"
proof -
  let ?ok = "\<lambda>w. honest_world pf node me u expected w \<and> held_at node u expected A w"
  let ?idx = "\<lambda>p. position (addr p) (map addr peers)"
  have pa: "distinct peers" "inj_on nm (set peers)" "inj_on addr (set peers)" using assms(1) by (auto simp: peers_at_def)
  have ask: "?ok (fst (ask_peer net port certs (PStr u) p w)) \<and> honest_answer False d (?idx p) (snd (ask_peer net port certs (PStr u) p w))"
    if p: "p \<in> set peers" and ok: "?ok w" for p w
  proof -
    obtain address where a: "py_subscript p (lit ''address'') = Inr address" "connection_host address = Inr (addr p)"
      using assms(1) p by (auto simp: peers_at_def)
    obtain w' r where ret: "retrieve_share net address port certs (PStr u) w = (w', r)" by (rule prod.exhaust)
    have json: "\<forall>x. expected (addr p) = Some x \<longrightarrow> json_ok x" using expected_share_Some assms(4) by blast
    note got = fetch_honest [OF ret a(2) assms(3) conjunct1 [OF ok] json]
    have "honest_answer False d (?idx p) r"
      using got(3) share_view_detuple [OF assms(2), of "?idx p"] assms(4)
      by (auto simp: honest_answer_def split: sum.splits dest!: expected_share_Some)
    moreover have "held_at node u expected A w'" by (rule held_at_went_on [OF conjunct2 [OF ok] got(2) conjunct1 [OF ok]])
    ultimately show ?thesis using got(1) by (simp add: ask_peer_def a(1) ret)
  qed
  have "?ok (net_sleep net n w)" if ok: "?ok w" for n w
  proof -
    have t: "traffic pf me (node w a) (node (net_sleep net n w) a)" for a using connected by (simp add: connects_def)
    then have "servers_went_on pf (node w) (node (net_sleep net n w))" unfolding servers_went_on_def using traffic_serves [OF t] by blast
    then have "held_at node u expected A (net_sleep net n w)" using held_at_went_on [OF conjunct2 [OF ok] _ conjunct1 [OF ok]] by blast
    then show ?thesis using ok honest_node_traffic [OF t] by (simp add: honest_world_def)
  qed
  moreover have "inj_on ?idx (set peers)"
  proof (rule inj_onI)
    fix p q assume pq: "p \<in> set peers" "q \<in> set peers" "?idx p = ?idx q"
    have "map addr peers ! ?idx r = addr r" if "r \<in> set peers" for r
      using that position_less [of "addr r" "map addr peers"] nth_position [of "addr r" "map addr peers"] by simp
    then have "addr p = addr q" using pq by metis
    then show "p = q" using pa(3) pq(1,2) by (simp add: inj_on_def)
  qed
  then have "inj_on ?idx {p \<in> set peers. ?idx p < nat (ss_shares d)}" by (rule inj_on_subset) auto
  ultimately show ?thesis using pa(1,2) ask assms(1) by (auto simp: honest_peers_def peers_at_def)
qed

lemma held_is_sent:
  assumes "peers_at addr nm peers" "dealt secret d" "plain_segment u" "ss_owner d = PStr me"
    and "expected = expected_share d (map addr peers)" "p \<in> set peers" "addr p \<in> A"
    and "honest_world pf node me u expected w" "held_at node u expected A w" "answers_now net certs w (addr p)"
  shows "\<exists>w' v. ask_peer net port certs (PStr u) p w = (w', Inr v)"
proof -
  obtain address where a: "py_subscript p (lit ''address'') = Inr address" "connection_host address = Inr (addr p)"
    using assms(1,6) by (auto simp: peers_at_def)
  obtain w' r where ret: "retrieve_share net address port certs (PStr u) w = (w', r)" by (rule prod.exhaust)
  have json: "\<forall>x. expected (addr p) = Some x \<longrightarrow> json_ok x" using expected_share_Some assms(5) by blast
  have held: "expected (addr p) \<noteq> None" "stored_shares (node w (addr p)) u = expected (addr p)"
    using assms(7,9) by (auto simp: held_at_def)
  then obtain x where x: "expected (addr p) = Some x" by auto
  then have "x = detuple (participant_data d (position (addr p) (map addr peers)))"
    using expected_share_Some assms(5) by blast
  then have "owned_by x me" by (simp add: owned_by_def participant_data_def assms(4))
  then have "is_mine pf me x" by (auto simp: is_mine_def same_name_def)
  from fetch_honest(4) [OF ret a(2) assms(3,8) json held(2) x this assms(10)]
  show ?thesis using a(1) ret by (auto simp: ask_peer_def)
qed

lemma servers_reachable:
  assumes "peers_at addr nm peers" "dealt secret d" "plain_segment u" "ss_owner d = PStr me"
    and "expected = expected_share d (map addr peers)" "B \<subseteq> set peers" "addr ` B \<subseteq> A" "answers_at net certs U" "addr ` B \<subseteq> U"
  shows "reachable_set net (\<lambda>w. honest_world pf node me u expected w \<and> held_at node u expected A w) port certs (PStr u) B"
  unfolding reachable_set_def
proof (intro ballI allI impI)
  fix p w assume "p \<in> B" and ok: "honest_world pf node me u expected w \<and> held_at node u expected A w"
  then have p: "p \<in> set peers" "addr p \<in> A" "answers_now net certs w (addr p)"
    using assms(6-9) by (auto simp: answers_at_def)
  show "\<exists>w' v. ask_peer net port certs (PStr u) p w = (w', Inr v)"
    by (rule held_is_sent [OF assms(1-5) p(1,2) conjunct1 [OF ok] conjunct2 [OF ok] p(3)])
qed

text \<open>The own server under its loopback address.\<close>

abbreviation own_server :: "'w \<Rightarrow> app_config" where
  "own_server w \<equiv> node w (lit ''127.0.0.1'')"

text \<open>What a successful \<open>store-secret\<close> leaves on the servers.\<close>

lemma store_secret_leaves:
  assumes "certs = cert_paths basedir cfg" "own_name_and_peers basedir (se_files s) = Inr (PStr me, peers)"
    and "peers_at addr nm peers" "plain_segment name" "plain_segment uuid4" "str_ok me" "str_ok now"
    and "\<And>a. honest_node pf me uuid4 None (node (se_world s) a)"
    and "own_name_of (own_server (se_world s)) = Inr (PStr me)"
    and "store_secret_cmd net pf tape uuid4 now stdin basedir cfg name secret shares_override treshold_override s = Some (s', Inr ())"
  shows "\<exists>port shares treshold dealer H now' n.
    cfg_getint (pf_int pf) cfg (lit ''server-port'') None = Inr port \<and>
    shares_and_treshold (int (length peers)) shares_override treshold_override = Inr (shares, treshold) \<and>
    dealt (case secret of None \<Rightarrow> without_newline stdin | Some v \<Rightarrow> v) dealer \<and> ss_name dealer = PStr name \<and>
    ss_owner dealer = PStr me \<and> ss_uuid dealer = PStr uuid4 \<and> ss_treshold dealer = treshold \<and>
    H \<subseteq> set peers \<and> 2 \<le> treshold \<and> treshold \<le> n \<and> n = int (card H) \<and>
    honest_world pf node me uuid4 (expected_share dealer (map addr peers)) (se_world s') \<and>
    held_at node uuid4 (expected_share dealer (map addr peers)) (addr ` H) (se_world s') \<and>
    own_name_of (own_server (se_world s')) = Inr (PStr me) \<and> json_ok (secret_body (PStr uuid4) treshold n) \<and>
    stored_secrets (own_server (se_world s')) name = Some (secret_record (PStr uuid4) treshold n (utc_now_iso now'))"
proof -
  let ?secret = "case secret of None \<Rightarrow> without_newline stdin | Some v \<Rightarrow> v"
  obtain port shares treshold obj dealer tape' where prep: "cfg_getint (pf_int pf) cfg (lit ''server-port'') None = Inr port"
      "shares_and_treshold (int (length peers)) shares_override treshold_override = Inr (shares, treshold)"
      "shamir_new (PStr name) (PStr me) (Some shares) (Some treshold) uuid4 = Inr obj"
      "create_secret ?secret now tape obj = Some (Inr dealer, tape')"
    using assms(2,10) by (auto simp: store_secret_cmd_def bindE_Inl_iff bindE_Inr_iff split: sum.splits if_splits option.splits prod.splits)
  have counts: "2 \<le> treshold" "treshold \<le> shares" "shares \<le> int (length peers)"
    using prep(2) by (auto simp: shares_and_treshold_def Let_def split: if_splits)
  have "shamir_init name me shares treshold uuid4 = Inr obj"
    using prep(3) counts by (auto simp: shamir_new_def shamir_init_def split: if_splits)
  from create_secret_dealt [OF this prep(4)]
  have d: "dealt ?secret dealer" "ss_treshold dealer = treshold" "ss_shares dealer = shares" "ss_name dealer = PStr name"
    "ss_owner dealer = PStr me" "ss_uuid dealer = PStr uuid4" "ss_creation_date dealer = PStr now" by auto
  have plain: "str_ok v" if "plain_segment v" for v
    using plain_ascii [OF that] by (intro str_ok_ascii) (auto simp: list_all_iff)
  have texts: "texts_ok dealer" using d(4-7) plain [OF assms(4)] plain [OF assms(5)] assms(6,7) by (auto simp: texts_ok_def)
  let ?x = "expected_share dealer (map addr peers)"
  let ?pairs = "zip (slice_to shares peers) (map (participant_data dealer) [0..<nat shares])"
  have slice: "slice_to shares peers = take (nat shares) peers" using counts by (simp add: slice_to_def)
  have len: "length (take (nat shares) peers) = nat shares" using counts by simp
  obtain s1 s2 successes where run: "publish_shares net pf port certs ?pairs 0 s1 = (s2, Inr successes)"
      "se_world s1 = se_world s" "se_files s1 = se_files s"
      "record_own_secret net pf port certs name (PStr uuid4) shares treshold successes s2 = (s', Inr ())"
    using assms(1,2,10) prep iterate_participants_dealt [OF d(1)] d(3,6)
    by (auto simp: store_secret_cmd_def doA_Inr_iff echoA_def split: if_splits)
  have pa: "distinct peers" "inj_on addr (set peers)" "distinct (map addr peers)"
    using assms(3) by (auto simp: peers_at_def distinct_map)
  have due: "due me uuid4 ?x (addr p) share \<and> (\<exists>address. py_subscript p (lit ''address'') = Inr address \<and> connection_host address = Inr (addr p))"
    if ps: "(p, share) \<in> set ?pairs" for p share
  proof -
    obtain i where i: "i < nat shares" "p = peers ! i" "share = participant_data dealer i"
      using ps len by (auto simp: slice set_zip)
    then have "i < length peers" using counts by linarith
    then have "p \<in> set peers" "due me uuid4 ?x (addr p) share"
      using participant_due [OF d(1) texts d(6,5) pa(3), of i] i d(3) by simp_all
    then show ?thesis using assms(3) by (auto simp: peers_at_def)
  qed
  have dist: "distinct (map fst ?pairs)" using pa(1) len by (simp add: slice)
  have start: "honest_world pf node me uuid4 ?x (se_world s1)"
    using assms(8) run(2) by (auto simp: honest_world_def honest_node_def)
  have all_due: "\<forall>(p, share) \<in> set ?pairs. due me uuid4 ?x (addr p) share \<and>
      (\<exists>address. py_subscript p (lit ''address'') = Inr address \<and> connection_host address = Inr (addr p))"
    using due by (intro ballI case_prodI2) blast
  obtain H where H: "H \<subseteq> fst ` set ?pairs" "successes = int (card H)" "honest_world pf node me uuid4 ?x (se_world s2)"
    "servers_went_on pf (node (se_world s1)) (node (se_world s2))" "se_files s2 = se_files s1"
    "held_at node uuid4 ?x (addr ` H) (se_world s2)"
    using publish_honest [OF run(1) all_due dist assms(5) start] by auto
  have "fst ` set ?pairs \<subseteq> set peers" by (auto simp: slice dest!: set_zip_leftD in_set_takeD)
  then have sub: "H \<subseteq> set peers" using H(1) by blast
  have own2: "own_name_of (own_server (se_world s2)) = Inr (PStr me)"
    using went_on_own_name [OF H(4)] run(2) assms(9) by simp
  obtain w3 saved where rec: "treshold \<le> successes" "record_secret net (PStr (lit ''127.0.0.1'')) port certs name
      (PStr uuid4) treshold successes (se_world s2) = (w3, Inr saved)" "se_world s' = w3"
    using run(4) by (auto simp: record_own_secret_def doA_def tryA_def worldA_def echoA_def split: if_splits sum.splits prod.splits)
  note r = record_honest [OF rec(2) localhost assms(4) plain [OF assms(5)] own2 H(3)]
  obtain now' where "stored_secrets (own_server w3) name = Some (secret_record (PStr uuid4) treshold successes (utc_now_iso now'))"
    "json_ok (secret_body (PStr uuid4) treshold successes)" using r(3) [OF refl] by blast
  moreover have "own_name_of (own_server w3) = Inr (PStr me)"
    using went_on_own_name [OF r(2)] own2 by simp
  ultimately show ?thesis
    using prep(1,2) d(1,2,4-6) sub counts(1) rec(1,3) H(2) r(1) held_at_went_on [OF H(6) r(2) H(3)] by blast
qed

text \<open>What \<open>get-secret\<close> makes of it, from every state that the other hosts lead to.\<close>

lemma get_secret_brings_back:
  assumes "certs = cert_paths basedir cfg" "own_name_and_peers basedir (se_files s) = Inr (PStr me, peers)"
    and "peers_at addr nm peers" "plain_segment name" "plain_segment u" "str_ok u"
    and "cfg_getint (pf_int pf) cfg (lit ''server-port'') None = Inr port"
    and "dealt secret dealer" "ss_name dealer = PStr name" "ss_owner dealer = PStr me"
    and "2 \<le> t" "t \<le> n" "json_ok (secret_body (PStr u) t n)"
    and "honest_world pf node me u (expected_share dealer (map addr peers)) (se_world s)"
    and "held_at node u (expected_share dealer (map addr peers)) A (se_world s)"
    and "own_name_of (own_server (se_world s)) = Inr (PStr me)"
    and "stored_secrets (own_server (se_world s)) name = Some (secret_record (PStr u) t n (utc_now_iso now))"
    and "\<And>w xs. mset (net_shuffle net w xs) = mset xs"
  shows "printed_or_nothing s secret (get_secret_cmd net pf uuid4 basedir cfg name s)"
    and "\<lbrakk>B \<subseteq> set peers; addr ` B \<subseteq> A; ss_treshold dealer \<le> int (card B);
      answers_at net certs (insert (lit ''127.0.0.1'') (addr ` B))\<rbrakk> \<Longrightarrow>
      snd (get_secret_cmd net pf uuid4 basedir cfg name s) = Inr ()"
proof -
  let ?x = "expected_share dealer (map addr peers)"
  let ?ok = "\<lambda>w. honest_world pf node me u ?x w \<and> held_at node u ?x A w"
  let ?rec = "secret_record (PStr u) t n (utc_now_iso now)"
  obtain w r where look: "fetch_secret_metadata net (PStr (lit ''127.0.0.1'')) port certs name (se_world s) = (w, r)"
    by (rule prod.exhaust)
  have "json_ok ?rec" using assms(13) utc_str_ok by (simp add: secret_record_def secret_body_def dict_ok_def)
  note look_ok = lookup_honest [OF look localhost assms(4,16,14,17) refl this]
  have ok: "?ok w" using look_ok(1) held_at_went_on [OF assms(15) look_ok(2) assms(14)] by blast
  note honest = servers_honest [OF assms(3,8,5) refl, of A port]
  have found: "False \<and> broken_off s (get_secret_cmd net pf uuid4 basedir cfg name s) \<or> printed_or_nothing s secret (get_secret_cmd net pf uuid4 basedir cfg name s) \<and>
    (\<forall>B. reachable_set net ?ok port certs (PStr u) B \<longrightarrow> B \<subseteq> set peers \<longrightarrow> ss_treshold dealer \<le> int (card B) \<longrightarrow>
       snd (get_secret_cmd net pf uuid4 basedir cfg name s) = Inr ())" if "r = Inr ?rec"
    unfolding assms(1)
    by (rule get_secret_honest [OF assms(7) look [unfolded that assms(1) secret_record_def] _ _ _ assms(11,12,2,8-10)
          honest [unfolded assms(1)] assms(18) ok]) simp_all
  show "printed_or_nothing s secret (get_secret_cmd net pf uuid4 basedir cfg name s)"
  proof (cases r)
    case (Inl e)
    then have "get_secret_cmd net pf uuid4 basedir cfg name s = (s\<lparr>se_world := w\<rparr>, Inl ClickException)"
      using look look_ok(3) assms(1,7) by (simp add: get_secret_cmd_def doA_def tryA_def worldA_def)
    then show ?thesis by (auto simp: printed_or_nothing_def intro: exI [of _ "[]"])
  qed (use found look_ok(3) in auto)
  assume B: "B \<subseteq> set peers" "addr ` B \<subseteq> A" "ss_treshold dealer \<le> int (card B)"
    "answers_at net certs (insert (lit ''127.0.0.1'') (addr ` B))"
  have "r = Inr ?rec" by (rule look_ok(4)) (use B(4) in \<open>simp add: answers_at_def\<close>)
  moreover have "reachable_set net ?ok port certs (PStr u) B"
    by (rule servers_reachable [OF assms(3,8,5,10) refl B(1,2,4)]) auto
  ultimately show "snd (get_secret_cmd net pf uuid4 basedir cfg name s) = Inr ()" using found B(1,3) by blast
qed

end

section \<open>What was stored is brought back\<close>

text \<open>
  C1: what \<open>store-secret\<close> has stored, \<open>get-secret\<close> brings back. If the command succeeds, then whatever all
  the other hosts ask of the servers afterwards, \<open>get-secret\<close> prints exactly the secret or ends with an
  error and prints nothing; and there are peers, at least a treshold of them, of which any treshold
  many together with the own server are enough for it to print the secret. Beforehand the servers hold
  nothing of this host under the fresh uuid.
\<close>

theorem stored_secret_is_brought_back:
  assumes "connects net pf node me (cert_paths basedir cfg)"
    and "own_name_and_peers basedir (se_files s) = Inr (PStr me, peers)" "peers_at addr nm peers"
    and "plain_segment name" "plain_segment uuid4" "str_ok me" "str_ok now"
    and "\<And>a. honest_node pf me uuid4 None (node (se_world s) a)"
    and "own_name_of (node (se_world s) (lit ''127.0.0.1'')) = Inr (PStr me)"
    and "store_secret_cmd net pf tape uuid4 now stdin basedir cfg name (Some secret) shares_override treshold_override s =
      Some (s1, Inr ())"
    and "\<And>a. traffic pf me (node (se_world s1) a) (node (se_world s2) a)" "se_files s2 = se_files s"
    and "\<And>w xs. mset (net_shuffle net w xs) = mset xs"
  shows "printed_or_nothing s2 secret (get_secret_cmd net pf uuid' basedir cfg name s2) \<and>
    (\<exists>shares treshold H. shares_and_treshold (int (length peers)) shares_override treshold_override = Inr (shares, treshold) \<and>
       H \<subseteq> set peers \<and> treshold \<le> int (card H) \<and>
       (\<forall>B. B \<subseteq> H \<longrightarrow> treshold \<le> int (card B) \<longrightarrow>
          answers_at net (cert_paths basedir cfg) (insert (lit ''127.0.0.1'') (addr ` B)) \<longrightarrow>
          snd (get_secret_cmd net pf uuid' basedir cfg name s2) = Inr ()))"
proof -
  note here = server_network.intro [OF assms(1)]
  obtain port shares treshold dealer H now' n where left: "cfg_getint (pf_int pf) cfg (lit ''server-port'') None = Inr port"
    "shares_and_treshold (int (length peers)) shares_override treshold_override = Inr (shares, treshold)"
    "dealt secret dealer" "ss_name dealer = PStr name" "ss_owner dealer = PStr me" "ss_uuid dealer = PStr uuid4"
    "ss_treshold dealer = treshold" "H \<subseteq> set peers" "2 \<le> treshold" "treshold \<le> n" "n = int (card H)"
    "honest_world pf node me uuid4 (expected_share dealer (map addr peers)) (se_world s1)"
    "held_at node uuid4 (expected_share dealer (map addr peers)) (addr ` H) (se_world s1)"
    "own_name_of (node (se_world s1) (lit ''127.0.0.1'')) = Inr (PStr me)" "json_ok (secret_body (PStr uuid4) treshold n)"
    "stored_secrets (node (se_world s1) (lit ''127.0.0.1'')) name = Some (secret_record (PStr uuid4) treshold n (utc_now_iso now'))"
    using server_network.store_secret_leaves [OF here refl assms(2-10)] unfolding option.case by blast
  have on: "servers_went_on pf (node (se_world s1)) (node (se_world s2))"
    unfolding servers_went_on_def using traffic_serves [OF assms(11)] by blast
  have later: "honest_world pf node me uuid4 (expected_share dealer (map addr peers)) (se_world s2)"
    using left(12) honest_node_traffic [OF assms(11)] by (simp add: honest_world_def)
  have "app_ok (node (se_world s1) (lit ''127.0.0.1''))" using left(12) by (simp add: honest_world_def honest_node_def)
  then have rec: "stored_secrets (node (se_world s2) (lit ''127.0.0.1'')) name = Some (secret_record (PStr uuid4) treshold n (utc_now_iso now'))"
    using traffic_secrets [OF assms(11) _ left(14)] left(16) by simp
  have own: "own_name_of (node (se_world s2) (lit ''127.0.0.1'')) = Inr (PStr me)"
    using went_on_own_name [OF on] left(14) by simp
  have files: "own_name_and_peers basedir (se_files s2) = Inr (PStr me, peers)" using assms(2,12) by simp
  have uuid: "str_ok uuid4" using left(15) by (simp add: secret_body_def)
  note held = held_at_went_on [OF left(13) on left(12)]
  note brings = server_network.get_secret_brings_back [OF here refl files assms(3-5) uuid left(1,3-5,9,10,15) later
      held own rec assms(13)]
  show ?thesis
  proof (rule conjI [OF brings(1)], rule exI [of _ shares], rule exI [of _ treshold], rule exI [of _ H])
    show "shares_and_treshold (int (length peers)) shares_override treshold_override = Inr (shares, treshold) \<and>
       H \<subseteq> set peers \<and> treshold \<le> int (card H) \<and>
       (\<forall>B. B \<subseteq> H \<longrightarrow> treshold \<le> int (card B) \<longrightarrow>
          answers_at net (cert_paths basedir cfg) (insert (lit ''127.0.0.1'') (addr ` B)) \<longrightarrow>
          snd (get_secret_cmd net pf uuid' basedir cfg name s2) = Inr ())"
    proof (intro conjI allI impI)
      fix B assume B: "B \<subseteq> H" "treshold \<le> int (card B)"
        "answers_at net (cert_paths basedir cfg) (insert (lit ''127.0.0.1'') (addr ` B))"
      show "snd (get_secret_cmd net pf uuid' basedir cfg name s2) = Inr ()"
        by (rule brings(2) [OF _ _ _ B(3)]) (use B(1,2) left(7,8) in auto)
    qed (use left(2,8,10,11) in auto)
  qed
qed

section \<open>A worked network\<close>

text \<open>
  The network that runs the servers and a clock and nothing else: alice's requests are dispatched to the
  server at their address, and every answer arrives.
\<close>

definition cluster_request :: "http_request \<Rightarrow> request" where
  "cluster_request hq = \<lparr>rq_peercert = Some [[(lit ''commonName'', lit ''alice'')]],
     rq_json = (case hq_body hq of None \<Rightarrow> Inr PNone | Some body \<Rightarrow> json_loads_bytes body),
     rq_now = utc_now_iso (example_time 0 0), rq_io = example_io Finish\<rparr>"

definition cluster_answer :: "response \<Rightarrow> nat \<times> byte list" where
  "cluster_answer resp = (case resp of
     Inr (code, PDict d) \<Rightarrow> (case json_bytes (PDict d) of Inr bs \<Rightarrow> (code, bs) | Inl _ \<Rightarrow> (500, []))
   | Inr (code, _) \<Rightarrow> (code, [])
   | Inl _ \<Rightarrow> (if 400 \<le> status_of resp then status_of resp else 500, []))"

type_synonym cluster = "(pystr \<Rightarrow> app_config) \<times> nat"

definition cluster_net :: "cluster net" where
  "cluster_net = \<lparr>net_certs = (\<lambda>_ _. Inr ()),
     net_exchange = (\<lambda>rq w. case route_of (hq_method rq) (hq_path rq) of
         None \<Rightarrow> (w, Inr (404, []))
       | Some route \<Rightarrow>
           (case handle example_platform route (cluster_request rq) (fst w (hq_address rq)) of
              (ac, resp) \<Rightarrow> (((fst w)(hq_address rq := ac), snd w), Inr (cluster_answer resp)))),
     net_sleep = (\<lambda>n (servers, time). (servers, time + n)), net_shuffle = (\<lambda>_ xs. xs), net_format = (\<lambda>_. [])\<rparr>"

lemma cluster_answer_rendered: "rendered resp (cluster_answer resp)"
  by (auto simp: cluster_answer_def rendered_def split: sum.splits prod.splits pyval.splits)

lemma cluster_arrives: "arrives example_platform (lit ''alice'') hq (cluster_request hq)"
proof -
  have "caller_is example_platform (cluster_request hq) (lit ''alice'')"
    by (simp add: caller_is_def cluster_request_def client_common_name_def hostname_from_common_name_def
        first_label_def lit_def)
  moreover have "\<exists>t. is_time t \<and> rq_now (cluster_request hq) = utc_now_iso t"
    by (rule exI [of _ "example_time 0 0"]) (simp add: is_time_def example_time_def cluster_request_def)
  ultimately show ?thesis by (simp add: arrives_def cluster_request_def)
qed

lemma cluster_connects: "connects cluster_net example_platform fst (lit ''alice'') certs"
  unfolding connects_def
proof (intro conjI allI impI)
  fix rq route a and w w' :: cluster and r
  assume r: "route_of (hq_method rq) (hq_path rq) = Some route" and ex: "net_exchange cluster_net rq w = (w', r)"
  obtain ac resp where h: "handle example_platform route (cluster_request rq) (fst w (hq_address rq)) = (ac, resp)"
    by (rule prod.exhaust)
  have w': "w' = ((fst w)(hq_address rq := ac), snd w)" "r = Inr (cluster_answer resp)"
    using ex r h by (simp_all add: cluster_net_def)
  then show "answered example_platform (lit ''alice'') rq route (fst w (hq_address rq)) (fst w' (hq_address rq)) r"
    using answered_now [OF cluster_arrives h, of r] cluster_answer_rendered by simp
  assume "a \<noteq> hq_address rq"
  then show "traffic example_platform (lit ''alice'') (fst w a) (fst w' a)" using w'(1) by (simp add: traffic.quiet)
qed (simp_all add: cluster_net_def traffic.quiet split: prod.split)

interpretation cluster: server_network cluster_net example_platform fst "lit ''alice''" certs for certs
  by (rule server_network.intro [OF cluster_connects])

text \<open>Nothing is stored yet; alice's own server is the one at the loopback address.\<close>

definition cluster_start :: "pystr \<Rightarrow> app_config" where
  "cluster_start = (\<lambda>_. example_app)(lit ''127.0.0.1'' :=
     example_app\<lparr>ac_hosts := default_hosts_data (lit ''alice'') (lit ''now'') 59222\<rparr>)"

lemma cluster_fresh: "honest_node example_platform (lit ''alice'') u None (cluster_start a)"
  using example_app_ok example_no_shares
  by (auto simp: honest_node_def cluster_start_def app_ok_def stored_shares_def stored_secrets_def)

lemma cluster_own: "own_name_of (cluster_start (lit ''127.0.0.1'')) = Inr (PStr (lit ''alice''))"
  by (simp add: cluster_start_def own_name_of_def default_hosts_data_def own_host_entry_def hosts_items_def
      record_get_def dict_get_def named_record_def dict_merge_def Let_def)

text \<open>The dealer of two shares of \<open>ClientProperties\<close>, under any name.\<close>

abbreviation named_dealer :: "pystr \<Rightarrow> shamir_secret" where
  "named_dealer n \<equiv> pair_dealer\<lparr>ss_name := PStr n\<rparr>"

lemma pair_dealt: "dealt (lit ''a'') (named_dealer n)"
proof -
  have "shamir_init n (lit ''alice'') 2 2 (lit ''u'') = Inr (pair_empty\<lparr>ss_name := PStr n\<rparr>)"
    by (simp add: shamir_init_def pair_empty_def example_empty_def)
  from create_secret_dealt [OF this pair_create_named] show ?thesis by simp
qed

lemma pair_share:
  assumes "i < 2" "str_ok n"
  obtains bs where "json_bytes (participant_data (named_dealer n) i) = Inr bs" "json_ok (participant_data (named_dealer n) i)"
proof -
  obtain bs where bs: "json_bytes (participant_data (named_dealer n) i) = Inr bs"
    using pair_json [OF assms] by blast
  have "texts_ok (named_dealer n)" using assms(2) by (simp add: texts_ok_def pair_dealer_def pair_empty_def example_empty_def)
  from that [OF bs participant_json [OF pair_dealt this bs]] show thesis .
qed

lemma plain_u: "plain_segment (lit ''u'')" "plain_segment (lit ''n'')"
  by (simp_all add: plain_segment_def unreserved_def lit_def)

text \<open>The first share that a server gets is stored.\<close>

lemma cluster_post_share:
  assumes d: "dealt secret d" "ss_uuid d = PStr (lit ''u'')" "ss_owner d = PStr (lit ''alice'')"
    and i: "i < nat (ss_shares d)" "json_ok (participant_data d i)"
    and h: "connection_host address = Inr h" "w h = example_app"
  shows "\<exists>ac. send_share cluster_net address port certs (participant_data d i) (w, t) = ((w(h := ac), t), Inr ())"
proof -
  let ?share = "participant_data d i"
  obtain bs where bs: "json_bytes ?share = Inr bs" using json_bytes_total [OF i(2)] by blast
  let ?hq = "\<lparr>hq_address = h, hq_port = port, hq_certs = certs, hq_timeout = 10, hq_method = POST,
    hq_path = lit ''/shares/'' @ lit ''u'', hq_body = Some bs\<rparr>"
  let ?rq = "cluster_request ?hq"
  have json: "rq_json ?rq = Inr (detuple ?share)"
    using json_bytes_roundtrip [OF i(2) bs] by (simp add: cluster_request_def)
  obtain f where f: "detuple ?share = PDict f" "map_of f (lit ''uuid'') = Some (PStr (lit ''u''))"
    "map_of f (lit ''owner'') = Some (PStr (lit ''alice''))"
    by (simp add: participant_data_def d(2,3))
  have "check_share (PDict f) = Inr ()"
    using check_share_dealt [OF d(1) share_view_detuple [OF d(1)], of i] f(1) i(1) by simp
  then have valid: "valid_submission example_platform (lit ''u'') ?rq f"
    using json f cluster_arrives [of ?hq] by (auto simp: valid_submission_def arrives_def)
  let ?sh = "table_put (ac_shares example_app) (lit ''shares'') (lit ''u'') (PDict f)"
  have "json_ok ?sh"
    using json_ok_detuple [OF i(2)] f(1) by (simp add: table_put_def example_app_def default_shares_data_def dict_ok_def)
  moreover have "io_plan (rq_io ?rq) = Finish" "io_nonce (rq_io ?rq) = io_nonce (example_io Finish)"
    by (simp_all add: cluster_request_def example_io_def)
  ultimately obtain fs where "save example_crypto (rq_io ?rq) (data_path example_app SHARES_FILENAME) (lit ''k'')
      SHARES_FILE_PURPOSE ?sh (ac_files example_app) = (fs, Inr ())"
    using save_finishes example_envelope [of "''k''" _ Finish] unfolding SHARES_FILE_PURPOSE_def by metis
  then obtain ac where store: "store_share example_platform (lit ''u'') ?rq example_app = (ac, Inr (201, status_doc ''stored''))"
    using store_share_eval [OF example_app_ok valid]
    by (simp add: example_no_shares persist_shares_def data_path_def example_platform_def)
      (simp add: example_app_def)
  have "status_doc ''stored'' = PDict [(lit ''status'', PStr (lit ''stored''))]" by (simp add: status_doc_def)
  then obtain body where ans: "cluster_answer (Inr (201, status_doc ''stored'')) = (201, body)"
    using json_bytes_total [of "status_doc ''stored''"] by (auto simp: cluster_answer_def dict_ok_def)
  have "net_exchange cluster_net ?hq (w, t) = ((w(h := ac), t), Inr (201, body))"
    using store ans h(2) by (simp add: cluster_net_def plain_path [OF plain_u(1)])
  then have "http_call cluster_net address port certs 10 POST (lit ''/shares/'' @ lit ''u'') (Some bs) (w, t) = ((w(h := ac), t), Inr (201, body))"
    using h(1) plain_path(1) [OF plain_u(1)] by (simp add: http_call_def connect_def doA_def) (simp add: cluster_net_def)
  moreover have "py_subscript ?share (lit ''uuid'') = Inr (PStr (lit ''u''))" by (simp add: participant_data_def d(2))
  ultimately show ?thesis using bs by (intro exI [of _ ac]) (simp add: send_share_def doA_def format_value_def)
qed

lemma cluster_post:
  assumes "connection_host address = Inr h" "w h = example_app" "i < 2" "str_ok n"
  shows "\<exists>ac. send_share cluster_net address port certs (participant_data (named_dealer n) i) (w, t) = ((w(h := ac), t), Inr ())"
proof -
  obtain bs where "json_ok (participant_data (named_dealer n) i)" using pair_share [OF assms(3,4)] by blast
  from cluster_post_share [where w = w, OF pair_dealt _ _ _ this assms(1,2)] assms(3) show ?thesis
    by (simp add: pair_dealer_def pair_empty_def example_empty_def)
qed

lemma cluster_both:
  assumes "w (lit ''b0'') = example_app" "w (lit ''c0'') = example_app" "str_ok n"
  shows "\<exists>ac0 ac1. send_share cluster_net (PStr (lit ''b0'')) port certs (participant_data (named_dealer n) 0) (w, t) =
      ((w(lit ''b0'' := ac0), t), Inr ()) \<and>
    send_share cluster_net (PStr (lit ''c0'')) port certs (participant_data (named_dealer n) 1) (w(lit ''b0'' := ac0), t) =
      ((w(lit ''b0'' := ac0, lit ''c0'' := ac1), t), Inr ())"
proof -
  have hosts: "connection_host (PStr (lit ''b0'')) = Inr (lit ''b0'')" "connection_host (PStr (lit ''c0'')) = Inr (lit ''c0'')"
    by (simp_all add: connection_host_def is_control_def lit_def)
  obtain ac0 where p0: "send_share cluster_net (PStr (lit ''b0'')) port certs (participant_data (named_dealer n) 0) (w, t) =
      ((w(lit ''b0'' := ac0), t), Inr ())"
    using cluster_post [where w = w and h = "lit ''b0''", OF hosts(1) assms(1) pos2 assms(3)] by blast
  have c0: "(w(lit ''b0'' := ac0)) (lit ''c0'') = example_app" using assms(2) by (simp add: lit_def)
  have "(1 :: nat) < 2" by simp
  from cluster_post [where w = "w(lit ''b0'' := ac0)" and h = "lit ''c0''", OF hosts(2) c0 this assms(3)] p0
  show ?thesis by blast
qed

lemma cluster_publish:
  assumes "se_world s = (w, t)" "w (lit ''b0'') = example_app" "w (lit ''c0'') = example_app"
  shows "\<exists>s' w'. publish_shares cluster_net pf port certs (zip example_peers (map (participant_data pair_dealer) [0, 1])) 0 s =
      (s', Inr 2) \<and> se_world s' = (w', t) \<and> w' (lit ''127.0.0.1'') = w (lit ''127.0.0.1'')"
proof -
  obtain ac0 ac1 where p: "send_share cluster_net (PStr (lit ''b0'')) port certs (participant_data pair_dealer 0) (w, t) =
      ((w(lit ''b0'' := ac0), t), Inr ())"
    "send_share cluster_net (PStr (lit ''c0'')) port certs (participant_data pair_dealer 1) (w(lit ''b0'' := ac0), t) =
      ((w(lit ''b0'' := ac0, lit ''c0'' := ac1), t), Inr ())"
    using cluster_both [OF assms(2,3) example_name_ok(1)] unfolding pair_named by blast
  have "lit ''127.0.0.1'' \<noteq> lit ''b0''" "lit ''127.0.0.1'' \<noteq> lit ''c0''" by (simp_all add: lit_def)
  then show ?thesis
    by (simp add: example_peers_def example_peer_fields doA_def tryA_def worldA_def p [simplified] assms(1) peer_line_def echoA_def)
qed

lemma cluster_record:
  assumes "se_world s = (w, time)" "w (lit ''127.0.0.1'') = cluster_start (lit ''127.0.0.1'')"
  shows "\<exists>s'. record_own_secret cluster_net pf port certs (lit ''n'') (PStr (lit ''u'')) 2 2 2 s = (s', Inr ())"
proof -
  let ?home = "cluster_start (lit ''127.0.0.1'')" and ?body = "secret_body (PStr (lit ''u'')) 2 2"
  have ok: "json_ok ?body" by (simp add: secret_body_def dict_ok_def dec_digits.simps MAX_STR_DIGITS_def)
  obtain bs where bs: "json_bytes ?body = Inr bs" using json_bytes_total [OF ok] by blast
  let ?hq = "\<lparr>hq_address = lit ''127.0.0.1'', hq_port = port, hq_certs = certs, hq_timeout = 10, hq_method = POST,
    hq_path = lit ''/secrets/'' @ lit ''n'', hq_body = Some bs\<rparr>"
  let ?rq = "cluster_request ?hq"
  let ?rec = "secret_record (PStr (lit ''u'')) 2 2 (rq_now ?rq)"
  have json: "rq_json ?rq = Inr ?body"
    using json_bytes_roundtrip [OF ok bs] by (simp add: cluster_request_def) (simp add: secret_body_def)
  have rec: "json_ok ?rec"
    using utc_str_ok by (simp add: secret_record_def cluster_request_def dict_ok_def dec_digits.simps MAX_STR_DIGITS_def)
  let ?sec = "table_put (ac_secrets ?home) (lit ''secrets'') (lit ''n'') ?rec"
  have "json_ok ?sec" using rec
    by (simp add: cluster_start_def example_app_def default_secrets_data_def table_put_def dict_ok_def)
  moreover have "io_plan (rq_io ?rq) = Finish" by (simp add: cluster_request_def example_io_def)
  moreover have "envelope_ok example_crypto (ac_key1 ?home) SECRETS_FILE_PURPOSE (io_nonce (rq_io ?rq))"
    using example_envelope [of "''k''" "''secretweb-secrets-v1''" Finish]
    by (simp add: SECRETS_FILE_PURPOSE_def cluster_start_def example_app_def cluster_request_def)
  ultimately obtain fs where "save example_crypto (rq_io ?rq) (data_path ?home SECRETS_FILENAME) (ac_key1 ?home)
      SECRETS_FILE_PURPOSE ?sec (ac_files ?home) = (fs, Inr ())"
    using save_finishes by blast
  then have saved: "persist_secrets example_platform (rq_io ?rq) (?home\<lparr>ac_secrets := ?sec\<rparr>) =
      (?home\<lparr>ac_secrets := ?sec, ac_files := fs\<rparr>, Inr ())"
    by (simp add: persist_secrets_def data_path_def example_platform_def)
  have "metadata_of example_platform ?body = Inr (PStr (lit ''u''), 2, 2)"
    by (simp add: metadata_of_def secret_body_def)
  moreover have "table (ac_secrets ?home) (lit ''secrets'') = Inr []"
    by (simp add: table_def cluster_start_def example_app_def default_secrets_data_def)
  moreover have "caller_is example_platform ?rq (lit ''alice'')" using cluster_arrives [of ?hq] by (simp add: arrives_def)
  ultimately obtain ac where "store_secret_metadata example_platform (lit ''n'') ?rq ?home = (ac, Inr (201, ?rec))"
    using json cluster_own saved by (auto simp: store_secret_metadata_def require_owner_PStr secret_body_def)
  moreover obtain body where "cluster_answer (Inr (201, ?rec)) = (201, body)" "json_loads_bytes body = Inr ?rec"
    using json_bytes_total [OF rec] json_bytes_roundtrip [OF rec] by (auto simp: cluster_answer_def secret_record_def)
  ultimately have "net_exchange cluster_net ?hq (se_world s) = ((w(lit ''127.0.0.1'' := ac), time), Inr (201, body))"
    "json_loads_bytes body = Inr ?rec"
    using assms by (simp_all add: cluster_net_def plain_path [OF plain_u(2)])
  moreover have "net_certs cluster_net certs (se_world s) = Inr ()" by (simp add: cluster_net_def)
  ultimately have "record_secret cluster_net (PStr (lit ''127.0.0.1'')) port certs (lit ''n'') (PStr (lit ''u'')) 2 2 (se_world s) =
      ((w(lit ''127.0.0.1'' := ac), time), Inr ?rec)"
    using bs by (simp add: record_secret_def http_call_def connect_def doA_def localhost plain_path [OF plain_u(2)])
  then show ?thesis
    by (simp add: record_own_secret_def doA_def tryA_def worldA_def echoA_def) (simp add: secret_record_def)
qed

lemma cluster_stores:
  "\<exists>s1. store_secret_cmd cluster_net example_platform [7, 0, 1, 11, 0, 1] (lit ''u'') (lit ''now'') [] (lit ''/b'')
      example_config (lit ''n'') (Some (lit ''a'')) None None
      \<lparr>se_world = (cluster_start, 0), se_files = example_files, se_echo = [], se_input = []\<rparr> = (Some (s1, Inr ()))"
proof -
  let ?s = "\<lparr>se_world = (cluster_start, 0 :: nat), se_files = example_files, se_echo = [], se_input = []\<rparr>"
  have "length example_peers = 2" "example_peers \<noteq> []" "slice_to 2 example_peers = example_peers"
    by (simp_all add: example_peers_def slice_to_def)
  moreover have "shares_and_treshold 2 None None = Inr (2, 2)" by (simp add: shares_and_treshold_def Let_def)
  moreover have "ss_uuid pair_dealer = PStr (lit ''u'')" by (simp add: pair_dealer_def pair_empty_def example_empty_def)
  moreover define s1 where "s1 = ?s\<lparr>se_echo := [Out (lit ''Publishing '' @ [39] @ lit ''n'' @ [39] @ lit '' as '' @
    int_text 2 @ lit '' share(s), treshold '' @ int_text 2 @ lit ''...'')]\<rparr>"
  moreover have "cluster_start (lit ''b0'') = example_app" "cluster_start (lit ''c0'') = example_app"
    "se_world s1 = (cluster_start, 0)"
    by (simp_all add: s1_def cluster_start_def lit_def)
  moreover from this obtain s2 w2 where "publish_shares cluster_net example_platform 59222 (cert_paths (lit ''/b'') example_config)
      (zip example_peers (map (participant_data pair_dealer) [0, 1])) 0 s1 = (s2, Inr 2)"
      "se_world s2 = (w2, 0)" "w2 (lit ''127.0.0.1'') = cluster_start (lit ''127.0.0.1'')"
    using cluster_publish by metis
  moreover from this(2,3) obtain s3 where "record_own_secret cluster_net example_platform 59222
      (cert_paths (lit ''/b'') example_config) (lit ''n'') (PStr (lit ''u'')) 2 2 2 s2 = (s3, Inr ())"
    using cluster_record by blast
  ultimately have "store_secret_cmd cluster_net example_platform [7, 0, 1, 11, 0, 1] (lit ''u'') (lit ''now'') []
      (lit ''/b'') example_config (lit ''n'') (Some (lit ''a'')) None None ?s = Some (s3, Inr ())"
    by (simp add: store_secret_cmd_def example_port example_own pair_init pair_create pair_participants doA_def echoA_def
        del: publish_shares.simps)
  then show ?thesis by blast
qed

lemma cluster_peers:
  "peers_at (\<lambda>p. if example_index p = 0 then lit ''b0'' else lit ''c0'') example_name example_peers"
proof -
  have "connection_host (PStr (lit ''b0'')) = Inr (lit ''b0'')" "connection_host (PStr (lit ''c0'')) = Inr (lit ''c0'')"
    by (simp_all add: connection_host_def is_control_def lit_def)
  moreover have "example_index (named_record (lit ''b'') (example_record ''b0'' ''default'')) = 0"
    "example_index (named_record (lit ''c'') (example_record ''c0'' ''default'')) \<noteq> 0"
    using example_distinct by (auto simp: example_index_def)
  moreover have "lit ''b0'' \<noteq> lit ''c0''" by (simp add: lit_def)
  ultimately show ?thesis using example_distinct example_index_inj(2)
    by (auto simp: peers_at_def example_peers_def example_peer_fields example_name_def inj_on_def)
qed

theorem stored_secret_is_brought_back_witness:
  "\<exists>s1 s'. store_secret_cmd cluster_net example_platform [7, 0, 1, 11, 0, 1] (lit ''u'') (lit ''now'') [] (lit ''/b'')
      example_config (lit ''n'') (Some (lit ''a'')) None None
      \<lparr>se_world = (cluster_start, 0), se_files = example_files, se_echo = [], se_input = []\<rparr> = Some (s1, Inr ()) \<and>
    get_secret_cmd cluster_net example_platform [] (lit ''/b'') example_config (lit ''n'')
      (s1\<lparr>se_files := example_files\<rparr>) = (s', Inr ()) \<and>
    printed_or_nothing (s1\<lparr>se_files := example_files\<rparr>) (lit ''a'') (s', Inr ())"
proof -
  let ?s = "\<lparr>se_world = (cluster_start, 0), se_files = example_files, se_echo = [], se_input = []\<rparr>"
  let ?addr = "\<lambda>p. if example_index p = 0 then lit ''b0'' else lit ''c0''"
  obtain s1 where s1: "store_secret_cmd cluster_net example_platform [7, 0, 1, 11, 0, 1] (lit ''u'') (lit ''now'') [] (lit ''/b'')
      example_config (lit ''n'') (Some (lit ''a'')) None None ?s = Some (s1, Inr ())" using cluster_stores by blast
  let ?s2 = "s1\<lparr>se_files := example_files\<rparr>"
  let ?r = "get_secret_cmd cluster_net example_platform [] (lit ''/b'') example_config (lit ''n'') ?s2"
  have own: "own_name_and_peers (lit ''/b'') (se_files ?s) = Inr (PStr (lit ''alice''), example_peers)"
    by (simp add: example_own)
  have quiet: "traffic example_platform (lit ''alice'') (fst (se_world s1) a) (fst (se_world ?s2) a)" for a by (simp add: traffic.quiet)
  have both: "printed_or_nothing ?s2 (lit ''a'') ?r \<and> (\<exists>shares treshold H.
      shares_and_treshold (int (length example_peers)) None None = Inr (shares, treshold) \<and>
      H \<subseteq> set example_peers \<and> treshold \<le> int (card H) \<and>
      (\<forall>B. B \<subseteq> H \<longrightarrow> treshold \<le> int (card B) \<longrightarrow>
        answers_at cluster_net (cert_paths (lit ''/b'') example_config) (insert (lit ''127.0.0.1'') (?addr ` B)) \<longrightarrow>
        snd ?r = Inr ()))"
    by (rule stored_secret_is_brought_back [where node = fst, OF cluster_connects own cluster_peers plain_u(2,1) _ _ _ _ s1 quiet])
       (simp_all add: cluster_fresh cluster_own, simp_all add: cluster_net_def)
  have counts: "shares_and_treshold (int (length example_peers)) None None = Inr (2, 2)"
    by (simp add: shares_and_treshold_def example_peers_def)
  obtain H where H: "H \<subseteq> set example_peers" "2 \<le> int (card H)"
      "answers_at cluster_net (cert_paths (lit ''/b'') example_config) (insert (lit ''127.0.0.1'') (?addr ` H)) \<Longrightarrow> snd ?r = Inr ()"
    using both unfolding counts by auto
  have "answers_at cluster_net certs A" for certs A
    by (auto simp: answers_at_def answers_now_def cluster_net_def split: option.split prod.split)
  then show ?thesis using s1 both H(3) by (cases ?r) auto
qed

end
