(* ===== verification/SetupOutcome.thy ===== *)
theory SetupOutcome
  imports SetupProperties Commands NetworkProperties
begin

text \<open>
  What a bootstrap that ends normally leaves behind: a configuration that the next boot can load, with
  the options of KEY1 in it, and no server.
\<close>

section \<open>The steps over the network leave the files alone\<close>

lemma worldA_files: "se_files (fst (worldA m s)) = se_files s"
  by (simp add: worldA_def split: prod.split)

lemma poll_round_files: "se_files (fst (poll_round net port certs names remaining s)) = se_files s"
proof (induction names arbitrary: remaining s)
  case (Cons nh names)
  obtain name host where nh: "nh = (name, host)" by (rule prod.exhaust)
  show ?case
  proof (cases "first_address host")
    case (Inr address)
    let ?up = "worldA (is_reachable net (PStr address) port certs) s"
    have "se_files (fst ?up) = se_files s" by (rule worldA_files)
    then show ?thesis using nh Inr by (cases ?up) (auto simp: doA_def echoA_def Cons.IH split: sum.split)
  qed (simp add: nh)
qed simp

lemma poll_rounds_files:
  assumes "poll_rounds net port certs remaining n s = Some (s', r)"
  shows "se_files s' = se_files s"
proof (induction net port certs remaining n s "(s', r)" rule: poll_rounds.raw_induct)
  case (1 rounds net port certs remaining n s)
  have step: "se_files (fst (poll_round net port certs remaining remaining s)) = se_files s" by (rule poll_round_files)
  have nap: "se_files (fst (doA (echoA es) (\<lambda>_. sleepA net k) t)) = se_files t" for es k t
    by (simp add: doA_def echoA_def sleepA_def worldA_def)
  from "1.hyps"(2) step show ?case
    by (auto split: if_splits prod.splits sum.splits dest!: "1.hyps"(1) simp: nap)
qed (rule assms)

lemma poll_for_hosts_online_files:
  assumes "poll_for_hosts_online net pf basedir hosts own cfg s = Some (s', r)"
  shows "se_files s' = se_files s"
  using assms by (auto simp: poll_for_hosts_online_def doP_def pureA_def echoA_def split: sum.splits option.splits prod.splits
      dest!: poll_rounds_files)

lemma publish_all_files: "se_files (fst (publish_all net pf port certs pairs s)) = se_files s"
proof (induction pairs arbitrary: s)
  case (Cons p pairs)
  obtain host share where p: "p = (host, share)" by (rule prod.exhaust)
  show ?case
  proof (cases "first_address host")
    case (Inr address)
    let ?sent = "worldA (send_share net (PStr address) port certs share) s"
    have "se_files (fst ?sent) = se_files s" by (rule worldA_files)
    then show ?thesis using p Inr
      by (cases ?sent) (auto simp: doA_def tryA_def echoA_def Cons.IH split: sum.split)
  qed (simp add: p)
qed simp

text \<open>What the publication returns: the uuid that was drawn, and counts that a decoder accepts.\<close>

lemma publish_key1_result:
  assumes "publish_key1_to_network net pf tape uuid4 now basedir key1 hosts own cfg s = Some (s', Inr (u, t, n))"
  shows "se_files s' = se_files s" "u = PStr uuid4" "n = int (length (other_hosts hosts own))" "t = n div 2 + 1"
    "2 \<le> t" "t \<le> n"
proof -
  let ?others = "other_hosts hosts own"
  define shares treshold where "shares = int (length ?others)" and "treshold = shares div 2 + 1"
  have counts: "key1_shares_and_treshold ?others = (shares, treshold)"
    by (simp add: key1_shares_and_treshold_def shares_def treshold_def Let_def)
  obtain port secret dealer tape' where prep: "cfg_getint (pf_int pf) cfg (lit ''server-port'') None = Inr port"
      "shamir_init (lit ''key1'') own shares treshold uuid4 = Inr secret"
      "create_secret key1 now tape secret = Some (Inr dealer, tape')"
    using assms by (auto simp: publish_key1_to_network_def counts doP_def split: sum.splits option.splits prod.splits)
  have fields: "ss_uuid dealer = PStr uuid4" "2 \<le> treshold" "treshold \<le> shares"
    using prep(2,3) by (auto simp: create_secret_def shamir_init_def split: sum.splits if_splits option.splits)
  let ?s1 = "s\<lparr>se_echo := se_echo s @ [Out [], Out (lit ''Publishing key1 as '' @ int_text shares @ lit '' share(s), treshold '' @
               int_text treshold @ lit ''...'')]\<rparr>"
  obtain pairs s2 where pub: "publish_all net pf port (cert_paths basedir cfg) pairs ?s1 = (s2, Inr ())"
    and run: "se_files s' = se_files s2" "u = ss_uuid dealer" "t = treshold" "n = shares"
    using assms prep by (auto simp: publish_key1_to_network_def counts doP_def doA_Inr_iff echoA_def)
  have "se_files s2 = se_files s" using publish_all_files [of net pf port "cert_paths basedir cfg" pairs ?s1] pub by simp
  then show "se_files s' = se_files s" "u = PStr uuid4" "n = int (length (other_hosts hosts own))" "t = n div 2 + 1"
    "2 \<le> t" "t \<le> n"
    using run fields by (simp_all add: shares_def treshold_def)
qed

section \<open>Writing the configuration, starting and stopping the server\<close>

text \<open>A plain write that returns has written.\<close>

definition plain_write :: "bootstrap \<Rightarrow> bool" where
  "plain_write bs \<longleftrightarrow> (\<forall>p text fs fs'. bs_write bs p text fs = (fs', Inr ()) \<longrightarrow> fs' = fs(p \<mapsto> text))"

lemma write_config_ok:
  assumes "write_config bs p ini s = (s', Inr ())" "plain_write bs"
  obtains content where "utf8_encode (write_ini ini) = Inr content" "se_files s' = (se_files s)(p \<mapsto> content)" "se_world s' = se_world s"
proof (cases "utf8_encode (write_ini ini)")
  case (Inl e)
  then show thesis using assms(1) by (auto simp: write_config_def doA_Inr_iff)
next
  case (Inr content)
  obtain fs' r where w: "bs_write bs p content (se_files s) = (fs', r)" by (rule prod.exhaust)
  with Inr assms have "r = Inr ()" "s' = s\<lparr>se_files := fs'\<rparr>" by (auto simp: write_config_def filesA_def)
  moreover have "fs' = (se_files s)(p \<mapsto> content)" using assms(2) w \<open>r = Inr ()\<close> by (simp add: plain_write_def)
  ultimately show thesis using that Inr by simp
qed

lemma start_server_steps:
  assumes "start_server sys pf basedir config_file key1 s = (s', Inr pid)"
  obtains s0 fs bs where "sy_spawn sys [lit ''--basedir'', basedir, lit ''--config-file'', config_file] s = (s0, Inr pid)"
    "utf8_encode (int_text pid) = Inr bs"
    "atomic_write_bytes (io_plan (sy_pid_io sys)) (io_tmp (sy_pid_io sys)) (pid_file_path basedir) bs fs
      = (se_files s', Inr ())"
proof -
  obtain s0 pid0 where spawn: "sy_spawn sys [lit ''--basedir'', basedir, lit ''--config-file'', config_file] s = (s0, Inr pid0)"
    using assms by (auto simp: start_server_def doA_Inr_iff)
  obtain s1 sent answer where "sy_child sys pid0 (case key1_message key1 of Inl _ \<Rightarrow> [] | Inr msg \<Rightarrow> msg) s0 = (s1, sent, answer)"
    by (rule prod_cases3)
  with spawn assms have "pid0 = pid \<and> (\<exists>bs. utf8_encode (int_text pid) = Inr bs \<and>
      atomic_write_bytes (io_plan (sy_pid_io sys)) (io_tmp (sy_pid_io sys)) (pid_file_path basedir) bs (se_files s1)
        = (se_files s', Inr ()))"
    by (auto simp: start_server_def doA_def filesA_def pureA_def split: prod.splits sum.splits)
  with spawn that show thesis by blast
qed

text \<open>
  The pidfile of a server that was started can be read, if the numbers of processes are short enough
  for \<open>int\<close>.
\<close>

definition short_pids :: "'w sys \<Rightarrow> bool" where
  "short_pids sys \<longleftrightarrow> (\<forall>args s s' pid. sy_spawn sys args s = (s', Inr pid) \<longrightarrow> length (dec_digits (nat \<bar>pid\<bar>)) \<le> MAX_STR_DIGITS)"

lemma start_server_pidfile:
  assumes "start_server sys pf basedir config_file key1 s = (s', Inr pid)"
    and "io_tmp (sy_pid_io sys) \<noteq> pid_file_path basedir"
    and "short_pids sys"
  shows "read_pid pf (pid_file_path basedir) (se_files s') = Inr pid"
proof -
  obtain s0 fs bs where spawn: "sy_spawn sys [lit ''--basedir'', basedir, lit ''--config-file'', config_file] s = (s0, Inr pid)"
    and bs: "utf8_encode (int_text pid) = Inr bs"
    and w: "atomic_write_bytes (io_plan (sy_pid_io sys)) (io_tmp (sy_pid_io sys)) (pid_file_path basedir) bs fs
      = (se_files s', Inr ())"
    by (rule start_server_steps [OF assms(1)])
  have "length (dec_digits (nat \<bar>pid\<bar>)) \<le> MAX_STR_DIGITS" using assms(3) spawn unfolding short_pids_def by blast
  moreover have "se_files s' (pid_file_path basedir) = Some bs" by (rule atomic_write_content [OF assms(2) w])
  moreover have "utf8_decode bs = Inr (int_text pid)" by (rule utf8_decode_encode [OF bs])
  moreover have "str_strip (int_text pid) = int_text pid" using one_line_int_text by (rule one_line_strip)
  ultimately show ?thesis by (simp add: read_pid_def read_file_def int_of_text_int_text)
qed

lemma dialogA_keeps: "dialogA d s = (s', r) \<Longrightarrow> se_files s' = se_files s \<and> se_world s' = se_world s"
  by (auto simp: dialogA_def split: prod.splits)

lemma handoff_stops:
  assumes "manual_systemd_handoff sys pf basedir cfg s = Some (s', Inr ())" "processes_ok sys running"
    and "read_pid pf (pid_file_path basedir) (se_files s) = Inr pid"
  shows "se_files s' = (se_files s)(pid_file_path basedir := None)" "\<not> running (se_world s') pid"
proof -
  obtain s1 s2 stopped where confirmed: "dialogA confirm_loop (s\<lparr>se_echo := se_echo s @ handoff_lines\<rparr>) = (s1, Inr ())"
    and stop: "stop_server sys pf basedir STOP_TIMEOUT s1 = Some (s2, Inr stopped)"
    and "se_files s' = se_files s2 \<and> se_world s' = se_world s2"
    using assms(1) by (auto simp: manual_systemd_handoff_def doP_Inr_iff echoA_def Let_def)
  moreover have "se_files s1 = se_files s" using dialogA_keeps [OF confirmed] by simp
  ultimately show "se_files s' = (se_files s)(pid_file_path basedir := None)" "\<not> running (se_world s') pid"
    using stop_server_ends [OF assms(2), of pf basedir STOP_TIMEOUT s1] assms(3) by auto
qed

lemma ask_hosts_keeps:
  assumes "ask_hosts bs basedir cfg s = (s', Inr (hosts, own))"
  shows "se_files s' = se_files s" "se_world s' = se_world s"
proof -
  have match: "match_own_host hs h s0 = (s1, Inr own) \<Longrightarrow> se_files s1 = se_files s0 \<and> se_world s1 = se_world s0"
    for hs h s0 s1 and own :: pystr
    by (induction hs) (auto simp: doA_def echoA_def split: if_splits)
  show "se_files s' = se_files s" "se_world s' = se_world s"
    using assms by (auto simp: ask_hosts_def doA_Inr_iff echoA_def dest!: match dialogA_keeps)
qed

lemma stop_server_keeps:
  "stop_server sys pf basedir timeout s = Some (s', r) \<Longrightarrow> p \<noteq> pid_file_path basedir \<Longrightarrow> se_files s' p = se_files s p"
  by (auto simp: stop_server_def split: sum.splits option.splits)

section \<open>The whole bootstrap\<close>

lemma tryA_failed_with: "tryA m p (failed_with pf message) s = (s', Inr a) \<longleftrightarrow> m s = (s', Inr a)"
  by (auto simp: tryA_def failed_with_def doA_def echoA_def pureA_def split: prod.splits sum.splits)

text \<open>The setup up to the start of the server, where it does not use the network, and from there on.\<close>

definition setup_front ::
  "'w sys \<Rightarrow> platform \<Rightarrow> bootstrap \<Rightarrow> pystr \<Rightarrow> pystr option \<Rightarrow> ('w session, ini \<times> setup_host list \<times> pystr) partial_action" where
  "setup_front sys pf bs basedir config_file =
     doP (clear_old_data sys pf bs basedir) (\<lambda>_.
     doP (totalP (\<lambda>s. (s, load_or_default_config (str_lower (pf_lower pf)) (config_path basedir config_file) (se_files s)))) (\<lambda>ini.
     doP (totalP (ask_hosts bs basedir (secretweb_section ini))) (\<lambda>(hosts, own_name).
     doP (totalP (pureA (cfg_getint (pf_int pf) (secretweb_section ini) (lit ''server-port'') None))) (\<lambda>own_port.
     doP (totalP (write_data pf bs (path_join basedir (lit ''data'')) hosts own_name own_port)) (\<lambda>_.
     doP (totalP (write_config bs (config_path basedir config_file) (with_options (AList.update (lit ''initiated'') (lit ''True'')) ini))) (\<lambda>_.
     doP (totalP (echoA [Out [], Out (lit ''data files written, starting server...'')])) (\<lambda>_.
     doP (totalP (tryA (start_server sys pf basedir (config_path basedir config_file) (bs_key1 bs)) is_start_error
            (failed_with pf ''status: FAILED to start server: ''))) (\<lambda>_.
       totalP (pureA (Inr (ini, hosts, own_name)))))))))))"

definition setup_back ::
  "'w net \<Rightarrow> 'w sys \<Rightarrow> platform \<Rightarrow> bootstrap \<Rightarrow> pystr \<Rightarrow> pystr option \<Rightarrow> ini \<times> setup_host list \<times> pystr \<Rightarrow>
   ('w session, ini) partial_action" where
  "setup_back net sys pf bs basedir config_file = (\<lambda>(ini, hosts, own_name).
     let ini1 = with_options (AList.update (lit ''initiated'') (lit ''True'')) ini in
     doP (totalP (echoA [Out (lit ''server is running.'')])) (\<lambda>_.
     doP (poll_for_hosts_online net pf basedir hosts own_name (secretweb_section ini1)) (\<lambda>_.
     doP (publish_key1_to_network net pf (bs_tape bs) (bs_uuid bs) (bs_split_time bs) basedir (bs_key1 bs)
         hosts own_name (secretweb_section ini1)) (\<lambda>(key1_uuid, key1_treshold, key1_shares).
     let ini2 = with_options (add_key1_metadata key1_uuid key1_treshold key1_shares (format_value net)) ini1 in
     doP (totalP (write_config bs (config_path basedir config_file) ini2)) (\<lambda>_.
     doP (manual_systemd_handoff sys pf basedir (secretweb_section ini2)) (\<lambda>_.
       totalP (pureA (Inr ini2))))))))"

lemma doP_assoc: "doP (doP m f) g = doP m (\<lambda>a. doP (f a) g)"
  by (rule ext) (simp add: doP_def split: option.split prod.split sum.split)

lemma doP_pure: "doP (totalP (pureA (Inr a))) k = k a"
  by (rule ext) (simp add: doP_def totalP_def pureA_def)

lemma doP_pair: "doP (case p of (a, b) \<Rightarrow> f a b) g = (case p of (a, b) \<Rightarrow> doP (f a b) g)"
  by (simp split: prod.split)

lemma setup_main_split:
  "setup_main net sys pf bs basedir config_file =
     doP (setup_front sys pf bs basedir config_file) (setup_back net sys pf bs basedir config_file)"
  by (simp add: setup_main_def setup_front_def setup_back_def Let_def doP_assoc doP_pair doP_pure)

lemma setup_front_run:
  assumes "setup_front sys pf bs basedir config_file s = Some (s', Inr (ini0, hosts, own))"
  obtains s0 s1 port s2 s3 s4 pid where
    "clear_old_data sys pf bs basedir s = Some (s0, Inr ())"
    "load_or_default_config (str_lower (pf_lower pf)) (config_path basedir config_file) (se_files s0) = Inr ini0"
    "ask_hosts bs basedir (secretweb_section ini0) s0 = (s1, Inr (hosts, own))"
    "write_data pf bs (path_join basedir (lit ''data'')) hosts own port s1 = (s2, Inr ())"
    "write_config bs (config_path basedir config_file) (with_options (AList.update (lit ''initiated'') (lit ''True'')) ini0) s2 = (s3, Inr ())"
    "se_files s4 = se_files s3" "se_world s4 = se_world s3"
    "start_server sys pf basedir (config_path basedir config_file) (bs_key1 bs) s4 = (s', Inr pid)"
proof -
  let ?path = "config_path basedir config_file"
  obtain s0 s1 port s2 s3 pid where run: "clear_old_data sys pf bs basedir s = Some (s0, Inr ())"
    "load_or_default_config (str_lower (pf_lower pf)) ?path (se_files s0) = Inr ini0"
    "ask_hosts bs basedir (secretweb_section ini0) s0 = (s1, Inr (hosts, own))"
    "write_data pf bs (path_join basedir (lit ''data'')) hosts own port s1 = (s2, Inr ())"
    "write_config bs ?path (with_options (AList.update (lit ''initiated'') (lit ''True'')) ini0) s2 = (s3, Inr ())"
    "start_server sys pf basedir ?path (bs_key1 bs)
      (s3\<lparr>se_echo := se_echo s3 @ [Out [], Out (lit ''data files written, starting server...'')]\<rparr>) = (s', Inr pid)"
    using assms by (auto simp: setup_front_def doP_Inr_iff pureA_def tryA_failed_with echoA_def)
  show thesis by (rule that [OF run(1-5) _ _ run(6)]) simp_all
qed

lemma setup_back_run:
  assumes "setup_back net sys pf bs basedir config_file (ini0, hosts, own) s = Some (s', Inr ini)"
  obtains s1 s2 s3 s4 u t n where
    "se_files s1 = se_files s" "se_world s1 = se_world s"
    "poll_for_hosts_online net pf basedir hosts own
       (secretweb_section (with_options (AList.update (lit ''initiated'') (lit ''True'')) ini0)) s1 = Some (s2, Inr ())"
    "publish_key1_to_network net pf (bs_tape bs) (bs_uuid bs) (bs_split_time bs) basedir (bs_key1 bs) hosts own
       (secretweb_section (with_options (AList.update (lit ''initiated'') (lit ''True'')) ini0)) s2 = Some (s3, Inr (u, t, n))"
    "ini = with_options (add_key1_metadata u t n (format_value net))
       (with_options (AList.update (lit ''initiated'') (lit ''True'')) ini0)"
    "write_config bs (config_path basedir config_file) ini s3 = (s4, Inr ())"
    "manual_systemd_handoff sys pf basedir (secretweb_section ini) s4 = Some (s', Inr ())"
proof -
  let ?ini1 = "with_options (AList.update (lit ''initiated'') (lit ''True'')) ini0"
  obtain s2 s3 s4 u t n where run:
    "poll_for_hosts_online net pf basedir hosts own (secretweb_section ?ini1)
      (s\<lparr>se_echo := se_echo s @ [Out (lit ''server is running.'')]\<rparr>) = Some (s2, Inr ())"
    "publish_key1_to_network net pf (bs_tape bs) (bs_uuid bs) (bs_split_time bs) basedir (bs_key1 bs) hosts own
       (secretweb_section ?ini1) s2 = Some (s3, Inr (u, t, n))"
    "ini = with_options (add_key1_metadata u t n (format_value net)) ?ini1"
    "write_config bs (config_path basedir config_file) ini s3 = (s4, Inr ())"
    "manual_systemd_handoff sys pf basedir (secretweb_section ini) s4 = Some (s', Inr ())"
    using assms by (auto simp: setup_back_def doP_Inr_iff Let_def pureA_def echoA_def)
  show thesis by (rule that [OF _ _ run]) simp_all
qed

lemma setup_main_run:
  assumes "setup_main net sys pf bs basedir config_file s = Some (s', Inr ini)"
  obtains s1 ini0 hosts own where
    "setup_front sys pf bs basedir config_file s = Some (s1, Inr (ini0, hosts, own))"
    "setup_back net sys pf bs basedir config_file (ini0, hosts, own) s1 = Some (s', Inr ini)"
  using assms by (auto simp: setup_main_split doP_Inr_iff)

lemma with_options_own:
  "map_of (with_options f ini) (lit ''secretweb'') = Some (f (case map_of ini (lit ''secretweb'') of None \<Rightarrow> [] | Some own \<Rightarrow> own))"
  by (simp add: with_options_def)

lemma section_option:
  assumes "map_of ini (lit ''secretweb'') = Some own" "dict_ok own" "map_of own k = Some v"
  shows "\<exists>opts. secretweb_section ini = Some opts \<and> map_of opts k = Some v"
  using assms by (simp add: secretweb_section_def dict_merge_lookup)


section \<open>A bootstrap that ends\<close>

text \<open>
  The network of \<open>NetworkProperties\<close> and, beside it, what this host's processes change: whether the
  server with the number 7 runs, which only \<open>SIGKILL\<close> ends.
\<close>

definition beside :: "'w net \<Rightarrow> ('w \<times> 'x) net" where
  "beside net = \<lparr>net_certs = (\<lambda>certs w. net_certs net certs (fst w)),
     net_exchange = (\<lambda>rq w. case net_exchange net rq (fst w) of (w', r) \<Rightarrow> ((w', snd w), r)),
     net_sleep = (\<lambda>n w. (net_sleep net n (fst w), snd w)), net_shuffle = (\<lambda>w. net_shuffle net (fst w)),
     net_format = net_format net\<rparr>"

lemma beside_call:
  "http_call (beside net) address port certs t m path b w =
     (case http_call net address port certs t m path b (fst w) of (w', r) \<Rightarrow> ((w', snd w), r))"
  by (simp add: http_call_def connect_def doA_def pureA_def beside_def split: sum.split prod.split)

lemma beside_send:
  "send_share (beside net) address port certs share w =
     (case send_share net address port certs share (fst w) of (w', r) \<Rightarrow> ((w', snd w), r))"
  by (simp add: send_share_def doA_def pureA_def beside_call format_value_def split: sum.split prod.split pyval.split)
     (simp add: beside_def)

type_synonym site = "cluster \<times> bool"

abbreviation site_net :: "site net" where
  "site_net \<equiv> beside cluster_net"

definition site_sys :: "site sys" where
  "site_sys = \<lparr>sy_spawn = (\<lambda>_ s. (s\<lparr>se_world := (fst (se_world s), True)\<rparr>, Inr 7)),
     sy_child = (\<lambda>_ _ s. (s, Inr (), [Data send_ready])),
     sy_kill = (\<lambda>pid sig (c, r). if pid = 7 \<and> r then ((c, sig \<noteq> 9), Inr ()) else ((c, r), Inl ProcessLookupError)),
     sy_clock = (\<lambda>(c, r). int (snd c)), sy_nap = (\<lambda>d (c, r). ((fst c, snd c + nat d), r)),
     sy_pid_io = example_io Finish, sy_status_text = (\<lambda>_. [])\<rparr>"

lemma site_processes: "processes_ok site_sys (\<lambda>w pid. snd w \<and> pid = 7)"
  by (auto simp: processes_ok_def site_sys_def)

definition site_bootstrap :: "bootstrap" where
  "site_bootstrap = \<lparr>bs_today = lit ''d'', bs_common_name = (\<lambda>_. Inr (lit ''alice'')), bs_key1 = lit ''a'',
     bs_now = (\<lambda>_. lit ''now''), bs_tape = [7, 0, 1, 2, 11, 0, 1, 2], bs_uuid = lit ''u'', bs_split_time = lit ''now'',
     bs_hosts_io = (example_io Finish, example_io Finish), bs_sites_io = (example_io Finish, example_io Finish),
     bs_secrets_io = example_io Finish, bs_write = (\<lambda>p text fs. (fs(p \<mapsto> text), Inr ()))\<rparr>"

definition setup_host_of :: "string \<times> string \<times> string \<Rightarrow> setup_host" where
  "setup_host_of = (\<lambda>(name, address, role). \<lparr>sh_name = lit name, sh_addresses = [lit address], sh_role = lit role\<rparr>)"

definition four_hosts :: "(string \<times> string \<times> string) list" where
  "four_hosts = [(''alice'', ''a0'', ''server''), (''b'', ''b0'', ''server''), (''c'', ''c0'', ''server''),
     (''d'', ''d0'', ''controller'')]"

definition setup_hosts :: "setup_host list" where
  "setup_hosts = map setup_host_of four_hosts"

text \<open>The start of the setup: the certificate and, if there is one, a file of shares from before.\<close>

definition site_session :: "byte list option \<Rightarrow> site session" where
  "site_session old = \<lparr>se_world = ((cluster_start, 0), False),
     se_files = [lit ''/b/certificates/cert.pem'' \<mapsto> []](lit ''/b/data/shares.dta'' := old), se_echo = [],
     se_input = concat (map (\<lambda>(name, address, role). [lit name, lit address, lit role]) four_hosts) @ [[], lit ''y'']\<rparr>"

definition site_ini :: ini where
  "site_ini = [(DEFAULT_SECTION, []), (lit ''secretweb'', config_defaults)]"

lemma site_no_data: "existing_data_files (path_join (lit ''/b'') (lit ''data'')) (se_files (site_session old)) = []"
  by (simp add: existing_data_files_def DATA_FILENAMES_def path_exists_def site_session_def
      HOSTS_FILENAME_def HOSTS_PLAINTEXT_FILENAME_def SITES_FILENAME_def SITES_PLAINTEXT_FILENAME_def SECRETS_FILENAME_def
      path_join_def lit_def)

lemma site_clear: "clear_old_data sys example_platform site_bootstrap (lit ''/b'') (site_session old) = Some (site_session old, Inr ())"
  by (simp add: clear_old_data_def site_no_data)

lemma dict_merge_appends: "dict_ok (d @ e) \<Longrightarrow> dict_merge d e = d @ e"
proof (induction e arbitrary: d)
  case (Cons kv e)
  then have "AList.update (fst kv) (snd kv) d = d @ [kv]" using update_new [of "fst kv" d "snd kv"] by (auto simp: dict_ok_def)
  with Cons.IH [of "d @ [kv]"] Cons.prems show ?case by (simp add: dict_merge_def split_beta)
qed (simp add: dict_merge_def)

lemma site_section:
  "dict_ok own \<Longrightarrow> secretweb_section [(DEFAULT_SECTION, []), (lit ''secretweb'', own)] = Some own"
  "with_options f [(DEFAULT_SECTION, []), (lit ''secretweb'', own)] = [(DEFAULT_SECTION, []), (lit ''secretweb'', f own)]"
  using dict_merge_appends [of "[]" own] by (simp_all add: secretweb_section_def with_options_def DEFAULT_SECTION_def)

lemma site_set_default:
  "dict_ok own \<Longrightarrow> set_default kv [(DEFAULT_SECTION, []), (lit ''secretweb'', own)] =
     [(DEFAULT_SECTION, []), (lit ''secretweb'', if map_of own (fst kv) = None then AList.update (fst kv) (snd kv) own else own)]"
  by (simp add: set_default_def site_section)

lemma site_config:
  "load_or_default_config lower (config_path (lit ''/b'') None) (se_files (site_session old)) = Inr site_ini"
proof -
  have "config_path (lit ''/b'') None = lit ''/b/data/config.ini''" by (simp add: config_path_def path_join_def lit_def)
  then have "load_config lower (config_path (lit ''/b'') None) (se_files (site_session old)) = Inr [(DEFAULT_SECTION, [])]"
    by (simp add: load_config_def read_file_def site_session_def lit_def)
  moreover have "fold set_default config_defaults [(DEFAULT_SECTION, []), (lit ''secretweb'', [])] = site_ini"
    by (simp add: config_defaults_def site_set_default site_ini_def dict_ok_def)
  moreover have "DEFAULT_SECTION \<noteq> lit ''secretweb''" by (simp add: DEFAULT_SECTION_def)
  ultimately show ?thesis by (simp add: load_or_default_config_def)
qed

lemma site_own: "secretweb_section site_ini = Some config_defaults"
  by (simp add: site_ini_def site_section dict_ok_def config_defaults_def)

lemma site_collect:
  "\<exists>es. collect_hosts (se_input (site_session old)) = ([lit ''y''], es, Inr setup_hosts)"
proof -
  have addr: "addresses_of (lit a) = [lit a]" if "a \<in> {''a0'', ''b0'', ''c0'', ''d0''}" for a
    using that by (auto simp: addresses_of_def str_strip_def is_space_def lit_def)
  have step: "collect_loop hosts (lit n # lit a # lit role # input) =
      (case collect_loop (hosts @ [setup_host_of (n, a, role)]) input of (rest, es, r) \<Rightarrow> (rest, tally_line hosts # es, r))"
    if "n \<noteq> []" "a \<in> {''a0'', ''b0'', ''c0'', ''d0''}" for hosts n a role input
    using that by (subst collect_loop.simps) (simp add: addr setup_host_of_def)
  have last: "collect_loop setup_hosts [[], lit ''y''] = ([lit ''y''], [tally_line setup_hosts], Inr setup_hosts)"
    by (subst collect_loop.simps)
       (simp add: minimum_met_def tally_def MIN_SERVERS_def MIN_CONTROLLERS_def setup_hosts_def four_hosts_def setup_host_of_def)
  show ?thesis using last
    by (simp add: collect_hosts_def site_session_def four_hosts_def step setup_hosts_def)
qed

lemma site_cert:
  "own_hostname_from_cert (bs_common_name site_bootstrap) (lit ''/b'') (Some config_defaults) (se_files (site_session old)) = Inr (lit ''alice'')"
proof -
  have "fst (cert_paths (lit ''/b'') (Some config_defaults)) = lit ''/b/certificates/cert.pem''"
    by (simp add: cert_paths_def config_defaults_def cfg_get_def cfg_option_def path_join_def Let_def lit_def)
  moreover have "se_files (site_session old) (lit ''/b/certificates/cert.pem'') = Some []" by (simp add: site_session_def)
  moreover have "hostname_from_common_name (lit ''alice'') = lit ''alice''"
    by (simp add: hostname_from_common_name_def first_label_def lit_def)
  ultimately show ?thesis by (simp add: own_hostname_from_cert_def read_file_def site_bootstrap_def)
qed

lemma site_ask:
  "\<exists>s'. ask_hosts site_bootstrap (lit ''/b'') (secretweb_section site_ini) (site_session old) = (s', Inr (setup_hosts, lit ''alice'')) \<and>
    se_world s' = ((cluster_start, 0), False) \<and> se_input s' = [lit ''y'']"
proof -
  obtain es where es: "collect_hosts (se_input (site_session old)) = ([lit ''y''], es, Inr setup_hosts)" using site_collect by blast
  have "match_own_host setup_hosts (lit ''alice'') s = (s, Inr (lit ''alice''))" for s :: "site session"
    by (simp add: setup_hosts_def four_hosts_def setup_host_of_def hostname_from_common_name_def first_label_def lit_def)
  then show ?thesis using es
    by (simp add: ask_hosts_def doA_def site_own site_cert echoA_def dialogA_def) (simp add: site_session_def)
qed

lemma site_writes:
  fixes s :: "site session"
  assumes doc: "build_hosts_data (\<lambda>_. lit ''now'') hosts (lit ''alice'') 59222 = Inr doc" "json_ok doc"
  shows "\<exists>fs. write_data example_platform site_bootstrap (path_join (lit ''/b'') (lit ''data'')) hosts (lit ''alice'') 59222 s =
     (s\<lparr>se_files := fs\<rparr>, Inr ())"
proof -
  let ?dir = "path_join (lit ''/b'') (lit ''data'')" and ?io = "example_io Finish"
  have save: "\<exists>fs'. save example_crypto ?io path (lit key) (lit purpose) data fs = (fs', Inr ())" if "json_ok data"
    for path key purpose data fs
    by (rule save_finishes [OF _ that example_envelope]) (simp add: example_io_def)
  have mirrored: "\<exists>fs'. save_mirrored example_crypto ?io ?io ?dir enc plain (lit key) (lit purpose) data fs = (fs', Inr ())"
    if "json_ok data" for enc plain key purpose data fs
  proof -
    note ok = that
    obtain bs where "json_bytes_indent data = Inr bs" by (rule mirror_text [OF ok])
    with save [OF ok, of "path_join ?dir enc" key purpose fs] show ?thesis
      by (auto simp: save_mirrored_def example_io_def)
  qed
  have docs: "json_ok default_sites_data" "json_ok default_secrets_data"
    by (simp_all add: default_sites_data_def default_secrets_data_def dict_ok_def)
  obtain fs1 where fs1: "save_mirrored example_crypto ?io ?io ?dir HOSTS_FILENAME HOSTS_PLAINTEXT_FILENAME (lit ''a'')
      HOSTS_FILE_PURPOSE doc (se_files s) = (fs1, Inr ())" using mirrored [OF doc(2)] unfolding HOSTS_FILE_PURPOSE_def by blast
  obtain fs2 where fs2: "save_mirrored example_crypto ?io ?io ?dir SITES_FILENAME SITES_PLAINTEXT_FILENAME (lit ''a'')
      SITES_FILE_PURPOSE default_sites_data fs1 = (fs2, Inr ())" using mirrored [OF docs(1)] unfolding SITES_FILE_PURPOSE_def by blast
  obtain fs3 where fs3: "save example_crypto ?io (path_join ?dir SECRETS_FILENAME) (lit ''a'')
      SECRETS_FILE_PURPOSE default_secrets_data fs2 = (fs3, Inr ())" using save [OF docs(2)] unfolding SECRETS_FILE_PURPOSE_def by blast
  show ?thesis
    by (rule exI [of _ fs3]) (simp add: write_data_def doA_def filesA_def site_bootstrap_def example_platform_def doc(1) fs1 fs2 fs3)
qed

lemma site_write_data:
  "\<exists>fs. write_data example_platform site_bootstrap (path_join (lit ''/b'') (lit ''data'')) setup_hosts (lit ''alice'') 59222 s =
     (s\<lparr>se_files := fs\<rparr>, Inr ())" for s :: "site session"
proof -
  obtain doc where "build_hosts_data (\<lambda>_. lit ''now'') setup_hosts (lit ''alice'') 59222 = Inr doc" "json_ok doc"
    by (simp add: build_hosts_data_def setup_hosts_def four_hosts_def setup_host_of_def first_address_def host_record_def
        dict_ok_def dec_digits.simps MAX_STR_DIGITS_def str_ok_ascii)
  then show ?thesis by (rule site_writes)
qed

text \<open>The other hosts are up.\<close>

lemma site_others:
  "other_hosts setup_hosts (lit ''alice'') = [setup_host_of (''b'', ''b0'', ''server''), setup_host_of (''c'', ''c0'', ''server''),
     setup_host_of (''d'', ''d0'', ''controller'')]"
  by (simp add: other_hosts_def setup_hosts_def four_hosts_def setup_host_of_def)

lemma site_hosts:
  "first_address (setup_host_of (name, address, role)) = Inr (lit address)" "sh_name (setup_host_of (name, address, role)) = lit name"
  "connection_host (PStr (lit ''b0'')) = Inr (lit ''b0'')" "connection_host (PStr (lit ''c0'')) = Inr (lit ''c0'')"
  "connection_host (PStr (lit ''d0'')) = Inr (lit ''d0'')"
  by (simp_all add: setup_host_of_def first_address_def connection_host_def is_control_def lit_def)

lemma site_up:
  assumes "connection_host address = Inr h"
  shows "is_reachable site_net address port certs w = (w, Inr True)"
proof -
  have "request_path (lit ''/'') = Inr (lit ''/'')" "route_of GET (lit ''/'') = Some Index"
    by (simp_all add: request_path_def is_control_def route_of_def lit_def)
  then have "http_call cluster_net address port certs 3 GET (lit ''/'') None (fst w) = (fst w, Inr (200, []))"
    using assms by (simp add: http_call_def connect_def doA_def) (simp add: cluster_net_def index_def cluster_answer_def)
  then show ?thesis by (simp add: is_reachable_def tryA_def doA_def beside_call)
qed

lemma site_poll:
  "\<exists>s'. poll_for_hosts_online site_net example_platform (lit ''/b'') setup_hosts (lit ''alice'') (Some opts) s = Some (s', Inr ()) \<and>
     se_world s' = se_world s \<and> se_input s' = se_input s"
  if port: "map_of opts (lit ''server-port'') = Some (lit ''59222'')"
proof -
  let ?net = site_net and ?certs = "cert_paths (lit ''/b'') (Some opts)"
  let ?hosts = "[(lit ''b'', setup_host_of (''b'', ''b0'', ''server'')), (lit ''c'', setup_host_of (''c'', ''c0'', ''server'')),
    (lit ''d'', setup_host_of (''d'', ''d0'', ''controller''))]"
  have names: "by_name (other_hosts setup_hosts (lit ''alice'')) = ?hosts" by (simp add: by_name_def site_others site_hosts)
  have round: "\<exists>es. poll_round ?net 59222 ?certs ?hosts ?hosts s = (s\<lparr>se_echo := es\<rparr>, Inr [])" for s :: "site session"
    by (rule exI [of _ "se_echo s @ [Out (lit ''  '' @ lit ''b'' @ lit '': online''), Out (lit ''  '' @ lit ''c'' @ lit '': online''),
          Out (lit ''  '' @ lit ''d'' @ lit '': online'')]"])
       (simp add: doA_def site_hosts worldA_def echoA_def site_up [OF site_hosts(3)] site_up [OF site_hosts(4)] site_up [OF site_hosts(5)])
  have rounds: "\<exists>es. poll_rounds ?net 59222 ?certs ?hosts 1 s = Some (s\<lparr>se_echo := es\<rparr>, Inr ())" for s
    using round [of s] by (auto simp: poll_rounds.simps)
  let ?s = "s\<lparr>se_echo := se_echo s @ [Out [], Out (lit ''Waiting for all '' @ dec_digits (length (other_hosts setup_hosts (lit ''alice''))) @
            lit '' other host(s) to come online (Ctrl+C to give up)...'')]\<rparr>"
  obtain es where "poll_rounds ?net 59222 ?certs ?hosts 1 ?s = Some (?s\<lparr>se_echo := es\<rparr>, Inr ())" using rounds by blast
  moreover have "cfg_getint (pf_int example_platform) (Some opts) (lit ''server-port'') None = Inr 59222"
    using port by (simp add: cfg_getint_def cfg_option_def example_int)
  ultimately show ?thesis
    by (simp add: poll_for_hosts_online_def doP_def names echoA_def)
qed

text \<open>KEY1 in three shares, two of which are enough.\<close>

definition trio_matrix :: "(int \<times> int) list list" where
  "trio_matrix = [[(1, 8), (2, 15), (3, 22)],
     [(1, 6989586621679009803), (2, 6989586621679009814), (3, 6989586621679009825)]]"

definition trio_empty :: "shamir_secret" where
  "trio_empty = pair_empty\<lparr>ss_name := PStr (lit ''key1''), ss_shares := 3\<rparr>"

definition trio_dealer :: "shamir_secret" where
  "trio_dealer = trio_empty\<lparr>ss_secret_hash := PStr (sha256_hexdigest [97]),
     ss_creation_date := PStr (lit ''now''), ss_secret_matrix := trio_matrix, ss_ready_to_decode := True\<rparr>"

lemma trio_create:
  "shamir_init (lit ''key1'') (lit ''alice'') 3 2 (lit ''u'') = Inr trio_empty"
  "create_secret (lit ''a'') (lit ''now'') [7, 0, 1, 2, 11, 0, 1, 2] trio_empty = Some (Inr trio_dealer, [])"
proof -
  show "shamir_init (lit ''key1'') (lit ''alice'') 3 2 (lit ''u'') = Inr trio_empty"
    by (simp add: shamir_init_def trio_empty_def pair_empty_def example_empty_def)
  have split: "split_all 3 2 [1, 6989586621679009792] [7, 0, 1, 2, 11, 0, 1, 2] = Some (trio_matrix, [])"
    by (simp add: trio_matrix_def generate_shares_def coeff_def PRIME_def polynom_def Let_def)
  have "ss_shares trio_empty = 3" "ss_treshold trio_empty = 2" "ss_bytes_per_integer trio_empty = 8" "ss_secret_matrix trio_empty = []"
    by (simp_all add: trio_empty_def pair_empty_def example_empty_def)
  then show "create_secret (lit ''a'') (lit ''now'') [7, 0, 1, 2, 11, 0, 1, 2] trio_empty = Some (Inr trio_dealer, [])"
    by (simp add: create_secret_def example_utf8 example_ints split MAX_SECRET_BYTES_def trio_dealer_def del: split_all.simps)
qed

lemma trio_fields: "ss_uuid trio_dealer = PStr (lit ''u'')" "ss_owner trio_dealer = PStr (lit ''alice'')" "ss_shares trio_dealer = 3"
  by (simp_all add: trio_dealer_def trio_empty_def pair_empty_def example_empty_def)

lemma trio_participants: "iterate_participants trio_dealer = Inr (map (participant_data trio_dealer) [0, 1, 2])"
  by (simp add: iterate_participants_def trio_dealer_def trio_empty_def pair_empty_def example_empty_def trio_matrix_def eval_nat_numeral)

lemma trio_json:
  assumes "i \<in> {0, 1, 2}"
  shows "json_ok (participant_data trio_dealer i)"
proof -
  have "str_ok (sha256_hexdigest [97])"
    by (rule str_ok_ascii) (auto simp: list_all_iff dest: sha256_hexdigest_ascii)
  moreover have "json_ok (participant_keys trio_matrix i)" using assms
    by (elim insertE emptyE) (simp_all add: participant_keys_def trio_matrix_def dec_digits.simps MAX_STR_DIGITS_def)
  ultimately show ?thesis
    by (simp add: participant_data_def trio_dealer_def trio_empty_def pair_empty_def example_empty_def dict_ok_def dec_digits.simps
        MAX_STR_DIGITS_def)
qed

lemma site_post:
  assumes "connection_host address = Inr h" "w h = example_app" "i \<in> {0, 1, 2}"
  shows "\<exists>ac. send_share site_net address port certs (participant_data trio_dealer i) ((w, t), r) = (((w(h := ac), t), r), Inr ())"
proof -
  have "dealt (lit ''a'') trio_dealer" using create_secret_dealt [OF trio_create] by simp
  moreover have "i < nat (ss_shares trio_dealer)" using assms(3) by (auto simp: trio_fields)
  ultimately obtain ac where "send_share cluster_net address port certs (participant_data trio_dealer i) (w, t) = ((w(h := ac), t), Inr ())"
    using cluster_post_share [where w = w, OF _ trio_fields(1,2) _ trio_json [OF assms(3)] assms(1,2)] by blast
  then show ?thesis by (auto simp: beside_send)
qed

lemma site_publish:
  "\<exists>s'. publish_key1_to_network site_net example_platform [7, 0, 1, 2, 11, 0, 1, 2] (lit ''u'') (lit ''now'') (lit ''/b'')
      (lit ''a'') setup_hosts (lit ''alice'') (Some opts) s = Some (s', Inr (PStr (lit ''u''), 2, 3)) \<and> se_input s' = se_input s"
  if port: "map_of opts (lit ''server-port'') = Some (lit ''59222'')" and w: "fst (se_world s) = (cluster_start, 0)"
proof -
  let ?net = site_net and ?certs = "cert_paths (lit ''/b'') (Some opts)"
  obtain r where r: "se_world s = ((cluster_start, 0), r)" using w by (cases "se_world s") auto
  have start: "cluster_start (lit ''b0'') = example_app" "cluster_start (lit ''c0'') = example_app" "cluster_start (lit ''d0'') = example_app"
    by (simp_all add: cluster_start_def lit_def)
  obtain ac0 where p0: "send_share ?net (PStr (lit ''b0'')) 59222 ?certs (participant_data trio_dealer 0) ((cluster_start, 0), r) =
      (((cluster_start(lit ''b0'' := ac0), 0), r), Inr ())" using site_post [where w = cluster_start, OF site_hosts(3) start(1)] by blast
  have "(cluster_start(lit ''b0'' := ac0)) (lit ''c0'') = example_app" using start(2) by (simp add: lit_def)
  from site_post [where w = "cluster_start(lit ''b0'' := ac0)", OF site_hosts(4) this, of 1] obtain ac1 where p1: "send_share ?net (PStr (lit ''c0'')) 59222 ?certs
      (participant_data trio_dealer 1) ((cluster_start(lit ''b0'' := ac0), 0), r) =
      (((cluster_start(lit ''b0'' := ac0, lit ''c0'' := ac1), 0), r), Inr ())" by blast
  have "(cluster_start(lit ''b0'' := ac0, lit ''c0'' := ac1)) (lit ''d0'') = example_app" using start(3) by (simp add: lit_def)
  from site_post [where w = "cluster_start(lit ''b0'' := ac0, lit ''c0'' := ac1)", OF site_hosts(5) this, of 2] obtain ac2 where p2: "send_share ?net (PStr (lit ''d0'')) 59222 ?certs
      (participant_data trio_dealer 2) ((cluster_start(lit ''b0'' := ac0, lit ''c0'' := ac1), 0), r) =
      (((cluster_start(lit ''b0'' := ac0, lit ''c0'' := ac1, lit ''d0'' := ac2), 0), r), Inr ())" by blast
  have "cfg_getint (pf_int example_platform) (Some opts) (lit ''server-port'') None = Inr 59222"
    using port by (simp add: cfg_getint_def cfg_option_def example_int)
  then show ?thesis
    by (simp add: publish_key1_to_network_def key1_shares_and_treshold_def site_others doP_def doA_def
        trio_create trio_participants trio_fields echoA_def site_hosts tryA_def worldA_def r p0 p1 [simplified] p2 [simplified])
qed

lemma site_start:
  "\<exists>fs. start_server site_sys example_platform (lit ''/b'') config_file (lit ''a'') s =
     (s\<lparr>se_world := (fst (se_world s), True), se_files := fs\<rparr>, Inr 7)"
proof -
  obtain msg where msg: "key1_message (lit ''a'') = Inr msg"
    using frame_valid [of "[97]"]
    by (auto simp: key1_message_def utf8_encode_def lit_def is_scalar_def utf8_char_def byte_of_def)
  obtain bs where bs: "utf8_encode (int_text 7) = Inr bs" using utf8.enc_valid [OF int_text_scalar] by blast
  have "await_status xt st [Data send_ready] = Inr ()" for xt st
    by (rule await_status_ready [where rest = "[]"]) (simp add: send_ready_def)
  then show ?thesis
    by (intro exI [of _ "run_calls (pid_file_path (lit ''/b'')) (lit ''/d/.tmp-1.tmp'') (sys_calls bs) (se_files s)"])
       (simp add: start_server_def site_sys_def doA_def filesA_def send_key1_def msg bs example_io_def)
qed

lemma site_written:
  "\<exists>content. write_config site_bootstrap path [(DEFAULT_SECTION, []), (lit ''secretweb'', own)] s =
     (s\<lparr>se_files := (se_files s)(path \<mapsto> content)\<rparr>, Inr ())"
  if "list_all (\<lambda>(k, v). list_all is_scalar k \<and> list_all is_scalar v) own" for s :: "site session"
proof -
  have "list_all is_scalar (option_line kv)" if "kv \<in> set own" for kv
    using \<open>list_all _ own\<close> that by (auto simp: option_line_def list_all_iff lit_def is_scalar_def split: if_splits)
  then have "list_all is_scalar (write_ini [(DEFAULT_SECTION, []), (lit ''secretweb'', own)])"
    by (auto simp: write_ini_def section_text_def list_all_iff lit_def is_scalar_def DEFAULT_SECTION_def)
  then obtain content where "utf8_encode (write_ini [(DEFAULT_SECTION, []), (lit ''secretweb'', own)]) = Inr content"
    using utf8.enc_valid by blast
  then show ?thesis by (auto simp: write_config_def filesA_def site_bootstrap_def)
qed

lemma site_handoff:
  "\<exists>s'. manual_systemd_handoff site_sys example_platform (lit ''/b'') cfg s = Some (s', Inr ())"
  if "se_input s = [lit ''y'']" "read_pid example_platform (pid_file_path (lit ''/b'')) (se_files s) = Inr 7"
proof -
  note ok = that
  obtain s' where "stop_server site_sys example_platform (lit ''/b'') STOP_TIMEOUT
      (s\<lparr>se_input := [], se_echo := se_echo s @ handoff_lines\<rparr>) = Some (s', Inr (snd (se_world s)))"
    using stop_server_ends [OF site_processes, of example_platform "lit ''/b''" STOP_TIMEOUT
        "s\<lparr>se_input := [], se_echo := se_echo s @ handoff_lines\<rparr>"] ok(2) by auto
  then show ?thesis
    using ok(1) by (simp add: manual_systemd_handoff_def doP_def echoA_def dialogA_def Let_def)
qed

lemma site_paths:
  "io_tmp (sy_pid_io site_sys) \<noteq> pid_file_path (lit ''/b'')" "config_path (lit ''/b'') None \<noteq> pid_file_path (lit ''/b'')"
  by (simp_all add: site_sys_def example_io_def pid_file_path_def PID_FILENAME_def config_path_def path_join_def lit_def)

lemma site_pids: "short_pids site_sys"
  by (auto simp: short_pids_def site_sys_def dec_digits.simps MAX_STR_DIGITS_def)

text \<open>The section's own options after the start of the server, and at the end.\<close>

definition site_opts1 :: "pystr dict" where
  "site_opts1 = AList.update (lit ''initiated'') (lit ''True'') config_defaults"

definition site_opts2 :: "pystr dict" where
  "site_opts2 = add_key1_metadata (PStr (lit ''u'')) 2 3 (format_value site_net) site_opts1"

lemma site_opts:
  "dict_ok site_opts1" "map_of site_opts1 (lit ''server-port'') = Some (lit ''59222'')" "dict_ok site_opts2"
  "list_all (\<lambda>(k, v). list_all is_scalar k \<and> list_all is_scalar v) site_opts1"
  "list_all (\<lambda>(k, v). list_all is_scalar k \<and> list_all is_scalar v) site_opts2"
  by (simp_all add: site_opts2_def site_opts1_def config_defaults_def add_key1_metadata_def format_value_def dict_ok_def
      int_text_def dec_digits.simps) (simp_all add: lit_def is_scalar_def)

lemma site_ini_ok: "ini_ok (str_lower f) [(DEFAULT_SECTION, []), (lit ''secretweb'', site_opts2)]"
proof -
  have "list_all (option_ok (str_lower f)) site_opts1"
    by (simp add: site_opts1_def config_defaults_def option_ok_def name_ok_def one_line_def is_space_def is_delimiter_def
        str_lower_def lower_ascii_def lit_def)
  then have "list_all (option_ok (str_lower f)) site_opts2" unfolding site_opts2_def
    by (rule add_key1_metadata_ok) (simp add: format_value_def one_line_def is_space_def lit_def)
  then show ?thesis using site_opts(3) by (simp add: ini_ok_def table_ok_ini_def dict_ok_def) (simp add: DEFAULT_SECTION_def lit_def)
qed

text \<open>Up to the running server, and from there to the end. Until KEY1 is published, nothing is stored.\<close>

abbreviation site_waits :: "site session \<Rightarrow> bool" where
  "site_waits s \<equiv> se_input s = [lit ''y''] \<and> fst (se_world s) = (cluster_start, 0)"

lemma site_prepares:
  "\<exists>s1 s2 s3 s4.
     ask_hosts site_bootstrap (lit ''/b'') (secretweb_section site_ini) (site_session old) = (s1, Inr (setup_hosts, lit ''alice'')) \<and>
     write_data example_platform site_bootstrap (path_join (lit ''/b'') (lit ''data'')) setup_hosts (lit ''alice'') 59222 s1 = (s2, Inr ()) \<and>
     write_config site_bootstrap (config_path (lit ''/b'') None) [(DEFAULT_SECTION, []), (lit ''secretweb'', site_opts1)] s2 = (s3, Inr ()) \<and>
     echoA [Out [], Out (lit ''data files written, starting server...'')] s3 = (s4, Inr ()) \<and> site_waits s4"
proof -
  obtain s1 where s1: "ask_hosts site_bootstrap (lit ''/b'') (secretweb_section site_ini) (site_session old) = (s1, Inr (setup_hosts, lit ''alice''))"
    "site_waits s1" using site_ask [of old] by auto
  obtain s2 where s2: "write_data example_platform site_bootstrap (path_join (lit ''/b'') (lit ''data'')) setup_hosts (lit ''alice'') 59222 s1
      = (s2, Inr ())" "site_waits s2" using site_write_data [of s1] s1(2) by auto
  obtain s3 where s3: "write_config site_bootstrap (config_path (lit ''/b'') None)
      [(DEFAULT_SECTION, []), (lit ''secretweb'', site_opts1)] s2 = (s3, Inr ())" "site_waits s3"
    using site_written [OF site_opts(4), of "config_path (lit ''/b'') None" s2] s2(2) by auto
  then show ?thesis using s1(1) s2(1) s3 by (simp add: echoA_def)
qed

lemma site_serves:
  assumes "site_waits s4"
  shows "\<exists>s5 s6. start_server site_sys example_platform (lit ''/b'') (config_path (lit ''/b'') None) (lit ''a'') s4 = (s5, Inr 7) \<and>
     echoA [Out (lit ''server is running.'')] s5 = (s6, Inr ()) \<and> site_waits s6 \<and>
     read_pid example_platform (pid_file_path (lit ''/b'')) (se_files s6) = Inr 7"
proof -
  obtain s5 where s5: "start_server site_sys example_platform (lit ''/b'') (config_path (lit ''/b'') None) (lit ''a'') s4 = (s5, Inr 7)"
    "site_waits s5" using site_start [of "config_path (lit ''/b'') None" s4] assms by auto
  have "read_pid example_platform (pid_file_path (lit ''/b'')) (se_files s5) = Inr 7"
    by (rule start_server_pidfile [OF s5(1)]) (use site_paths site_pids in simp_all)
  then show ?thesis using s5 by (simp add: echoA_def)
qed

lemma site_finishes:
  assumes "site_waits s6" "read_pid example_platform (pid_file_path (lit ''/b'')) (se_files s6) = Inr 7"
  shows "\<exists>s7 s8 s9 s10.
     poll_for_hosts_online site_net example_platform (lit ''/b'') setup_hosts (lit ''alice'') (Some site_opts1) s6 = Some (s7, Inr ()) \<and>
     publish_key1_to_network site_net example_platform [7, 0, 1, 2, 11, 0, 1, 2] (lit ''u'') (lit ''now'') (lit ''/b'')
      (lit ''a'') setup_hosts (lit ''alice'') (Some site_opts1) s7 = Some (s8, Inr (PStr (lit ''u''), 2, 3)) \<and>
     write_config site_bootstrap (config_path (lit ''/b'') None) [(DEFAULT_SECTION, []), (lit ''secretweb'', site_opts2)] s8 = (s9, Inr ()) \<and>
     manual_systemd_handoff site_sys example_platform (lit ''/b'') (Some site_opts2) s9 = Some (s10, Inr ())"
proof -
  let ?path = "config_path (lit ''/b'') None"
  obtain s7 where s7: "poll_for_hosts_online site_net example_platform (lit ''/b'') setup_hosts (lit ''alice'') (Some site_opts1) s6
      = Some (s7, Inr ())" "site_waits s7" using site_poll [OF site_opts(2), of s6] assms(1) by auto
  obtain s8 where s8: "publish_key1_to_network site_net example_platform [7, 0, 1, 2, 11, 0, 1, 2] (lit ''u'') (lit ''now'') (lit ''/b'')
      (lit ''a'') setup_hosts (lit ''alice'') (Some site_opts1) s7 = Some (s8, Inr (PStr (lit ''u''), 2, 3))" "se_input s8 = [lit ''y'']"
    using site_publish [OF site_opts(2) conjunct2 [OF s7(2)]] s7(2) by auto
  obtain content where s9: "write_config site_bootstrap ?path [(DEFAULT_SECTION, []), (lit ''secretweb'', site_opts2)] s8
      = (s8\<lparr>se_files := (se_files s8)(?path \<mapsto> content)\<rparr>, Inr ())"
    using site_written [OF site_opts(5), of ?path s8] by blast
  have "se_files s8 = se_files s6"
    using publish_key1_result(1) [OF s8(1)] poll_for_hosts_online_files [OF s7(1)] by simp
  then have "read_pid example_platform (pid_file_path (lit ''/b'')) ((se_files s8)(?path \<mapsto> content)) = Inr 7"
    using assms(2) site_paths(2) by (simp add: read_pid_def read_file_def)
  then obtain s10 where "manual_systemd_handoff site_sys example_platform (lit ''/b'') (Some site_opts2)
      (s8\<lparr>se_files := (se_files s8)(?path \<mapsto> content)\<rparr>) = Some (s10, Inr ())"
    using site_handoff [of "s8\<lparr>se_files := (se_files s8)(?path \<mapsto> content)\<rparr>"] s8(2) by auto
  with s7(1) s8(1) s9 show ?thesis by blast
qed

text \<open>What the setup takes from the configuration and the outside, as simplification rules for a run.\<close>

lemma site_values:
  "cfg_getint (pf_int example_platform) (secretweb_section site_ini) (lit ''server-port'') None = Inr 59222"
  "with_options (AList.update (lit ''initiated'') (lit ''True'')) site_ini = [(DEFAULT_SECTION, []), (lit ''secretweb'', site_opts1)]"
  "with_options (add_key1_metadata (PStr (lit ''u'')) 2 3 (format_value site_net)) [(DEFAULT_SECTION, []), (lit ''secretweb'', site_opts1)] =
    [(DEFAULT_SECTION, []), (lit ''secretweb'', site_opts2)]"
  "bs_key1 site_bootstrap = lit ''a''" "bs_tape site_bootstrap = [7, 0, 1, 2, 11, 0, 1, 2]" "bs_uuid site_bootstrap = lit ''u''"
  "bs_split_time site_bootstrap = lit ''now''"
proof -
  show "cfg_getint (pf_int example_platform) (secretweb_section site_ini) (lit ''server-port'') None = Inr 59222"
    by (simp add: site_own config_defaults_def cfg_getint_def cfg_option_def example_int)
  show "with_options (AList.update (lit ''initiated'') (lit ''True'')) site_ini = [(DEFAULT_SECTION, []), (lit ''secretweb'', site_opts1)]"
    "with_options (add_key1_metadata (PStr (lit ''u'')) 2 3 (format_value site_net)) [(DEFAULT_SECTION, []), (lit ''secretweb'', site_opts1)] =
      [(DEFAULT_SECTION, []), (lit ''secretweb'', site_opts2)]"
    unfolding site_ini_def site_opts1_def site_opts2_def by (rule site_section(2))+
qed (simp_all add: site_bootstrap_def)

lemma site_runs:
  "\<exists>s'. setup_main site_net site_sys example_platform site_bootstrap (lit ''/b'') None (site_session None) =
     Some (s', Inr [(DEFAULT_SECTION, []), (lit ''secretweb'', site_opts2)])"
proof -
  obtain s1 s2 s3 s4 where prepares:
    "ask_hosts site_bootstrap (lit ''/b'') (secretweb_section site_ini) (site_session None) = (s1, Inr (setup_hosts, lit ''alice''))"
    "write_data example_platform site_bootstrap (path_join (lit ''/b'') (lit ''data'')) setup_hosts (lit ''alice'') 59222 s1 = (s2, Inr ())"
    "write_config site_bootstrap (config_path (lit ''/b'') None) [(DEFAULT_SECTION, []), (lit ''secretweb'', site_opts1)] s2 = (s3, Inr ())"
    "echoA [Out [], Out (lit ''data files written, starting server...'')] s3 = (s4, Inr ())"
    and s4: "site_waits s4" using site_prepares by blast
  obtain s5 s6 where serves:
    "start_server site_sys example_platform (lit ''/b'') (config_path (lit ''/b'') None) (lit ''a'') s4 = (s5, Inr 7)"
    "echoA [Out (lit ''server is running.'')] s5 = (s6, Inr ())"
    and s6: "site_waits s6" "read_pid example_platform (pid_file_path (lit ''/b'')) (se_files s6) = Inr 7"
    using site_serves [OF s4] by blast
  obtain s7 s8 s9 s10 where finishes:
    "poll_for_hosts_online site_net example_platform (lit ''/b'') setup_hosts (lit ''alice'') (Some site_opts1) s6 = Some (s7, Inr ())"
    "publish_key1_to_network site_net example_platform [7, 0, 1, 2, 11, 0, 1, 2] (lit ''u'') (lit ''now'') (lit ''/b'')
      (lit ''a'') setup_hosts (lit ''alice'') (Some site_opts1) s7 = Some (s8, Inr (PStr (lit ''u''), 2, 3))"
    "write_config site_bootstrap (config_path (lit ''/b'') None) [(DEFAULT_SECTION, []), (lit ''secretweb'', site_opts2)] s8 = (s9, Inr ())"
    "manual_systemd_handoff site_sys example_platform (lit ''/b'') (Some site_opts2) s9 = Some (s10, Inr ())"
    using site_finishes [OF s6] by blast
  have "setup_main site_net site_sys example_platform site_bootstrap (lit ''/b'') None (site_session None) =
      Some (s10, Inr [(DEFAULT_SECTION, []), (lit ''secretweb'', site_opts2)])"
    unfolding setup_main_def Let_def doP_def totalP_def pureA_def tryA_def
    by (simp only: site_clear site_config prepares serves finishes site_values site_section(1) [OF site_opts(1)]
        site_section(1) [OF site_opts(3)] option.case prod.case sum.case)
  then show ?thesis by blast
qed


end
