(* ===== verification/BootProperties.thy ===== *)
theory BootProperties
  imports SetupProperties NetworkProperties
begin

text \<open>
  From the setup to the next boot: the hosts document that the setup writes names the peers to which it
  published KEY1, and the initiator brings KEY1 back from the servers of those peers.
\<close>

section \<open>The document of the setup\<close>

text \<open>What the records of the hosts are, in the order of the list.\<close>

definition setup_records :: "(nat \<Rightarrow> pystr) \<Rightarrow> nat \<Rightarrow> pystr \<Rightarrow> int \<Rightarrow> setup_host list \<Rightarrow> pyval dict" where
  "setup_records now i own port hosts =
     map (\<lambda>(j, h). (sh_name h, host_record h (hd (sh_addresses h)) own port (now j))) (enumerate i hosts)"

lemma setup_records_simps [simp]:
  "setup_records now i own port [] = []"
  "setup_records now i own port (h # hosts) =
     (sh_name h, host_record h (hd (sh_addresses h)) own port (now i)) # setup_records now (Suc i) own port hosts"
  by (simp_all add: setup_records_def)

lemma setup_records_names: "map fst (setup_records now i own port hosts) = map sh_name hosts"
  by (induction hosts arbitrary: i) simp_all

lemma add_records_ok:
  assumes "distinct (map sh_name hosts)" "\<forall>h \<in> set hosts. sh_addresses h \<noteq> []"
    and "fst ` set records \<inter> sh_name ` set hosts = {}"
  shows "add_records now i own port hosts records = Inr (records @ setup_records now i own port hosts)"
  using assms
proof (induction hosts arbitrary: i records)
  case (Cons h hosts)
  have "first_address h = Inr (hd (sh_addresses h))"
    using Cons.prems(2) by (cases "sh_addresses h") (auto simp: first_address_def)
  moreover have "sh_name h \<notin> fst ` set records" using Cons.prems(3) by auto
  ultimately show ?case using Cons.IH [of "records @ [_]"] Cons.prems by (auto simp: update_new)
qed simp

lemma build_hosts_ok:
  assumes "distinct (map sh_name hosts)" "\<forall>h \<in> set hosts. sh_addresses h \<noteq> []"
  shows "build_hosts_data now hosts own port =
    Inr (PDict [(lit ''hosts'', PDict (setup_records now 0 own port hosts))])"
  using add_records_ok [OF assms, of "[]"] by (simp add: build_hosts_data_def)

lemma host_record_fields:
  "host_record_ok (name, host_record h a own port now)"
  "host_status (host_record h a own port now) = (if sh_name h = own then lit ''local'' else lit ''default'')"
  "py_subscript (host_record h a own port now) (lit ''address'') = Inr (PStr a)"
  by (simp_all add: host_record_def dict_ok_def host_status_def)

lemma setup_records_ok: "list_all host_record_ok (setup_records now i own port hosts)"
  by (induction hosts arbitrary: i) (simp_all add: host_record_fields)

text \<open>The peers of this host, as the document names them.\<close>

definition setup_peers :: "(nat \<Rightarrow> pystr) \<Rightarrow> pystr \<Rightarrow> int \<Rightarrow> setup_host list \<Rightarrow> pyval list" where
  "setup_peers now own port hosts =
     map (\<lambda>(name, rec). named_record name rec)
       (filter (\<lambda>(name, rec). name \<noteq> own) (setup_records now 0 own port hosts))"

lemma setup_records_in:
  "(name, rec) \<in> set (setup_records now i own port hosts) \<Longrightarrow>
   \<exists>h \<in> set hosts. \<exists>j. name = sh_name h \<and> rec = host_record h (hd (sh_addresses h)) own port (now j)"
  by (induction hosts arbitrary: i) auto

lemma setup_records_peers:
  "filter (\<lambda>(name, rec). name \<noteq> own \<and> host_status rec \<notin> set UNTRUSTED_STATUSES)
     (setup_records now i own port hosts) =
   filter (\<lambda>(name, rec). name \<noteq> own) (setup_records now i own port hosts)"
  by (induction hosts arbitrary: i) (simp_all add: host_record_fields UNTRUSTED_STATUSES_def)

lemma setup_records_own:
  "own \<in> sh_name ` set hosts \<Longrightarrow>
   \<exists>rec. List.find (\<lambda>(name, rec). host_status rec = lit ''local'') (setup_records now i own port hosts) =
     Some (own, rec) \<and> host_record_ok (own, rec)"
  by (induction hosts arbitrary: i) (auto simp: host_record_fields)

lemma setup_own_and_peers:
  assumes "own \<in> sh_name ` set hosts"
    and "load_hosts_json basedir fs = Inr (PDict [(lit ''hosts'', PDict (setup_records now 0 own port hosts))])"
  shows "own_name_and_peers basedir fs = Inr (PStr own, setup_peers now own port hosts)"
proof -
  obtain rec where own: "List.find (\<lambda>(name, rec). host_status rec = lit ''local'') (setup_records now 0 own port hosts) =
      Some (own, rec)" "host_record_ok (own, rec)"
    using setup_records_own [OF assms(1)] by blast
  let ?doc = "PDict [(lit ''hosts'', PDict (setup_records now 0 own port hosts))]"
  have "own_host_entry ?doc = Inr (named_record own rec)"
    using own_host_loop_ok [OF setup_records_ok] own(1) by (simp add: own_host_entry_def hosts_items_def)
  moreover have "trusted_peers ?doc (PStr own) = Inr (setup_peers now own port hosts)"
    using trusted_peers_loop_ok [OF setup_records_ok]
    by (simp add: trusted_peers_def hosts_items_def setup_records_peers setup_peers_def)
  ultimately show ?thesis using assms(2) named_record_fields(1) [OF own(2)] by (simp add: own_name_and_peers_def)
qed

text \<open>The first address of a host, as the connection takes it.\<close>

definition host_addr :: "setup_host \<Rightarrow> pystr" where
  "host_addr h = (case connection_host (PStr (hd (sh_addresses h))) of Inr a \<Rightarrow> a | Inl _ \<Rightarrow> [])"

text \<open>A list of hosts that a network can be made of.\<close>

definition hosts_usable :: "setup_host list \<Rightarrow> pystr \<Rightarrow> bool" where
  "hosts_usable hosts own \<longleftrightarrow> distinct (map sh_name hosts) \<and> own \<in> sh_name ` set hosts \<and>
     distinct (map host_addr (other_hosts hosts own)) \<and>
     (\<forall>h \<in> set hosts. sh_addresses h \<noteq> [] \<and> connection_host (PStr (hd (sh_addresses h))) = Inr (host_addr h))"

text \<open>Reading a field of a peer back.\<close>

definition peer_addr :: "pyval \<Rightarrow> pystr" where
  "peer_addr p = (case bindE (py_subscript p (lit ''address'')) connection_host of Inr a \<Rightarrow> a | Inl _ \<Rightarrow> [])"

definition peer_name :: "pyval \<Rightarrow> pystr" where
  "peer_name p = (case py_subscript p (lit ''name'') of Inr (PStr n) \<Rightarrow> n | _ \<Rightarrow> [])"

lemma setup_peer_fields:
  fixes h :: setup_host and now own :: pystr and port :: int
  defines "p \<equiv> named_record (sh_name h) (host_record h (hd (sh_addresses h)) own port now)"
  shows "py_subscript p (lit ''name'') = Inr (PStr (sh_name h))" "peer_name p = sh_name h"
    "py_subscript p (lit ''address'') = Inr (PStr (hd (sh_addresses h)))" "peer_addr p = host_addr h"
proof -
  have ok: "host_record_ok (sh_name h, host_record h (hd (sh_addresses h)) own port now)" by (rule host_record_fields)
  show "py_subscript p (lit ''name'') = Inr (PStr (sh_name h))"
    unfolding p_def by (rule named_record_fields(1) [OF ok])
  then show "peer_name p = sh_name h" by (simp add: peer_name_def)
  have "lit ''address'' \<noteq> lit ''name''" by simp
  from named_record_fields(2) [OF ok this] show "py_subscript p (lit ''address'') = Inr (PStr (hd (sh_addresses h)))"
    unfolding p_def by (simp add: host_record_fields)
  then show "peer_addr p = host_addr h" by (simp add: peer_addr_def host_addr_def)
qed

lemma setup_peers_map:
  "map f (map (\<lambda>(name, rec). named_record name rec)
     (filter (\<lambda>(name, rec). name \<noteq> own) (setup_records now i own port hosts))) = map g (other_hosts hosts own)"
  if "\<And>h j. f (named_record (sh_name h) (host_record h (hd (sh_addresses h)) own port (now j))) = g h"
  by (induction hosts arbitrary: i) (simp_all add: other_hosts_def that)

lemma setup_peers_addr: "map peer_addr (setup_peers now own port hosts) = map host_addr (other_hosts hosts own)"
  unfolding setup_peers_def by (rule setup_peers_map) (rule setup_peer_fields)

lemma setup_peers_name: "map peer_name (setup_peers now own port hosts) = map sh_name (other_hosts hosts own)"
  unfolding setup_peers_def by (rule setup_peers_map) (rule setup_peer_fields)

lemma setup_peers_at:
  assumes "hosts_usable hosts own"
  shows "peers_at peer_addr peer_name (setup_peers now own port hosts)"
proof -
  let ?peers = "setup_peers now own port hosts"
  have names: "distinct (map peer_name ?peers)"
    using assms by (simp add: setup_peers_name hosts_usable_def other_hosts_def distinct_map_filter)
  have addrs: "distinct (map peer_addr ?peers)" using assms by (simp add: setup_peers_addr hosts_usable_def)
  have "py_subscript p (lit ''name'') = Inr (PStr (peer_name p)) \<and>
      (\<exists>address. py_subscript p (lit ''address'') = Inr address \<and> connection_host address = Inr (peer_addr p))"
    if pin: "p \<in> set ?peers" for p
  proof -
    obtain name rec where rec: "(name, rec) \<in> set (setup_records now 0 own port hosts)" "p = named_record name rec"
      using pin by (auto simp: setup_peers_def)
    obtain h j where "h \<in> set hosts" "p = named_record (sh_name h) (host_record h (hd (sh_addresses h)) own port (now j))"
      using setup_records_in [OF rec(1)] rec(2) by blast
    then show ?thesis using assms setup_peer_fields by (auto simp: hosts_usable_def)
  qed
  then show ?thesis using names addrs by (auto simp: peers_at_def distinct_map)
qed

section \<open>Publishing to honest servers\<close>

text \<open>The others are given, each at its first address, the share of their position.\<close>

definition host_due :: "pystr \<Rightarrow> pystr \<Rightarrow> (pystr \<Rightarrow> pyval option) \<Rightarrow> setup_host \<Rightarrow> pyval \<Rightarrow> bool" where
  "host_due me u expected h share \<longleftrightarrow> due me u expected (host_addr h) share \<and> sh_addresses h \<noteq> [] \<and>
     connection_host (PStr (hd (sh_addresses h))) = Inr (host_addr h)"

context server_network begin

lemma publish_all_honest:
  assumes "publish_all net pf' port certs pairs s = (s', Inr ())"
    and "\<forall>(h, share) \<in> set pairs. host_due me u expected h share"
    and "plain_segment u" "honest_world pf node me u expected (se_world s)"
  shows "honest_world pf node me u expected (se_world s') \<and>
    servers_went_on pf (node (se_world s)) (node (se_world s')) \<and>
    held_at node u expected ((\<lambda>(h, share). host_addr h) ` set pairs) (se_world s')"
  using assms
proof (induction pairs arbitrary: s)
  case (Cons pair pairs)
  obtain h share where pair: "pair = (h, share)" by (rule prod.exhaust)
  have h: "due me u expected (host_addr h) share" "first_address h = Inr (hd (sh_addresses h))"
    "connection_host (PStr (hd (sh_addresses h))) = Inr (host_addr h)"
    using Cons.prems(2) pair by (auto simp: host_due_def first_address_def split: list.splits)
  obtain w1 r1 where send: "send_share net (PStr (hd (sh_addresses h))) port certs share (se_world s) = (w1, r1)"
    by (rule prod.exhaust)
  define s1 where "s1 = s\<lparr>se_world := w1, se_echo := se_echo s @ [Out (lit ''  stored on '' @ sh_name h)]\<rparr>"
  have step: "r1 = Inr ()" "se_world s1 = w1" "publish_all net pf' port certs pairs s1 = (s', Inr ())"
    using Cons.prems(1) pair h(2) send unfolding s1_def
    by (cases r1; auto simp: doA_def tryA_def worldA_def echoA_def pureA_def split: if_splits)+
  have d: "py_subscript share (lit ''uuid'') = Inr (PStr u)" "owned_by (detuple share) me"
    "\<And>bs. json_bytes share = Inr bs \<Longrightarrow> json_ok share \<and> expected (host_addr h) = Some (detuple share)"
    using h(1) by (auto simp: due_def)
  note post = post_honest [OF send h(3) Cons.prems(3) d(1,3,2) Cons.prems(4)]
  have w1: "honest_world pf node me u expected (se_world s1)" "servers_went_on pf (node (se_world s)) (node (se_world s1))"
    using post(1,2) step(2) by simp_all
  have rest: "honest_world pf node me u expected (se_world s')" "servers_went_on pf (node (se_world s1)) (node (se_world s'))"
    "held_at node u expected ((\<lambda>(h, share). host_addr h) ` set pairs) (se_world s')"
    using Cons.IH [OF step(3) _ Cons.prems(3) w1(1)] Cons.prems(2) by auto
  have stored: "stored_shares (node w1 (host_addr h)) u = Some (detuple share)" "json_ok share" using post(3) step(1) by auto
  obtain bs where "json_bytes share = Inr bs" using json_bytes_total [OF stored(2)] by blast
  then have "held_at node u expected {host_addr h} (se_world s1)" using d(3) stored(1) step(2) by (simp add: held_at_def)
  from held_at_went_on [OF this rest(2) w1(1)] rest(3)
  have "held_at node u expected ((\<lambda>(h, share). host_addr h) ` set (pair # pairs)) (se_world s')"
    by (simp add: held_at_def pair)
  then show ?case using rest(1) went_on_trans [OF rest(2) w1(2)] by blast
qed (simp add: held_at_def)

end

text \<open>What a successful publication of KEY1 consists of.\<close>

lemma publish_key1_run:
  assumes "publish_key1_to_network net pf tape uuid4 now basedir key1 hosts own cfg s = Some (s', Inr (u, t, n))"
  obtains port dealer s1 s2 where "cfg_getint (pf_int pf) cfg (lit ''server-port'') None = Inr port"
    "dealt key1 dealer" "ss_name dealer = PStr (lit ''key1'')" "ss_owner dealer = PStr own" "ss_uuid dealer = PStr uuid4"
    "ss_creation_date dealer = PStr now" "ss_treshold dealer = t" "ss_shares dealer = n" "u = PStr uuid4"
    "n = int (length (other_hosts hosts own))" "2 \<le> t" "t \<le> n"
    "se_world s1 = se_world s" "se_world s' = se_world s2"
    "publish_all net pf port (cert_paths basedir cfg)
       (zip (other_hosts hosts own) (map (participant_data dealer) [0..<nat n])) s1 = (s2, Inr ())"
proof -
  let ?others = "other_hosts hosts own"
  define shares treshold where "shares = int (length ?others)" and "treshold = shares div 2 + 1"
  have counts: "key1_shares_and_treshold ?others = (shares, treshold)"
    by (simp add: key1_shares_and_treshold_def shares_def treshold_def Let_def)
  obtain port secret dealer tape' where prep: "cfg_getint (pf_int pf) cfg (lit ''server-port'') None = Inr port"
      "shamir_init (lit ''key1'') own shares treshold uuid4 = Inr secret"
      "create_secret key1 now tape secret = Some (Inr dealer, tape')"
    using assms by (auto simp: publish_key1_to_network_def counts doP_def split: sum.splits option.splits prod.splits)
  note d = create_secret_dealt [OF prep(2,3)]
  have dealt: "dealt key1 dealer" using d by blast
  let ?s1 = "s\<lparr>se_echo := se_echo s @ [Out [], Out (lit ''Publishing key1 as '' @ int_text shares @ lit '' share(s), treshold '' @
               int_text treshold @ lit ''...'')]\<rparr>"
  have parts: "iterate_participants dealer = Inr (map (participant_data dealer) [0..<nat shares])"
    using iterate_participants_dealt [OF dealt] d by simp
  obtain s2 r2 where pub: "publish_all net pf port (cert_paths basedir cfg)
      (zip ?others (map (participant_data dealer) [0..<nat shares])) ?s1 = (s2, r2)" by (rule prod.exhaust)
  have run: "se_world s' = se_world s2" "r2 = Inr ()" "u = ss_uuid dealer" "t = treshold" "n = shares"
    using assms prep parts pub
    by (auto simp: publish_key1_to_network_def counts doP_def doA_def echoA_def split: sum.splits)
  have "2 \<le> treshold" "treshold \<le> shares" using prep(2) by (auto simp: shamir_init_def split: if_splits)
  then show thesis using that [of port dealer ?s1 s2] prep(1) dealt d run pub by (simp add: shares_def)
qed

section \<open>The next boot\<close>

text \<open>These addresses answer from a time on; no request turns the clock back, and sleeping advances it.\<close>

definition answers_from :: "'w net \<Rightarrow> certs \<Rightarrow> ('w \<Rightarrow> nat) \<Rightarrow> nat \<Rightarrow> pystr set \<Rightarrow> bool" where
  "answers_from net certs clock since A \<longleftrightarrow>
     (\<forall>rq w. clock w \<le> clock (fst (net_exchange net rq w))) \<and>
     (\<forall>n w. 0 < n \<longrightarrow> clock w < clock (net_sleep net n w)) \<and>
     (\<forall>w. since \<le> clock w \<longrightarrow> (\<forall>a \<in> A. answers_now net certs w a))"

lemma ask_peer_clock:
  fixes clock :: "'w \<Rightarrow> nat"
  assumes "\<forall>rq w. clock w \<le> clock (fst (net_exchange net rq w))"
  shows "clock w \<le> clock (fst (ask_peer net port certs u p w))"
proof -
  have call: "clock w \<le> clock (fst (http_call net address port certs t m path b w))" for address t m path b
    using assms by (auto simp: http_call_def doA_def connect_def pureA_def split: sum.splits)
  have "clock w \<le> clock (fst (retrieve_share net address port certs u w))" for address
    using call by (auto simp: retrieve_share_def doA_def pureA_def split: sum.splits prod.splits) (metis fst_conv)+
  then show ?thesis by (auto simp: ask_peer_def doA_def pureA_def split: sum.splits)
qed

context server_network begin

lemma servers_come_back:
  assumes "peers_at addr nm peers" "dealt secret d" "plain_segment u" "ss_owner d = PStr me"
    and "expected = expected_share d (map addr peers)" "B \<subseteq> set peers" "addr ` B \<subseteq> A"
    and "answers_from net certs clock since (addr ` B)"
  shows "comes_back net (\<lambda>w. honest_world pf node me u expected w \<and> held_at node u expected A w) port certs (PStr u) clock since B"
  unfolding comes_back_def
proof (intro conjI ballI allI impI)
  fix p w show "clock w \<le> clock (fst (ask_peer net port certs (PStr u) p w))"
    by (rule ask_peer_clock) (use assms(8) in \<open>simp add: answers_from_def\<close>)
next
  fix n w show "0 < n \<Longrightarrow> clock w < clock (net_sleep net n w)" using assms(8) by (simp add: answers_from_def)
next
  fix p w assume "p \<in> B" "since \<le> clock w" and ok: "honest_world pf node me u expected w \<and> held_at node u expected A w"
  then have p: "p \<in> set peers" "addr p \<in> A" "answers_now net certs w (addr p)"
    using assms(6-8) by (auto simp: answers_from_def)
  show "\<exists>w' v. ask_peer net port certs (PStr u) p w = (w', Inr v)"
    by (rule held_is_sent [OF assms(1-5) p(1,2) conjunct1 [OF ok] conjunct2 [OF ok] p(3)])
qed

end

text \<open>
  The options that the setup adds, next to those that were there: what the initiator reads of them is
  what was published, and everything else it reads is as before.
\<close>

definition with_key1 :: "pystr \<Rightarrow> int \<Rightarrow> int \<Rightarrow> pystr dict \<Rightarrow> pystr dict \<Rightarrow> bool" where
  "with_key1 uuid t n opts boot_opts \<longleftrightarrow>
     map_of boot_opts (lit ''key1-name'') = Some (lit ''key1'') \<and> map_of boot_opts (lit ''key1-uuid'') = Some uuid \<and>
     map_of boot_opts (lit ''key1-treshold'') = Some (int_text t) \<and> map_of boot_opts (lit ''key1-shares'') = Some (int_text n) \<and>
     (\<forall>k. k \<notin> {lit ''key1-name'', lit ''key1-uuid'', lit ''key1-treshold'', lit ''key1-shares''} \<longrightarrow> map_of boot_opts k = map_of opts k)"

lemma add_key1_metadata_with: "with_key1 uuid t n opts (add_key1_metadata (PStr uuid) t n (format_value net) opts)"
  by (simp add: with_key1_def add_key1_metadata_def format_value_def)

lemma with_key1_keeps:
  assumes "with_key1 uuid t n opts boot_opts"
  shows "cert_paths basedir (Some boot_opts) = cert_paths basedir (Some opts)"
    and "cfg_getint x (Some boot_opts) (lit ''server-port'') fallback = cfg_getint x (Some opts) (lit ''server-port'') fallback"
  using assms by (simp_all add: with_key1_def cert_paths_def cfg_get_def cfg_getint_def cfg_option_def)

lemma boots_after_setup:
  assumes "own \<in> sh_name ` set hosts"
    and "load_hosts_json basedir fs = Inr (PDict [(lit ''hosts'', PDict (setup_records now 0 own port' hosts))])"
    and "cfg_getint (pf_int pf) (Some opts) (lit ''server-port'') None = Inr port"
    and "ss_name d = PStr (lit ''key1'')" "ss_owner d = PStr own" "2 \<le> t" "t \<le> n"
    and "length (dec_digits (nat \<bar>t\<bar>)) \<le> MAX_STR_DIGITS" "length (dec_digits (nat \<bar>n\<bar>)) \<le> MAX_STR_DIGITS"
    and "with_key1 uuid t n opts boot_opts"
  shows "boots_from pf basedir (Some boot_opts) fs d uuid port (setup_peers now own port' hosts)"
proof -
  have "key1_metadata (pf_int pf) Key1ReconstructionError boot_opts = Inr (lit ''key1'', uuid, Some t, Some n)"
    using assms(10) by (simp add: with_key1_def key1_metadata_def section_item_def section_getint_def int_of_text_int_text assms(8,9))
  then show ?thesis unfolding boots_from_def
    using with_key1_keeps(2) [OF assms(10)] setup_own_and_peers [OF assms(1,2)] assms(3-7) by simp
qed

section \<open>KEY1 after the setup\<close>

text \<open>What a successful publication of KEY1 leaves on the servers of the other hosts.\<close>

context server_network begin

lemma publish_key1_leaves:
  assumes "publish_key1_to_network net pf tape uuid4 now basedir key1 hosts me cfg s = Some (s', Inr (u, t, n))"
    and "certs = cert_paths basedir cfg" "hosts_usable hosts me" "plain_segment uuid4" "str_ok me" "str_ok now"
    and "\<And>a. honest_node pf me uuid4 None (node (se_world s) a)"
    and "addresses = map host_addr (other_hosts hosts me)"
  shows "\<exists>port dealer. cfg_getint (pf_int pf) cfg (lit ''server-port'') None = Inr port \<and>
    dealt key1 dealer \<and> ss_name dealer = PStr (lit ''key1'') \<and> ss_owner dealer = PStr me \<and> u = PStr uuid4 \<and>
    ss_treshold dealer = t \<and> ss_shares dealer = n \<and> 2 \<le> t \<and> t \<le> n \<and>
    length (dec_digits (nat \<bar>t\<bar>)) \<le> MAX_STR_DIGITS \<and> length (dec_digits (nat \<bar>n\<bar>)) \<le> MAX_STR_DIGITS \<and>
    honest_world pf node me uuid4 (expected_share dealer addresses) (se_world s') \<and>
    held_at node uuid4 (expected_share dealer addresses) (set addresses) (se_world s')"
proof -
  let ?others = "other_hosts hosts me"
  obtain port dealer s1 s2 where run: "cfg_getint (pf_int pf) cfg (lit ''server-port'') None = Inr port"
    "dealt key1 dealer" "ss_name dealer = PStr (lit ''key1'')" "ss_owner dealer = PStr me" "ss_uuid dealer = PStr uuid4"
    "ss_creation_date dealer = PStr now" "ss_treshold dealer = t" "ss_shares dealer = n" "u = PStr uuid4"
    "n = int (length ?others)" "2 \<le> t" "t \<le> n" "se_world s1 = se_world s" "se_world s' = se_world s2"
    "publish_all net pf port certs (zip ?others (map (participant_data dealer) [0..<nat n])) s1 = (s2, Inr ())"
    using publish_key1_run [OF assms(1)] unfolding assms(2) by metis
  let ?x = "expected_share dealer addresses" and ?pairs = "zip ?others (map (participant_data dealer) [0..<nat n])"
  have "str_ok uuid4" using plain_ascii [OF assms(4)] by (intro str_ok_ascii) (auto simp: list_all_iff)
  then have texts: "texts_ok dealer" using run(3-6) assms(5,6) by (simp add: texts_ok_def)
  have dist: "distinct addresses" using assms(3,8) by (simp add: hosts_usable_def)
  have due: "host_due me uuid4 ?x h share" if pin: "(h, share) \<in> set ?pairs" for h share
  proof -
    obtain i where i: "i < length ?others" "h = ?others ! i" "share = participant_data dealer i"
      using pin run(10) by (auto simp: set_zip)
    then have "h \<in> set hosts" by (metis nth_mem other_hosts_def filter_is_subset subsetD)
    moreover have "due me uuid4 ?x (host_addr h) share"
      using participant_due [OF run(2) texts run(5,4) dist, of i] i run(8,10) assms(8) by simp
    ultimately show ?thesis using assms(3) by (simp add: host_due_def hosts_usable_def)
  qed
  have "honest_world pf node me uuid4 ?x (se_world s1)"
    using assms(7) run(13) by (auto simp: honest_world_def honest_node_def)
  with publish_all_honest [OF run(15) _ assms(4)] due
  have left: "honest_world pf node me uuid4 ?x (se_world s2)"
    "held_at node uuid4 ?x ((\<lambda>(h, share). host_addr h) ` set ?pairs) (se_world s2)" by blast+
  have "map fst ?pairs = ?others" using run(10) by simp
  then have "map (\<lambda>(h, share). host_addr h) ?pairs = addresses"
    unfolding assms(8) by (metis (no_types, lifting) case_prod_beta' list.map_comp map_eq_conv comp_apply)
  then have all: "(\<lambda>(h, share). host_addr h) ` set ?pairs = set addresses" by (metis list.set_map)
  have "0 < length addresses" using run(10-12) assms(8) by (cases "other_hosts hosts me") simp_all
  then have "?x (addresses ! 0) \<noteq> None" using left(2) unfolding all held_at_def by (metis nth_mem)
  then obtain x where "?x (addresses ! 0) = Some x" by blast
  from expected_share_Some [OF this] have "json_ok x" "\<exists>i. x = detuple (participant_data dealer i)" by blast+
  then have "length (dec_digits (nat \<bar>t\<bar>)) \<le> MAX_STR_DIGITS" "length (dec_digits (nat \<bar>n\<bar>)) \<le> MAX_STR_DIGITS"
    using run(7,8) by (auto simp: participant_data_def)
  then show ?thesis using run(1-9,11,12) left unfolding all run(14) by (intro exI [of _ port] exI [of _ dealer]) simp
qed

end

lemma published_key1_boots:
  assumes "connects net pf node own (cert_paths basedir (Some opts))" "hosts_usable hosts own"
    and "build_hosts_data now' hosts own port' = Inr doc"
    and "plain_segment uuid4" "str_ok own" "str_ok now"
    and "\<And>a. honest_node pf own uuid4 None (node (se_world s) a)"
    and "publish_key1_to_network net pf tape uuid4 now basedir key1 hosts own (Some opts) s = Some (s', Inr (u, t, n))"
    and "\<And>a. traffic pf own (node (se_world s') a) (node w a)" "load_hosts_json basedir fs = Inr doc"
    and "\<And>w xs. mset (net_shuffle net w xs) = mset xs"
    and "with_key1 uuid4 t n opts boot_opts"
  shows "(\<forall>w' r. collect_key1 net pf uuid' basedir (Some boot_opts) fs w = Some (w', r) \<longrightarrow> r = Inr key1) \<and>
    (\<forall>A clock since. A \<subseteq> host_addr ` set (other_hosts hosts own) \<longrightarrow> t \<le> int (card A) \<longrightarrow>
       answers_from net (cert_paths basedir (Some opts)) clock since A \<longrightarrow>
       (\<exists>w'. collect_key1 net pf uuid' basedir (Some boot_opts) fs w = Some (w', Inr key1)))"
proof -
  note here = server_network.intro [OF assms(1)]
  let ?peers = "setup_peers now' own port' hosts" and ?certs = "cert_paths basedir (Some opts)"
  have addresses: "map peer_addr ?peers = map host_addr (other_hosts hosts own)" by (rule setup_peers_addr)
  obtain port dealer where left: "cfg_getint (pf_int pf) (Some opts) (lit ''server-port'') None = Inr port"
    "dealt key1 dealer" "ss_name dealer = PStr (lit ''key1'')" "ss_owner dealer = PStr own" "u = PStr uuid4"
    "ss_treshold dealer = t" "2 \<le> t" "t \<le> n"
    "length (dec_digits (nat \<bar>t\<bar>)) \<le> MAX_STR_DIGITS" "length (dec_digits (nat \<bar>n\<bar>)) \<le> MAX_STR_DIGITS"
    "honest_world pf node own uuid4 (expected_share dealer (map peer_addr ?peers)) (se_world s')"
    "held_at node uuid4 (expected_share dealer (map peer_addr ?peers)) (set (map peer_addr ?peers)) (se_world s')"
    using server_network.publish_key1_leaves [OF here assms(8) refl assms(2,4-7) addresses] by blast
  let ?x = "expected_share dealer (map peer_addr ?peers)" and ?A = "set (map peer_addr ?peers)"
  let ?ok = "\<lambda>w. honest_world pf node own uuid4 ?x w \<and> held_at node uuid4 ?x ?A w"
  have "servers_went_on pf (node (se_world s')) (node w)" unfolding servers_went_on_def using traffic_serves [OF assms(9)] by blast
  then have ok: "?ok w"
    using held_at_went_on [OF left(12) _ left(11)] left(11) honest_node_traffic [OF assms(9)] by (simp add: honest_world_def)
  have u: "distinct (map sh_name hosts)" "own \<in> sh_name ` set hosts" "\<forall>h \<in> set hosts. sh_addresses h \<noteq> []"
    using assms(2) by (auto simp: hosts_usable_def)
  have doc: "load_hosts_json basedir fs = Inr (PDict [(lit ''hosts'', PDict (setup_records now' 0 own port' hosts))])"
    using assms(3,10) build_hosts_ok [OF u(1,3)] by simp
  have boots: "boots_from pf basedir (Some boot_opts) fs dealer uuid4 port ?peers"
    by (rule boots_after_setup [OF u(2) doc left(1,3,4,7-10) assms(12)])
  have certs: "cert_paths basedir (Some boot_opts) = ?certs" by (rule with_key1_keeps(1) [OF assms(12)])
  note at = setup_peers_at [OF assms(2), of now' port']
  note honest = server_network.servers_honest [OF here at left(2) assms(4) refl, of ?A port, folded certs]
  have "length ?peers = length (other_hosts hosts own)" using arg_cong [OF addresses, of length] by simp
  moreover have "n = int (length (other_hosts hosts own))" using publish_key1_run [OF assms(8)] by metis
  ultimately have "?peers \<noteq> []" using left(7,8) by auto
  then have "r = Inr key1" if "collect_key1 net pf uuid' basedir (Some boot_opts) fs w = Some (w', r)" for w' r
    using collect_key1_only [OF boots left(2) _ honest assms(11) ok that] by blast
  moreover have "\<exists>w'. collect_key1 net pf uuid' basedir (Some boot_opts) fs w = Some (w', Inr key1)"
    if A: "A \<subseteq> host_addr ` set (other_hosts hosts own)" "t \<le> int (card A)" "answers_from net ?certs clock since A" for A clock since
  proof -
    define B where "B = {p \<in> set ?peers. peer_addr p \<in> A}"
    have "peer_addr ` set ?peers = host_addr ` set (other_hosts hosts own)" using addresses by (metis list.set_map)
    then have image: "peer_addr ` B = A" using A(1) by (auto simp: B_def)
    moreover have "finite B" by (simp add: B_def)
    ultimately have card: "ss_treshold dealer \<le> int (card B)" using A(2) left(6) card_image_le [of B peer_addr] by simp
    have sub: "B \<subseteq> set ?peers" "peer_addr ` B \<subseteq> ?A" by (auto simp: B_def)
    have "answers_from net ?certs clock since (peer_addr ` B)" using A(3) image by simp
    from server_network.servers_come_back [OF here at left(2) assms(4) left(4) refl sub this, of port, folded certs]
    show ?thesis using collect_key1_live [OF boots left(2) honest assms(11) _ sub(1) card ok] by blast
  qed
  ultimately show ?thesis by blast
qed

text \<open>
  C3: KEY1 comes back at the next boot. The setup published KEY1 on the network and wrote the hosts
  document and the options for it. Whatever the other hosts have asked of the servers since, the
  initiator that reads the two files can only end with exactly this KEY1; and it does end, as soon as
  a treshold of the other hosts, any of them, answers again from some time on.
\<close>

theorem published_key1_comes_back:
  assumes "connects net pf node own (cert_paths basedir (Some opts))" "hosts_usable hosts own"
    and "build_hosts_data now' hosts own port' = Inr doc"
    and "plain_segment uuid4" "str_ok own" "str_ok now"
    and "\<And>a. honest_node pf own uuid4 None (node (se_world s) a)"
    and "publish_key1_to_network net pf tape uuid4 now basedir key1 hosts own (Some opts) s = Some (s', Inr (u, t, n))"
    and "\<And>a. traffic pf own (node (se_world s') a) (node w a)" "load_hosts_json basedir fs = Inr doc"
    and "\<And>w xs. mset (net_shuffle net w xs) = mset xs"
    and "boot_opts = add_key1_metadata u t n (format_value net) opts"
  shows "(\<forall>w' r. collect_key1 net pf uuid' basedir (Some boot_opts) fs w = Some (w', r) \<longrightarrow> r = Inr key1) \<and>
    (\<forall>A clock since. A \<subseteq> host_addr ` set (other_hosts hosts own) \<longrightarrow> t \<le> int (card A) \<longrightarrow>
       answers_from net (cert_paths basedir (Some opts)) clock since A \<longrightarrow>
       (\<exists>w'. collect_key1 net pf uuid' basedir (Some boot_opts) fs w = Some (w', Inr key1)))"
proof -
  have "u = PStr uuid4" using publish_key1_run [OF assms(8)] by metis
  then have "with_key1 uuid4 t n opts boot_opts" unfolding assms(12) by (simp add: add_key1_metadata_with)
  from published_key1_boots [OF assms(1-11) this] show ?thesis .
qed

section \<open>A worked setup and boot\<close>

text \<open>The three hosts of \<open>SetupProperties\<close> in the network of \<open>NetworkProperties\<close>.\<close>

lemma pair_addresses:
  "connection_host (PStr (lit ''a0'')) = Inr (lit ''a0'')" "connection_host (PStr (lit ''b0'')) = Inr (lit ''b0'')"
  "connection_host (PStr (lit ''c0'')) = Inr (lit ''c0'')"
  by (simp_all add: connection_host_def is_control_def lit_def)

lemma pair_others: "map host_addr (other_hosts pair_hosts (lit ''alice'')) = [lit ''b0'', lit ''c0'']"
  "length (other_hosts pair_hosts (lit ''alice'')) = 2"
  by (simp_all add: pair_hosts_def other_hosts_def host_addr_def pair_addresses)

lemma pair_usable: "hosts_usable pair_hosts (lit ''alice'')"
proof -
  have "distinct (map host_addr (other_hosts pair_hosts (lit ''alice'')))" by (simp add: pair_others)
  then show ?thesis by (simp add: hosts_usable_def pair_hosts_def host_addr_def pair_addresses)
qed

lemma pair_file:
  assumes "build_hosts_data (\<lambda>_. lit ''now'') pair_hosts (lit ''alice'') 59222 = Inr doc"
  obtains bs where "load_hosts_json (lit ''/b'') [lit ''/b/data/hosts.json'' \<mapsto> bs] = Inr doc"
proof -
  have doc: "doc = PDict [(lit ''hosts'', PDict (setup_records (\<lambda>_. lit ''now'') 0 (lit ''alice'') 59222 pair_hosts))]"
    using assms build_hosts_ok [of pair_hosts] pair_usable by (simp add: hosts_usable_def)
  have "str_ok []" by (simp add: str_ok_ascii)
  then have "json_ok doc" by (simp add: doc pair_hosts_def host_record_def dict_ok_def dec_digits.simps MAX_STR_DIGITS_def)
  then obtain bs where bs: "json_bytes_indent doc = Inr bs" "bindE (utf8_decode bs) json_loads = Inr (detuple doc)"
    by (rule mirror_text)
  have "path_join (path_join (lit ''/b'') (lit ''data'')) HOSTS_PLAINTEXT_FILENAME = lit ''/b/data/hosts.json''"
    by (simp add: path_join_def lit_def HOSTS_PLAINTEXT_FILENAME_def)
  moreover have "detuple doc = doc" by (simp add: doc pair_hosts_def host_record_def)
  ultimately have "load_hosts_json (lit ''/b'') [lit ''/b/data/hosts.json'' \<mapsto> bs] = Inr doc"
    using bs(2) by (simp add: load_hosts_json_def read_file_def)
  then show thesis by (rule that)
qed

lemma cluster_publishes_key1:
  "\<exists>s'. publish_key1_to_network cluster_net example_platform [7, 0, 1, 11, 0, 1] (lit ''u'') (lit ''now'') (lit ''/b'')
      (lit ''a'') pair_hosts (lit ''alice'') example_config
      \<lparr>se_world = (cluster_start, 0), se_files = Map.empty, se_echo = [], se_input = []\<rparr> =
    Some (s', Inr (PStr (lit ''u''), 2, 2))"
proof -
  let ?s = "\<lparr>se_world = (cluster_start, 0 :: nat), se_files = Map.empty, se_echo = [], se_input = []\<rparr>"
  let ?certs = "cert_paths (lit ''/b'') example_config"
  have start: "cluster_start (lit ''b0'') = example_app" "cluster_start (lit ''c0'') = example_app"
    by (simp_all add: cluster_start_def lit_def)
  obtain ac0 ac1 where p: "send_share cluster_net (PStr (lit ''b0'')) 59222 ?certs (participant_data key1_dealer 0) (cluster_start, 0) =
      ((cluster_start(lit ''b0'' := ac0), 0), Inr ())"
    "send_share cluster_net (PStr (lit ''c0'')) 59222 ?certs (participant_data key1_dealer 1) (cluster_start(lit ''b0'' := ac0), 0) =
      ((cluster_start(lit ''b0'' := ac0, lit ''c0'' := ac1), 0), Inr ())"
    using cluster_both [OF start example_name_ok(2)] unfolding key1_dealer_def by blast
  have others: "other_hosts pair_hosts (lit ''alice'') =
     [\<lparr>sh_name = lit ''b'', sh_addresses = [lit ''b0''], sh_role = lit ''server''\<rparr>,
      \<lparr>sh_name = lit ''c'', sh_addresses = [lit ''c0''], sh_role = lit ''server''\<rparr>]"
    by (simp add: other_hosts_def pair_hosts_def lit_def)
  have "ss_uuid key1_dealer = PStr (lit ''u'')" by (simp add: key1_dealer_def pair_dealer_def pair_empty_def example_empty_def)
  then show ?thesis
    by (simp add: publish_key1_to_network_def key1_shares_and_treshold_def others example_port doP_def doA_def
        key1_create key1_participants echoA_def first_address_def tryA_def worldA_def pureA_def p [simplified])
qed

lemma cluster_answers: "answers_from cluster_net certs snd 0 A"
  by (auto simp: answers_from_def answers_now_def cluster_net_def split: option.split prod.split)

theorem published_key1_comes_back_witness:
  "\<exists>opts doc bs s' w'. example_config = Some opts \<and>
    build_hosts_data (\<lambda>_. lit ''now'') pair_hosts (lit ''alice'') 59222 = Inr doc \<and>
    load_hosts_json (lit ''/b'') [lit ''/b/data/hosts.json'' \<mapsto> bs] = Inr doc \<and>
    publish_key1_to_network cluster_net example_platform [7, 0, 1, 11, 0, 1] (lit ''u'') (lit ''now'') (lit ''/b'')
      (lit ''a'') pair_hosts (lit ''alice'') example_config
      \<lparr>se_world = (cluster_start, 0), se_files = Map.empty, se_echo = [], se_input = []\<rparr> =
      Some (s', Inr (PStr (lit ''u''), 2, 2)) \<and>
    collect_key1 cluster_net example_platform [] (lit ''/b'')
      (Some (add_key1_metadata (PStr (lit ''u'')) 2 2 (format_value cluster_net) opts))
      [lit ''/b/data/hosts.json'' \<mapsto> bs] (se_world s') = Some (w', Inr (lit ''a''))"
proof -
  let ?s = "\<lparr>se_world = (cluster_start, 0 :: nat), se_files = Map.empty, se_echo = [], se_input = []\<rparr>"
  obtain opts where opts: "example_config = Some opts" by (simp add: example_config_def)
  obtain doc where doc: "build_hosts_data (\<lambda>_. lit ''now'') pair_hosts (lit ''alice'') 59222 = Inr doc"
    using build_hosts_ok [of pair_hosts] pair_usable by (simp add: hosts_usable_def)
  obtain bs where bs: "load_hosts_json (lit ''/b'') [lit ''/b/data/hosts.json'' \<mapsto> bs] = Inr doc"
    using pair_file [OF doc] by blast
  obtain s' where s': "publish_key1_to_network cluster_net example_platform [7, 0, 1, 11, 0, 1] (lit ''u'') (lit ''now'')
      (lit ''/b'') (lit ''a'') pair_hosts (lit ''alice'') (Some opts) ?s = Some (s', Inr (PStr (lit ''u''), 2, 2))"
    using cluster_publishes_key1 unfolding opts by blast
  have fresh: "honest_node example_platform (lit ''alice'') (lit ''u'') None (fst (se_world ?s) a)" for a
    by (simp add: cluster_fresh)
  have quiet: "traffic example_platform (lit ''alice'') (fst (se_world s') a) (fst (se_world s') a)" for a
    by (rule traffic.quiet)
  have perm: "mset (net_shuffle cluster_net w xs) = mset xs" for w xs by (simp add: cluster_net_def)
  have names: "str_ok (lit ''alice'')" "str_ok (lit ''now'')" by simp_all
  note boots = published_key1_comes_back [where node = fst, OF cluster_connects pair_usable doc plain_u(1) names fresh s'
      quiet bs perm refl, of "[]"]
  have addrs: "host_addr ` set (other_hosts pair_hosts (lit ''alice'')) = {lit ''b0'', lit ''c0''}"
    using pair_others(1) by (metis list.set_map list.simps(15) empty_set)
  have "2 \<le> int (card {lit ''b0'', lit ''c0''})" by simp
  then obtain w' where "collect_key1 cluster_net example_platform [] (lit ''/b'')
      (Some (add_key1_metadata (PStr (lit ''u'')) 2 2 (format_value cluster_net) opts))
      [lit ''/b/data/hosts.json'' \<mapsto> bs] (se_world s') = Some (w', Inr (lit ''a''))"
    using conjunct2 [OF boots] cluster_answers unfolding addrs by blast
  then show ?thesis using opts doc bs s' unfolding opts by blast
qed

end
