(* ===== verification/SetupBoot.thy ===== *)
theory SetupBoot
  imports SetupOutcome BootProperties
begin

text \<open>
  From the first prompt of the setup to the next boot: after a setup that ended normally, the initiator
  that loads \<open>config.ini\<close> and \<open>hosts.json\<close> from the disk starts the server with the KEY1 of the setup.
\<close>

section \<open>The hosts document on the disk\<close>

lemma atomic_write_other:
  assumes "p \<noteq> tmp" "p \<noteq> path"
  shows "fst (atomic_write_bytes plan tmp path data fs) p = fs p"
proof -
  have effect: "sys_effect path tmp c fs p = fs p" for c fs using assms by (cases c) (auto split: option.split)
  have "run_calls path tmp calls fs p = fs p" for calls fs
    by (induction calls arbitrary: fs) (simp_all add: run_calls_def effect)
  then show ?thesis using assms by (cases plan) (simp_all add: crash_state_def Let_def)
qed

lemma save_other:
  assumes "p \<noteq> io_tmp io" "p \<noteq> path"
  shows "fst (save cr io path key1 purpose data fs) p = fs p"
  using atomic_write_other [OF assms] by (auto simp: save_def split: sum.split)

lemma save_mirrored_other:
  assumes "p \<notin> {io_tmp io1, io_tmp io2, path_join dir enc, path_join dir plain}"
  shows "fst (save_mirrored cr io1 io2 dir enc plain key1 purpose data fs) p = fs p"
proof -
  have "fst (save cr io1 (path_join dir enc) key1 purpose data fs) p = fs p" using assms by (intro save_other) auto
  moreover have "fst (atomic_write_bytes (io_plan io2) (io_tmp io2) (path_join dir plain) bs fs1) p = fs1 p" for bs fs1
    using assms by (intro atomic_write_other) auto
  ultimately show ?thesis by (auto simp: save_mirrored_def split: prod.split sum.split)
qed

text \<open>\<open>hosts.json\<close> after the data files were written, if the temporary files have other names.\<close>

definition hosts_json :: "pystr \<Rightarrow> path" where
  "hosts_json basedir = path_join (path_join basedir (lit ''data'')) HOSTS_PLAINTEXT_FILENAME"

definition temporaries_elsewhere :: "bootstrap \<Rightarrow> path \<Rightarrow> bool" where
  "temporaries_elsewhere bs p \<longleftrightarrow> p \<notin> {io_tmp (fst (bs_hosts_io bs)), io_tmp (snd (bs_hosts_io bs)),
     io_tmp (fst (bs_sites_io bs)), io_tmp (snd (bs_sites_io bs)), io_tmp (bs_secrets_io bs)}"

lemma write_data_mirror:
  assumes "write_data pf bs (path_join basedir (lit ''data'')) hosts own port s = (s', Inr ())"
    and "build_hosts_data (bs_now bs) hosts own port = Inr doc" "temporaries_elsewhere bs (hosts_json basedir)"
  shows "se_world s' = se_world s"
    and "\<exists>text. json_bytes_indent doc = Inr text \<and> se_files s' (hosts_json basedir) = Some text"
proof -
  let ?dir = "path_join basedir (lit ''data'')" and ?cr = "pf_crypto pf"
  obtain fs1 where fs1: "save_mirrored ?cr (fst (bs_hosts_io bs)) (snd (bs_hosts_io bs)) ?dir
      HOSTS_FILENAME HOSTS_PLAINTEXT_FILENAME (bs_key1 bs) HOSTS_FILE_PURPOSE doc (se_files s) = (fs1, Inr ())"
    using assms(1,2) by (auto simp: write_data_def doA_Inr_iff filesA_def split: prod.splits)
  obtain fs2 where fs2: "save_mirrored ?cr (fst (bs_sites_io bs)) (snd (bs_sites_io bs)) ?dir
      SITES_FILENAME SITES_PLAINTEXT_FILENAME (bs_key1 bs) SITES_FILE_PURPOSE default_sites_data fs1 = (fs2, Inr ())"
    using assms(1,2) fs1 by (auto simp: write_data_def doA_Inr_iff filesA_def split: prod.splits)
  obtain fs3 where fs3: "save ?cr (bs_secrets_io bs) (path_join ?dir SECRETS_FILENAME) (bs_key1 bs)
      SECRETS_FILE_PURPOSE default_secrets_data fs2 = (fs3, Inr ())" and s': "s' = s\<lparr>se_files := fs3\<rparr>"
    using assms(1,2) fs1 fs2 by (auto simp: write_data_def doA_Inr_iff filesA_def split: prod.splits)
  show "se_world s' = se_world s" by (simp add: s')
  obtain fs0 content where t: "json_bytes_indent doc = Inr content" "atomic_write_bytes (io_plan (snd (bs_hosts_io bs)))
      (io_tmp (snd (bs_hosts_io bs))) (hosts_json basedir) content fs0 = (fs1, Inr ())"
    using fs1 by (auto simp: save_mirrored_def hosts_json_def split: prod.splits sum.splits)
  have "fs1 (hosts_json basedir) = Some content"
    by (rule atomic_write_content [OF _ t(2)]) (use assms(3) in \<open>auto simp: temporaries_elsewhere_def\<close>)
  moreover have names: "hosts_json basedir \<noteq> path_join ?dir SITES_FILENAME" "hosts_json basedir \<noteq> path_join ?dir SITES_PLAINTEXT_FILENAME"
    "hosts_json basedir \<noteq> path_join ?dir SECRETS_FILENAME" unfolding hosts_json_def
    by (auto dest!: path_join_inj simp: HOSTS_PLAINTEXT_FILENAME_def SITES_FILENAME_def SITES_PLAINTEXT_FILENAME_def
        SECRETS_FILENAME_def lit_def)
  moreover have "fs2 (hosts_json basedir) = fs1 (hosts_json basedir)"
    using save_mirrored_other [of "hosts_json basedir" "fst (bs_sites_io bs)" "snd (bs_sites_io bs)" ?dir SITES_FILENAME
        SITES_PLAINTEXT_FILENAME ?cr "bs_key1 bs" SITES_FILE_PURPOSE default_sites_data fs1] names assms(3) fs2
    by (simp add: temporaries_elsewhere_def)
  moreover have "fs3 (hosts_json basedir) = fs2 (hosts_json basedir)"
    using save_other [of "hosts_json basedir" "bs_secrets_io bs" "path_join ?dir SECRETS_FILENAME" ?cr "bs_key1 bs"
        SECRETS_FILE_PURPOSE default_secrets_data fs2] names assms(3) fs3
    by (simp add: temporaries_elsewhere_def)
  ultimately show "\<exists>text. json_bytes_indent doc = Inr text \<and> se_files s' (hosts_json basedir) = Some text"
    using t(1) by (simp add: s')
qed

section \<open>What the processes of this host leave alone\<close>

text \<open>
  Starting, signalling and waiting happen on this host: the servers of the network at most answer
  others meanwhile, and the file that is kept stays as it is.
\<close>

definition local_sys :: "'w sys \<Rightarrow> platform \<Rightarrow> ('w \<Rightarrow> pystr \<Rightarrow> app_config) \<Rightarrow> pystr \<Rightarrow> path \<Rightarrow> bool" where
  "local_sys sys pf node me kept \<longleftrightarrow>
     (\<forall>args s a. traffic pf me (node (se_world s) a) (node (se_world (fst (sy_spawn sys args s))) a) \<and>
        se_files (fst (sy_spawn sys args s)) kept = se_files s kept) \<and>
     (\<forall>pid msg s a. traffic pf me (node (se_world s) a) (node (se_world (fst (sy_child sys pid msg s))) a) \<and>
        se_files (fst (sy_child sys pid msg s)) kept = se_files s kept) \<and>
     (\<forall>pid sig w a. traffic pf me (node w a) (node (fst (sy_kill sys pid sig w)) a)) \<and>
     (\<forall>d w a. traffic pf me (node w a) (node (sy_nap sys d w) a))"

lemma traffic_trans: "traffic pf me b c \<Longrightarrow> traffic pf me a b \<Longrightarrow> traffic pf me a c"
  by (induction rule: traffic.induct) (auto intro: traffic.intros)

lemma start_server_local:
  assumes "start_server sys pf basedir config_file key1 s = (s', Inr pid)" "local_sys sys pf' node me kept"
    and "kept \<noteq> io_tmp (sy_pid_io sys)" "kept \<noteq> pid_file_path basedir"
  shows "traffic pf' me (node (se_world s) a) (node (se_world s') a)" "se_files s' kept = se_files s kept"
proof -
  obtain s0 pid0 where spawn: "sy_spawn sys [lit ''--basedir'', basedir, lit ''--config-file'', config_file] s = (s0, Inr pid0)"
    using assms(1) by (auto simp: start_server_def doA_Inr_iff)
  let ?msg = "case key1_message key1 of Inl _ \<Rightarrow> [] | Inr msg \<Rightarrow> msg"
  obtain s1 sent answer where child: "sy_child sys pid0 ?msg s0 = (s1, sent, answer)" by (rule prod_cases3)
  have t0: "traffic pf' me (node (se_world s) a) (node (se_world s0) a) \<and> se_files s0 kept = se_files s kept"
    using assms(2) spawn unfolding local_sys_def by (metis fst_conv)
  have t1: "traffic pf' me (node (se_world s0) a) (node (se_world s1) a) \<and> se_files s1 kept = se_files s0 kept"
    using assms(2) child unfolding local_sys_def by (metis fst_conv)
  obtain bs where w: "atomic_write_bytes (io_plan (sy_pid_io sys)) (io_tmp (sy_pid_io sys)) (pid_file_path basedir) bs (se_files s1)
      = (se_files s', Inr ())" "se_world s' = se_world s1"
    using assms(1) spawn child by (auto simp: start_server_def doA_def filesA_def pureA_def split: prod.splits sum.splits)
  show "traffic pf' me (node (se_world s) a) (node (se_world s') a)" using t0 t1 w(2) traffic_trans by metis
  have "se_files s' kept = se_files s1 kept" using atomic_write_other [OF assms(3,4)] w(1) by (metis fst_conv)
  then show "se_files s' kept = se_files s kept" using t0 t1 by simp
qed

lemma pid_is_alive_local:
  assumes "local_sys sys pf me_node me kept" "pid_is_alive sys pid w = (w', r)"
  shows "traffic pf me (me_node w a) (me_node w' a)"
proof -
  have "w' = fst (sy_kill sys pid 0 w)" using assms(2) by (auto simp: pid_is_alive_def split: prod.splits sum.splits if_splits)
  then show ?thesis using assms(1) by (simp add: local_sys_def)
qed


lemma kill_local: "local_sys sys pf node me kept \<Longrightarrow> traffic pf me (node w a) (node (fst (sy_kill sys pid sig w)) a)"
  by (simp add: local_sys_def)

lemma await_exit_local:
  assumes "local_sys sys pf node me kept" "await_exit sys pid deadline w = Some (w', r)"
  shows "traffic pf me (node w a) (node w' a)"
proof -
  have "local_sys sys pf node me kept \<longrightarrow> traffic pf me (node w a) (node w' a)"
  proof (induction sys pid deadline w "(w', r)" rule: await_exit.raw_induct)
    case (1 loop sys pid deadline w)
    show ?case
    proof
      assume local: "local_sys sys pf node me kept"
      obtain w1 r1 where alive: "pid_is_alive sys pid w = (w1, r1)" by (rule prod.exhaust)
      note t = pid_is_alive_local [OF local alive, of a]
      have nap: "traffic pf me (node w1 a) (node (sy_nap sys 100000 w1) a)" using local by (simp add: local_sys_def)
      show "traffic pf me (node w a) (node w' a)"
      proof (cases "sy_clock sys w < deadline \<and> r1 = Inr True")
        case True
        then have "loop sys pid deadline (sy_nap sys 100000 w1) = Some (w', r)" using "1.hyps"(2) alive by simp
        then have "traffic pf me (node (sy_nap sys 100000 w1) a) (node w' a)" using "1.hyps"(1) local by blast
        then show ?thesis using t nap traffic_trans by blast
      next
        case False
        then have "w' = w1 \<or> w' = w" using "1.hyps"(2) alive by (auto split: if_splits sum.splits)
        then show ?thesis using t traffic.quiet by blast
      qed
    qed
  qed (rule assms(2))
  with assms(1) show ?thesis by blast
qed

lemma terminate_pid_local:
  assumes local: "local_sys sys pf node me kept" and run: "terminate_pid sys timeout pid w = Some (w', r)"
  shows "traffic pf me (node w a) (node w' a)"
proof -
  obtain w1 r1 where alive: "pid_is_alive sys pid w = (w1, r1)" by (rule prod.exhaust)
  note t1 = pid_is_alive_local [OF local alive, of a]
  obtain w2 r2 where kill: "sy_kill sys pid 15 w1 = (w2, r2)" by (rule prod.exhaust)
  have t2: "traffic pf me (node w1 a) (node w2 a)" using kill_local [OF local, of w1 a pid 15] kill by simp
  show ?thesis
  proof (cases "r1 = Inr True \<and> r2 = Inr ()")
    case True
    then obtain w3 r3 where wait: "await_exit sys pid (sy_clock sys w2 + timeout) w2 = Some (w3, r3)"
      using run alive kill by (auto simp: terminate_pid_def split: option.splits)
    note t3 = await_exit_local [OF local wait, of a]
    obtain w4 r4 where still: "pid_is_alive sys pid w3 = (w4, r4)" by (rule prod.exhaust)
    note t4 = pid_is_alive_local [OF local still, of a]
    have "w' = w3 \<or> w' = w4 \<or> w' = fst (sy_kill sys pid 9 w4)"
      using run alive kill True wait still
      by (auto simp: terminate_pid_def doA_def pureA_def split: sum.splits if_splits prod.splits)
    then show ?thesis using t1 t2 t3 t4 kill_local [OF local, of w4 a pid 9] traffic_trans by metis
  next
    case False
    then have "w' = w1 \<or> w' = w2" using run alive kill by (auto simp: terminate_pid_def split: sum.splits if_splits)
    then show ?thesis using t1 t2 traffic_trans by blast
  qed
qed

lemma stop_server_local:
  assumes "stop_server sys pf' basedir timeout s = Some (s', r)" "local_sys sys pf node me kept"
  shows "traffic pf me (node (se_world s) a) (node (se_world s') a)"
  using assms traffic.quiet [of pf me]
  by (auto simp: stop_server_def split: sum.splits option.splits dest!: terminate_pid_local [OF assms(2), where a = a])

lemma handoff_local:
  assumes "manual_systemd_handoff sys pf' basedir cfg s = Some (s', Inr ())" "local_sys sys pf node me kept"
  shows "traffic pf me (node (se_world s) a) (node (se_world s') a)"
    and "p \<noteq> pid_file_path basedir \<Longrightarrow> se_files s' p = se_files s p"
proof -
  obtain s1 s2 stopped where "dialogA confirm_loop (s\<lparr>se_echo := se_echo s @ handoff_lines\<rparr>) = (s1, Inr ())"
    and stop: "stop_server sys pf' basedir STOP_TIMEOUT s1 = Some (s2, Inr stopped)"
    and end2: "se_files s' = se_files s2" "se_world s' = se_world s2"
    using assms(1) by (auto simp: manual_systemd_handoff_def doP_Inr_iff echoA_def Let_def)
  then have "se_files s1 = se_files s" "se_world s1 = se_world s" using dialogA_keeps by fastforce+
  with stop_server_local [OF stop assms(2)] stop_server_keeps [OF stop] end2
  show "traffic pf me (node (se_world s) a) (node (se_world s') a)" "p \<noteq> pid_file_path basedir \<Longrightarrow> se_files s' p = se_files s p"
    by simp_all
qed

section \<open>Asking whether the others are there\<close>

context server_network begin

lemma reachable_honest:
  assumes "is_reachable net address port certs w = (w', r)" "honest_world pf node me u expected w"
  shows "honest_world pf node me u expected w'"
proof -
  obtain w1 r1 where call: "http_call net address port certs 3 GET (lit ''/'') None w = (w1, r1)" by (rule prod.exhaust)
  have "w' = w1" using assms(1) call by (auto simp: is_reachable_def tryA_def doA_def pureA_def split: sum.splits prod.splits if_splits)
  moreover have "honest_world pf node me u expected w1"
  proof (cases "connection_host address")
    case (Inl e)
    then have "w1 = w" using call by (auto simp: http_call_def doA_def connect_def bindE_Inr_iff split: sum.splits)
    then show ?thesis using assms(2) by simp
  next
    case (Inr h)
    have "request_path (lit ''/'') = Inr (lit ''/'')" "route_of GET (lit ''/'') = Some Index"
      by (simp_all add: request_path_def is_control_def route_of_def lit_def)
    from call_honest(1) [OF call Inr this assms(2)] show ?thesis by (simp add: keeps_honest_others)
  qed
  ultimately show ?thesis by simp
qed

lemma poll_round_honest:
  assumes "poll_round net port certs names remaining s = (s', r)" "honest_world pf node me u expected (se_world s)"
  shows "honest_world pf node me u expected (se_world s')"
  using assms
proof (induction names arbitrary: remaining s)
  case (Cons nh names)
  obtain name host where nh: "nh = (name, host)" by (rule prod.exhaust)
  show ?case
  proof (cases "first_address host")
    case (Inr address)
    obtain w1 r1 where up: "is_reachable net (PStr address) port certs (se_world s) = (w1, r1)" by (rule prod.exhaust)
    note w1 = reachable_honest [OF up Cons.prems(2)]
    show ?thesis
    proof (cases r1)
      case (Inl e)
      then show ?thesis using Cons.prems(1) nh Inr up w1 by (auto simp: doA_def worldA_def pureA_def)
    next
      case r1: (Inr b)
      define s1 where "s1 = (if b then s\<lparr>se_world := w1, se_echo := se_echo s @ [Out (lit ''  '' @ name @ lit '': online'')]\<rparr>
        else s\<lparr>se_world := w1\<rparr>)"
      define remaining' where "remaining' = (if b then AList.delete name remaining else remaining)"
      have "poll_round net port certs names remaining' s1 = (s', r)"
        using Cons.prems(1) nh Inr up r1 by (cases b) (simp_all add: doA_def worldA_def pureA_def echoA_def s1_def remaining'_def)
      moreover have "honest_world pf node me u expected (se_world s1)" using w1 by (simp add: s1_def)
      ultimately show ?thesis by (rule Cons.IH)
    qed
  qed (use Cons.prems nh in \<open>auto simp: doA_def pureA_def\<close>)
qed (simp add: pureA_def)

lemma sleep_honest: "honest_world pf node me u expected w \<Longrightarrow> honest_world pf node me u expected (net_sleep net n w)"
proof -
  assume ok: "honest_world pf node me u expected w"
  have "traffic pf me (node w a) (node (net_sleep net n w) a)" for a using connected by (simp add: connects_def)
  then show ?thesis using ok by (auto simp: honest_world_def intro: honest_node_traffic)
qed

lemma poll_rounds_honest:
  assumes "poll_rounds net port certs remaining n s = Some (s', r)" "honest_world pf node me u expected (se_world s)"
  shows "honest_world pf node me u expected (se_world s')"
proof -
  have "net0 = net \<longrightarrow> certs0 = certs \<longrightarrow> honest_world pf node me u expected (se_world s) \<longrightarrow>
      honest_world pf node me u expected (se_world s')"
    if "poll_rounds net0 port certs0 remaining n s = Some (s', r)" for net0 certs0
  proof (induction net0 port certs0 remaining n s "(s', r)" rule: poll_rounds.raw_induct)
    case (1 rounds net0 port certs0 remaining n s)
    show ?case
    proof (intro impI)
      assume same: "net0 = net" "certs0 = certs" and ok: "honest_world pf node me u expected (se_world s)"
      obtain s1 r1 where round: "poll_round net port certs remaining remaining s = (s1, r1)" by (rule prod.exhaust)
      note s1 = poll_round_honest [OF round ok]
      consider "s' = s" | "s' = s1" | left where "r1 = Inr left" "remaining \<noteq> []" using "1.hyps"(2) round same
        by (auto split: if_splits sum.splits)
      then show "honest_world pf node me u expected (se_world s')"
      proof cases
        case (3 left)
        define s2 where "s2 = (if left = [] then s1
             else fst (doA (echoA [waiting_line left n]) (\<lambda>_. sleepA net POLL_INTERVAL_SECONDS) s1))"
        have "rounds net port certs left (Suc n) s2 = Some (s', r)" using "1.hyps"(2) round same 3 by (auto simp: s2_def)
        moreover have "honest_world pf node me u expected (se_world s2)"
          using s1 sleep_honest by (simp add: s2_def doA_def echoA_def sleepA_def worldA_def)
        ultimately show ?thesis using "1.hyps"(1) same by blast
      qed (use ok s1 in simp_all)
    qed
  qed (rule that)
  with assms show ?thesis by blast
qed

lemma poll_for_hosts_online_honest:
  assumes "poll_for_hosts_online net pf' basedir hosts own cfg s = Some (s', r)" "certs = cert_paths basedir cfg"
    and "honest_world pf node me u expected (se_world s)"
  shows "honest_world pf node me u expected (se_world s')"
proof (cases "cfg_getint (pf_int pf') cfg (lit ''server-port'') None")
  case (Inr port)
  define s1 where "s1 = fst (echoA [Out [], Out (lit ''Waiting for all '' @ dec_digits (length (other_hosts hosts own)) @
            lit '' other host(s) to come online (Ctrl+C to give up)...'')] s)"
  obtain s2 r2 where polled: "poll_rounds net port certs (by_name (other_hosts hosts own)) 1 s1 = Some (s2, r2)"
    "se_world s' = se_world s2"
    using assms(1,2) Inr by (auto simp: poll_for_hosts_online_def doP_def pureA_def echoA_def s1_def split: sum.splits option.splits prod.splits)
  have "se_world s1 = se_world s" by (simp add: s1_def echoA_def)
  then show ?thesis using poll_rounds_honest [OF polled(1)] polled(2) assms(3) by simp
qed (use assms in \<open>simp add: poll_for_hosts_online_def doP_def pureA_def\<close>)

end

section \<open>The document of hosts that the setup wrote\<close>

text \<open>Texts that JSON takes and gives back.\<close>

definition hosts_texts :: "setup_host list \<Rightarrow> bool" where
  "hosts_texts hosts \<longleftrightarrow> (\<forall>h \<in> set hosts. str_ok (sh_name h) \<and> list_all str_ok (sh_addresses h) \<and> str_ok (sh_role h))"

lemma setup_records_json:
  assumes "\<forall>h \<in> set hosts. str_ok (sh_name h) \<and> sh_addresses h \<noteq> [] \<and> list_all str_ok (sh_addresses h) \<and> str_ok (sh_role h)"
    and "\<And>j. str_ok (now j)" "hosts = [] \<or> length (dec_digits (nat \<bar>port\<bar>)) \<le> MAX_STR_DIGITS"
  shows "list_all (\<lambda>(k, v). str_ok k \<and> json_ok v \<and> detuple v = v) (setup_records now i own port hosts)"
proof -
  have "str_ok []" by (simp add: str_ok_ascii)
  moreover have "list_all json_ok (map PStr xs)" if "list_all str_ok xs" for xs using that by (induction xs) simp_all
  moreover have "map (detuple \<circ> PStr) xs = map PStr xs" for xs by simp
  moreover have "str_ok (hd (sh_addresses h))" if "h \<in> set hosts" for h
    using bspec [OF assms(1) that] by (cases "sh_addresses h") auto
  ultimately have "json_ok (host_record h (hd (sh_addresses h)) own port (now j)) \<and>
      detuple (host_record h (hd (sh_addresses h)) own port (now j)) = host_record h (hd (sh_addresses h)) own port (now j)"
    if "h \<in> set hosts" for h j
    using bspec [OF assms(1) that] that assms(2,3) by (auto simp: host_record_def dict_ok_def)
  then show ?thesis using assms(1) by (fastforce simp: list_all_iff dest: setup_records_in)
qed

lemma setup_doc_ok:
  assumes "hosts_usable hosts own" "hosts_texts hosts" "\<And>i. str_ok (now i)"
    and "build_hosts_data now hosts own port = Inr doc" "ints_ok doc"
  shows "json_ok doc" "detuple doc = doc"
proof -
  have u: "distinct (map sh_name hosts)" "\<forall>h \<in> set hosts. sh_addresses h \<noteq> []" "hosts \<noteq> []"
    using assms(1) by (auto simp: hosts_usable_def)
  have doc: "doc = PDict [(lit ''hosts'', PDict (setup_records now 0 own port hosts))]"
    using assms(4) build_hosts_ok [OF u(1,2)] by simp
  have "length (dec_digits (nat \<bar>port\<bar>)) \<le> MAX_STR_DIGITS"
    using u(3) assms(5) by (cases hosts) (auto simp: doc host_record_def)
  then have recs: "list_all (\<lambda>(k, v). str_ok k \<and> json_ok v \<and> detuple v = v) (setup_records now 0 own port hosts)"
    using setup_records_json assms(2,3) u(2) by (auto simp: hosts_texts_def)
  have "dict_ok (setup_records now 0 own port hosts)" using u(1) by (simp add: dict_ok_def setup_records_names)
  with recs show "json_ok doc" by (auto simp: doc dict_ok_def list_all_iff)
  show "detuple doc = doc" using recs by (auto simp: doc list_all_iff intro!: map_idI)
qed

lemma setup_doc_loads:
  assumes "hosts_usable hosts own" "hosts_texts hosts" "\<And>i. str_ok (now i)"
    and "build_hosts_data now hosts own port = Inr doc" "json_bytes_indent doc = Inr content"
    and "fs (hosts_json basedir) = Some content"
  shows "load_hosts_json basedir fs = Inr doc"
proof -
  have "ints_ok doc" using assms(5) by (auto simp: json_bytes_indent_def json_dumps_indent_def split: if_splits)
  note ok = setup_doc_ok [where now = now, OF assms(1-4) this]
  have "bindE (utf8_decode content) json_loads = Inr doc" using mirror_text [OF ok(1)] ok(2) assms(5) by (metis Inr_inject)
  then show ?thesis using assms(6) by (simp add: load_hosts_json_def hosts_json_def read_file_def)
qed

section \<open>The configuration of the next boot\<close>

lemma update_dict_ok: "dict_ok (AList.update k v d) \<Longrightarrow> dict_ok d"
  by (induction d) (auto simp: dict_ok_def dom_update split: if_splits)

lemma set_default_section: "map_of ini (lit ''secretweb'') \<noteq> None \<Longrightarrow> map_of (set_default kv ini) (lit ''secretweb'') \<noteq> None"
  by (auto simp: set_default_def with_options_def split: option.split)

lemma default_config_section:
  assumes "load_or_default_config lower path fs = Inr ini"
  shows "map_of ini (lit ''secretweb'') \<noteq> None"
proof -
  have fold: "map_of (fold set_default kvs ini) (lit ''secretweb'') \<noteq> None" if "map_of ini (lit ''secretweb'') \<noteq> None" for kvs ini
    using that
  proof (induction kvs arbitrary: ini)
    case (Cons kv kvs)
    from Cons.IH [OF set_default_section [OF Cons.prems]] show ?case by simp
  qed simp
  obtain ini' where ini': "ini = fold set_default config_defaults
      (if map_of ini' (lit ''secretweb'') = None then ini' @ [(lit ''secretweb'', [])] else ini')"
    using assms by (auto simp: load_or_default_config_def bindE_Inr_iff)
  have "map_of (if map_of ini' (lit ''secretweb'') = None then ini' @ [(lit ''secretweb'', [])] else ini') (lit ''secretweb'') \<noteq> None"
    by (simp add: map_add_Some_iff map_of_append)
  from fold [OF this] show ?thesis unfolding ini' .
qed

text \<open>The section before the setup, while the server runs, and at the next boot.\<close>

lemma boot_options:
  fixes ini0 :: ini and uuid :: pystr and t n :: int and net :: "'w net"
  defines "ini1 \<equiv> with_options (AList.update (lit ''initiated'') (lit ''True'')) ini0"
  defines "ini2 \<equiv> with_options (add_key1_metadata (PStr uuid) t n (format_value net)) ini1"
  assumes "map_of ini0 (lit ''secretweb'') \<noteq> None" "ini_ok lower ini2"
  shows "\<exists>opts0 opts1 opts2. secretweb_section ini0 = Some opts0 \<and> secretweb_section ini1 = Some opts1 \<and>
    secretweb_section ini2 = Some opts2 \<and> cert_paths basedir (Some opts1) = cert_paths basedir (Some opts0) \<and>
    with_key1 uuid t n opts1 opts2 \<and> cfg_getboolean (Some opts2) (lit ''initiated'') = Inr True"
proof -
  obtain own where own: "map_of ini0 (lit ''secretweb'') = Some own" using assms(3) by auto
  let ?own1 = "AList.update (lit ''initiated'') (lit ''True'') own"
  let ?own2 = "add_key1_metadata (PStr uuid) t n (format_value net) ?own1"
  have own1: "map_of ini1 (lit ''secretweb'') = Some ?own1" by (simp add: ini1_def with_options_own own)
  have own2: "map_of ini2 (lit ''secretweb'') = Some ?own2" by (simp add: ini2_def with_options_own own1)
  have "(lit ''secretweb'', ?own2) \<in> set ini2" using own2 by (rule map_of_SomeD)
  then have ok2: "dict_ok ?own2" using assms(4) by (auto simp: ini_ok_def table_ok_ini_def list_all_iff)
  then have ok1: "dict_ok ?own1" unfolding add_key1_metadata_def by (blast dest: update_dict_ok)
  then have ok: "dict_ok own" by (rule update_dict_ok)
  have "lit ''secretweb'' \<noteq> DEFAULT_SECTION" by (simp add: DEFAULT_SECTION_def)
  then have defaults: "map_of ini1 DEFAULT_SECTION = map_of ini0 DEFAULT_SECTION" "map_of ini2 DEFAULT_SECTION = map_of ini0 DEFAULT_SECTION"
    by (simp_all add: ini1_def ini2_def with_options_def)
  let ?d = "case map_of ini0 DEFAULT_SECTION of None \<Rightarrow> [] | Some d \<Rightarrow> d"
  have sections: "secretweb_section ini0 = Some (dict_merge ?d own)" "secretweb_section ini1 = Some (dict_merge ?d ?own1)"
    "secretweb_section ini2 = Some (dict_merge ?d ?own2)"
    by (simp_all add: secretweb_section_def own own1 own2 defaults)
  note look = dict_merge_lookup [OF ok] dict_merge_lookup [OF ok1] dict_merge_lookup [OF ok2]
  have "cert_paths basedir (Some (dict_merge ?d ?own1)) = cert_paths basedir (Some (dict_merge ?d own))"
    by (simp add: cert_paths_def cfg_get_def cfg_option_def look)
  moreover have "with_key1 uuid t n (dict_merge ?d ?own1) (dict_merge ?d ?own2)"
    unfolding with_key1_def look by (simp add: add_key1_metadata_def format_value_def)
  moreover have "cfg_getboolean (Some (dict_merge ?d ?own2)) (lit ''initiated'') = Inr True"
    unfolding cfg_getboolean_def cfg_option_def option.case look
    by (simp add: add_key1_metadata_def) (simp add: str_lower_def lower_ascii_def lit_def)
  ultimately show ?thesis using sections by blast
qed

lemma archive_world: "archive_existing_files dir tag names s = Some (s', r) \<Longrightarrow> se_world s' = se_world s"
proof (induction names arbitrary: s)
  case (Cons name names)
  then show ?case
    by (auto simp: Let_def doP_def doA_def filesA_def echoA_def split: option.splits prod.splits sum.splits)
qed simp

lemma clear_old_data_local:
  assumes "clear_old_data sys pf' bs basedir s = Some (s', r)" "local_sys sys pf node me kept"
  shows "traffic pf me (node (se_world s) a) (node (se_world s') a)"
proof (cases "existing_data_files (path_join basedir (lit ''data'')) (se_files s) = []")
  case False
  obtain s1 r1 where confirm: "confirm_destructive_reset (existing_data_files (path_join basedir (lit ''data'')) (se_files s)) s = (s1, r1)"
    by (rule prod.exhaust)
  then have s1: "se_world s1 = se_world s"
    by (auto simp: confirm_destructive_reset_def doA_def echoA_def inputA_def pureA_def split: prod.splits sum.splits list.splits if_splits)
  show ?thesis
  proof (cases r1)
    case (Inl e)
    then have "s' = s1" using assms(1) False confirm by (simp add: clear_old_data_def Let_def doP_def)
    then show ?thesis using s1 traffic.quiet [of pf me] by simp
  next
    case (Inr u)
    then obtain s2 r2 where stop: "stop_server sys pf' basedir STOP_TIMEOUT s1 = Some (s2, r2)"
      and s': "se_world s' = se_world s2"
      using assms(1) False confirm
      by (auto simp: clear_old_data_def stop_existing_server_def Let_def doP_def echoA_def split: option.splits prod.splits sum.splits
          dest!: archive_world)
    from stop_server_local [OF stop assms(2)] s1 s' show ?thesis by simp
  qed
next
  case True
  then show ?thesis using assms(1) traffic.quiet [of pf me] by (simp add: clear_old_data_def)
qed

section \<open>From the setup to the boot\<close>

text \<open>What the initiator does with the KEY1 that it has brought back.\<close>

definition started_with :: "'w sys \<Rightarrow> platform \<Rightarrow> pystr \<Rightarrow> path \<Rightarrow> pystr \<Rightarrow> ('w session, unit) action" where
  "started_with sys pf basedir config_file key1 =
     doA (tryA (start_server sys pf basedir config_file key1) is_start_error
            (failed_with pf ''status: FAILED to start server: ''))
       (\<lambda>_. echoA [Out (lit ''status: OK - key1 reconstructed, server started, port bound'')])"

lemma initiator_starts:
  assumes "command_config pf basedir config_file (se_files s) = Inr (Some opts)"
    and "cfg_getboolean (Some opts) (lit ''initiated'') = Inr True"
  shows "initiator_command net sys pf uuid4 basedir config_file False s =
    map_option (\<lambda>(w, r). doA (tryA (\<lambda>s. (s, r)) is_recovery_error (failed_with pf ''status: FAILED to reconstruct key1: ''))
        (started_with sys pf basedir (config_path basedir config_file)) (s\<lparr>se_world := w\<rparr>))
      (collect_key1 net pf uuid4 basedir (Some opts) (se_files s) (se_world s))"
  using assms by (simp add: initiator_command_def initiator_main_def started_with_def [abs_def])

lemma recovered: "doA (tryA (\<lambda>s. (s, Inr key1)) p h) k s = k key1 s"
  by (simp add: doA_def tryA_def)

text \<open>
  C2: from the setup to the next boot. If the setup of a host ended normally, with usable hosts on
  honest servers, then at every later boot, whatever the other hosts have asked of the servers in
  between, the initiator that loads the two files of the setup can only end by starting the server
  with exactly the KEY1 of the setup; and it comes to that as soon as a majority of the other hosts,
  any of them, answers from some time on.
\<close>

theorem setup_then_boot:
  assumes "setup_main net sys pf bs basedir config_file s = Some (s', Inr ini)"
    and "clear_old_data sys pf bs basedir s = Some (s0, Inr ())"
    and "load_or_default_config (str_lower (pf_lower pf)) (config_path basedir config_file) (se_files s0) = Inr ini0"
    and "ask_hosts bs basedir (secretweb_section ini0) s0 = (s1, Inr (hosts, own))"
    and "hosts_usable hosts own" "hosts_texts hosts" "\<And>i. str_ok (bs_now bs i)"
    and "plain_segment (bs_uuid bs)" "str_ok (bs_split_time bs)" "ini_ok (str_lower (pf_lower pf)) ini"
    and "plain_write bs" "temporaries_elsewhere bs (hosts_json basedir)" "hosts_json basedir \<noteq> io_tmp (sy_pid_io sys)"
    and "config_path basedir config_file \<notin> {hosts_json basedir, pid_file_path basedir}"
    and "local_sys sys pf node own (hosts_json basedir)"
    and "connects net pf node own (cert_paths basedir (secretweb_section ini0))"
    and "\<And>a. honest_node pf own (bs_uuid bs) None (node (se_world s) a)"
    and "\<And>w xs. mset (net_shuffle net w xs) = mset xs"
    and "\<And>a. traffic pf own (node (se_world s') a) (node (se_world b) a)"
    and "\<And>p. p \<in> {config_path basedir config_file, hosts_json basedir} \<Longrightarrow> se_files b p = se_files s' p"
  shows "(\<forall>b' r. initiator_command net sys pf uuid' basedir config_file False b = Some (b', r) \<longrightarrow>
       (\<exists>w. started_with sys pf basedir (config_path basedir config_file) (bs_key1 bs) (b\<lparr>se_world := w\<rparr>) = (b', r))) \<and>
    (\<forall>A clock since. A \<subseteq> host_addr ` set (other_hosts hosts own) \<longrightarrow> length (other_hosts hosts own) div 2 + 1 \<le> card A \<longrightarrow>
       answers_from net (cert_paths basedir (secretweb_section ini0)) clock since A \<longrightarrow>
       (\<exists>w. initiator_command net sys pf uuid' basedir config_file False b =
         Some (started_with sys pf basedir (config_path basedir config_file) (bs_key1 bs) (b\<lparr>se_world := w\<rparr>))))"
proof -
  let ?path = "config_path basedir config_file" and ?hosts = "hosts_json basedir" and ?certs = "cert_paths basedir (secretweb_section ini0)"
  let ?ini1 = "with_options (AList.update (lit ''initiated'') (lit ''True'')) ini0"
  obtain s5 ini0' hosts' own' where front: "setup_front sys pf bs basedir config_file s = Some (s5, Inr (ini0', hosts', own'))"
    and rest0: "setup_back net sys pf bs basedir config_file (ini0', hosts', own') s5 = Some (s', Inr ini)"
    by (rule setup_main_run [OF assms(1)])
  obtain s0' s1' port s2 s3 s4 pid where front_run: "clear_old_data sys pf bs basedir s = Some (s0', Inr ())"
    "load_or_default_config (str_lower (pf_lower pf)) ?path (se_files s0') = Inr ini0'"
    "ask_hosts bs basedir (secretweb_section ini0') s0' = (s1', Inr (hosts', own'))"
    "write_data pf bs (path_join basedir (lit ''data'')) hosts' own' port s1' = (s2, Inr ())"
    "write_config bs ?path (with_options (AList.update (lit ''initiated'') (lit ''True'')) ini0') s2 = (s3, Inr ())"
    "se_files s4 = se_files s3" "se_world s4 = se_world s3" "start_server sys pf basedir ?path (bs_key1 bs) s4 = (s5, Inr pid)"
    by (rule setup_front_run [OF front])
  have same: "ini0' = ini0" "s1' = s1" "hosts' = hosts" "own' = own" using front_run(1-3) assms(2-4) by auto
  note run = front_run(4-8) [unfolded same] and rest = rest0 [unfolded same]
  obtain s6 s7 s8 s9 u t n where back_run: "se_files s6 = se_files s5" "se_world s6 = se_world s5"
    "poll_for_hosts_online net pf basedir hosts own (secretweb_section ?ini1) s6 = Some (s7, Inr ())"
    "publish_key1_to_network net pf (bs_tape bs) (bs_uuid bs) (bs_split_time bs) basedir (bs_key1 bs) hosts own
       (secretweb_section ?ini1) s7 = Some (s8, Inr (u, t, n))"
    "ini = with_options (add_key1_metadata u t n (format_value net)) ?ini1"
    "write_config bs ?path ini s8 = (s9, Inr ())"
    "manual_systemd_handoff sys pf basedir (secretweb_section ini) s9 = Some (s', Inr ())"
    by (rule setup_back_run [OF rest])
  note run = run back_run
  note published = publish_key1_result [OF run(9)]
  have ini: "ini = with_options (add_key1_metadata (PStr (bs_uuid bs)) t n (format_value net)) ?ini1"
    using run(10) published(2) by simp
  have "ini_ok (str_lower (pf_lower pf)) (with_options (add_key1_metadata (PStr (bs_uuid bs)) t n (format_value net)) ?ini1)"
    using assms(10) unfolding ini .
  from boot_options [OF default_config_section [OF assms(3)] this, folded ini, of basedir]
  obtain opts0 opts1 opts where opts: "secretweb_section ini0 = Some opts0" "secretweb_section ?ini1 = Some opts1"
    "secretweb_section ini = Some opts" "cert_paths basedir (Some opts1) = cert_paths basedir (Some opts0)"
    "with_key1 (bs_uuid bs) t n opts1 opts" "cfg_getboolean (Some opts) (lit ''initiated'') = Inr True" by blast
  have certs: "?certs = cert_paths basedir (Some opts1)" using opts(1,4) by simp
  have files: "?path \<noteq> ?hosts" "?path \<noteq> pid_file_path basedir" "?hosts \<noteq> pid_file_path basedir"
    using assms(14) unfolding hosts_json_def pid_file_path_def
    by (auto simp: HOSTS_PLAINTEXT_FILENAME_def PID_FILENAME_def lit_def dest!: path_join_inj)
  obtain doc where doc: "build_hosts_data (bs_now bs) hosts own port = Inr doc"
    using run(1) by (auto simp: write_data_def doA_Inr_iff)
  from write_data_mirror(2) [OF run(1) doc assms(12)]
  obtain content where content: "json_bytes_indent doc = Inr content" "se_files s2 ?hosts = Some content" by blast
  obtain c3 where c3: "se_files s3 = (se_files s2)(?path \<mapsto> c3)" "se_world s3 = se_world s2"
    by (rule write_config_ok [OF run(2) assms(11)])
  obtain c9 where c9: "utf8_encode (write_ini ini) = Inr c9" "se_files s9 = (se_files s8)(?path \<mapsto> c9)" "se_world s9 = se_world s8"
    by (rule write_config_ok [OF run(11) assms(11)])
  note started = start_server_local [OF run(5) assms(15,13) files(3)]
  note over = handoff_local [OF run(12) assms(15)]
  have "se_files s8 ?hosts = se_files s5 ?hosts"
    using published(1) poll_for_hosts_online_files [OF run(8)] run(6) by simp
  then have "se_files s9 ?hosts = Some content" using started(2) run(3) c3(1) c9(2) content(2) files(1) by simp
  then have hosts_file: "se_files b ?hosts = Some content" using over(2) [of ?hosts] files(3) assms(20) by simp
  have config_file: "se_files b ?path = Some c9" using over(2) [of ?path] files(2) c9(2) assms(20) by simp
  have load: "load_hosts_json basedir (se_files b) = Inr doc"
    by (rule setup_doc_loads [where now = "bs_now bs" and fs = "se_files b", OF assms(5-7) doc content(1) hosts_file])
  have cfg: "command_config pf basedir config_file (se_files b) = Inr (Some opts)"
    using load_written_config [where fs = "se_files b", OF assms(10) c9(1) config_file] opts(3) by (simp add: command_config_def)
  note here = server_network.intro [OF assms(16) [unfolded certs]]
  have "traffic pf own (node (se_world s) a) (node (se_world s6) a)" for a
    using clear_old_data_local [OF assms(2,15), of a] started(1) [of a] ask_hosts_keeps(2) [OF assms(4)]
      write_data_mirror(1) [OF run(1) doc assms(12)] c3(2) run(4,7) traffic_trans by metis
  then have "honest_world pf node own (bs_uuid bs) (\<lambda>_. None) (se_world s6)"
    unfolding honest_world_def using honest_node_traffic assms(17) by metis
  from server_network.poll_for_hosts_online_honest [OF here run(8) _ this]
  have honest: "honest_node pf own (bs_uuid bs) None (node (se_world s7) a)" for a by (simp add: opts(2) honest_world_def)
  have later: "traffic pf own (node (se_world s8) a) (node (se_world b) a)" for a
    using over(1) [of a] c9(3) assms(19) [of a] traffic_trans by metis
  have connected: "connects net pf node own (cert_paths basedir (Some opts1))" using assms(16) certs by simp
  have "str_ok own" using assms(5,6) by (auto simp: hosts_usable_def hosts_texts_def)
  note boots = published_key1_boots [where node = node, OF connected assms(5) doc assms(8) this assms(9) honest
      run(9) [unfolded opts(2)] later load assms(18) opts(5), of uuid']
  have starts: "initiator_command net sys pf uuid' basedir config_file False b =
    map_option (\<lambda>(w, r). doA (tryA (\<lambda>s. (s, r)) is_recovery_error (failed_with pf ''status: FAILED to reconstruct key1: ''))
        (started_with sys pf basedir ?path) (b\<lparr>se_world := w\<rparr>))
      (collect_key1 net pf uuid' basedir (Some opts) (se_files b) (se_world b))"
    by (rule initiator_starts [OF cfg opts(6)])
  show ?thesis
  proof (intro conjI allI impI)
    fix b' r assume r: "initiator_command net sys pf uuid' basedir config_file False b = Some (b', r)"
    obtain w r0 where c: "collect_key1 net pf uuid' basedir (Some opts) (se_files b) (se_world b) = Some (w, r0)"
    proof (cases "collect_key1 net pf uuid' basedir (Some opts) (se_files b) (se_world b)")
      case None
      then show thesis using r starts by simp
    next
      case (Some wr)
      then show thesis using that by (cases wr) simp
    qed
    then have "r0 = Inr (bs_key1 bs)" using boots by blast
    then show "\<exists>w. started_with sys pf basedir ?path (bs_key1 bs) (b\<lparr>se_world := w\<rparr>) = (b', r)"
      using r starts c by (auto simp: recovered)
  next
    fix A clock since
    assume A: "A \<subseteq> host_addr ` set (other_hosts hosts own)" "length (other_hosts hosts own) div 2 + 1 \<le> card A"
      and up: "answers_from net ?certs clock since A"
    have "t \<le> int (card A)" using A(2) published(3,4) by simp
    then obtain w where "collect_key1 net pf uuid' basedir (Some opts) (se_files b) (se_world b) = Some (w, Inr (bs_key1 bs))"
      using boots A(1) up unfolding certs by blast
    then show "\<exists>w. initiator_command net sys pf uuid' basedir config_file False b =
         Some (started_with sys pf basedir ?path (bs_key1 bs) (b\<lparr>se_world := w\<rparr>))"
      using starts by (auto simp: recovered)
  qed
qed

section \<open>The worked setup and its boot\<close>

lemma connects_beside:
  assumes "connects net pf node me certs"
  shows "connects (beside net) pf (node \<circ> fst) me certs"
  unfolding connects_def
proof (intro conjI allI impI)
  fix rq route a w w' r
  assume rq: "hq_certs rq = certs" "route_of (hq_method rq) (hq_path rq) = Some route"
    and ex: "net_exchange (beside net) rq w = (w', r)"
  have ex: "net_exchange net rq (fst w) = (fst w', r)"
    using ex by (cases "net_exchange net rq (fst w)") (auto simp: beside_def)
  show "answered pf me rq route ((node \<circ> fst) w (hq_address rq)) ((node \<circ> fst) w' (hq_address rq)) r"
    using connects_exchange(1) [OF assms rq ex] by simp
  show "a \<noteq> hq_address rq \<Longrightarrow> traffic pf me ((node \<circ> fst) w a) ((node \<circ> fst) w' a)"
    using connects_exchange(2) [OF assms rq ex] by simp
qed (use assms in \<open>auto simp: connects_def beside_def\<close>)

lemma site_local: "local_sys site_sys pf (fst \<circ> fst) me kept"
  by (auto simp: local_sys_def site_sys_def traffic.quiet)

lemma site_answers: "answers_from site_net certs (snd \<circ> fst) 0 A"
  by (auto simp: answers_from_def answers_now_def beside_def cluster_net_def split: option.split prod.split)

lemma site_hosts_ok: "hosts_usable setup_hosts (lit ''alice'')" "hosts_texts setup_hosts"
proof -
  have "connection_host (PStr (lit ''a0'')) = Inr (lit ''a0'')" by (rule pair_addresses)
  moreover have "distinct (map host_addr (other_hosts setup_hosts (lit ''alice'')))"
    by (simp add: site_others host_addr_def) (simp add: setup_host_of_def site_hosts)
  ultimately show "hosts_usable setup_hosts (lit ''alice'')"
    by (simp add: hosts_usable_def) (simp add: setup_hosts_def four_hosts_def setup_host_of_def host_addr_def site_hosts)
  show "hosts_texts setup_hosts"
    by (simp add: hosts_texts_def setup_hosts_def four_hosts_def setup_host_of_def)
qed

lemma site_files:
  "temporaries_elsewhere site_bootstrap (hosts_json (lit ''/b''))" "hosts_json (lit ''/b'') \<noteq> io_tmp (sy_pid_io site_sys)"
  "config_path (lit ''/b'') None \<notin> {hosts_json (lit ''/b''), pid_file_path (lit ''/b'')}"
  by (simp_all add: temporaries_elsewhere_def site_bootstrap_def site_sys_def example_io_def hosts_json_def HOSTS_PLAINTEXT_FILENAME_def
      pid_file_path_def PID_FILENAME_def config_path_def path_join_def lit_def)

theorem setup_then_boot_witness:
  "\<exists>s' ini w. setup_main site_net site_sys example_platform site_bootstrap (lit ''/b'') None (site_session None) = Some (s', Inr ini) \<and>
    initiator_command site_net site_sys example_platform [] (lit ''/b'') None False s' =
      Some (started_with site_sys example_platform (lit ''/b'') (config_path (lit ''/b'') None) (lit ''a'') (s'\<lparr>se_world := w\<rparr>))"
proof -
  obtain s' where run: "setup_main site_net site_sys example_platform site_bootstrap (lit ''/b'') None (site_session None) =
     Some (s', Inr [(DEFAULT_SECTION, []), (lit ''secretweb'', site_opts2)])" using site_runs by blast
  obtain s1 where asked: "ask_hosts site_bootstrap (lit ''/b'') (secretweb_section site_ini) (site_session None) = (s1, Inr (setup_hosts, lit ''alice''))"
    using site_ask by blast
  have boot: "str_ok (bs_now site_bootstrap i)" "plain_segment (bs_uuid site_bootstrap)" "str_ok (bs_split_time site_bootstrap)"
    "plain_write site_bootstrap" "bs_key1 site_bootstrap = lit ''a''" for i
    by (simp_all add: site_bootstrap_def plain_u plain_write_def)
  have fresh: "honest_node example_platform (lit ''alice'') u None ((fst \<circ> fst) (se_world (site_session None)) a)" for u a
    by (simp add: site_session_def cluster_fresh)
  have perm: "mset (net_shuffle site_net w xs) = mset xs" for w xs by (simp add: beside_def cluster_net_def)
  have quiet: "traffic example_platform (lit ''alice'') ((fst \<circ> fst) (se_world s') a) ((fst \<circ> fst) (se_world s') a)" for a
    by (rule traffic.quiet)
  note boots = setup_then_boot [where node = "fst \<circ> fst", OF run site_clear site_config asked site_hosts_ok boot(1-3) site_ini_ok boot(4)
      site_files site_local connects_beside [OF cluster_connects] fresh perm quiet refl, of "[]"]
  have addrs: "host_addr ` set (other_hosts setup_hosts (lit ''alice'')) = {lit ''b0'', lit ''c0'', lit ''d0''}"
    by (simp add: site_others host_addr_def) (simp add: setup_host_of_def site_hosts)
  have "{lit ''c0'', lit ''d0''} \<subseteq> host_addr ` set (other_hosts setup_hosts (lit ''alice''))" unfolding addrs by blast
  moreover have "length (other_hosts setup_hosts (lit ''alice'')) div 2 + 1 \<le> card {lit ''c0'', lit ''d0''}"
    by (simp add: site_others)
  ultimately obtain w where "initiator_command site_net site_sys example_platform [] (lit ''/b'') None False s' =
      Some (started_with site_sys example_platform (lit ''/b'') (config_path (lit ''/b'') None) (lit ''a'') (s'\<lparr>se_world := w\<rparr>))"
    using conjunct2 [OF boots, rule_format, OF _ _ site_answers] unfolding boot(5) by blast
  with run show ?thesis by blast
qed

end
