(* ===== verification/SetupServer.thy ===== *)
theory SetupServer
  imports SetupBoot
begin

text \<open>
  The setup and the server that it starts: what the data files that the setup wrote are for the server, and
  what a file of shares of a former KEY1 does to a setup.
\<close>

section \<open>Files that the setup leaves alone\<close>

lemma archive_candidate_free_name:
  assumes "archive_candidate fs path tag n = Some c"
  shows "fs c = None"
proof (induction fs path tag n c rule: archive_candidate.raw_induct)
  case (1 candidate fs path tag n c)
  from "1.hyps" show ?case by (auto simp: Let_def path_exists_def split: if_splits dest: "1.IH")
qed (rule assms)

lemma archive_keeps:
  assumes "archive_existing_files dir tag names s = Some (s', r)" "p \<notin> path_join dir ` set names" "se_files s p = Some bs"
  shows "se_files s' p = Some bs"
  using assms
proof (induction names arbitrary: s)
  case (Cons name names)
  let ?path = "path_join dir name"
  obtain c where c: "archive_path (se_files s) ?path tag = Some c" using Cons.prems(1) by (auto simp: Let_def split: option.splits)
  have "se_files s c = None" using archive_candidate_free_name c by (simp add: archive_path_def)
  then have p: "p \<noteq> c" "p \<noteq> ?path" using Cons.prems(2,3) by auto
  show ?case
  proof (cases "se_files s ?path")
    case None
    then show ?thesis using Cons.prems(1,3) c by (auto simp: Let_def doP_def doA_def filesA_def rename_def)
  next
    case (Some content)
    define s1 where "s1 = s\<lparr>se_files := (se_files s)(?path := None, c := Some content),
      se_echo := se_echo s @ [Out (lit ''renamed '' @ name @ lit '' -> '' @ basename c)]\<rparr>"
    have "archive_existing_files dir tag names s1 = Some (s', r)"
      using Cons.prems(1) c Some by (simp add: Let_def doP_def doA_def filesA_def rename_def echoA_def s1_def)
    moreover have "se_files s1 p = Some bs" using p Cons.prems(3) by (simp add: s1_def)
    ultimately show ?thesis using Cons.IH [of s1] Cons.prems(2) by simp
  qed
qed simp

lemma clear_old_data_keeps:
  assumes "clear_old_data sys pf bs basedir s = Some (s', r)" "se_files s p = Some content"
    and "p \<notin> path_join (path_join basedir (lit ''data'')) ` set DATA_FILENAMES" "p \<noteq> pid_file_path basedir"
  shows "se_files s' p = Some content"
proof (cases "existing_data_files (path_join basedir (lit ''data'')) (se_files s) = []")
  case False
  let ?names = "existing_data_files (path_join basedir (lit ''data'')) (se_files s)"
  obtain s1 r1 where confirm: "confirm_destructive_reset ?names s = (s1, r1)" by (rule prod.exhaust)
  then have s1: "se_files s1 = se_files s"
    by (auto simp: confirm_destructive_reset_def doA_def echoA_def inputA_def pureA_def split: prod.splits sum.splits list.splits if_splits)
  show ?thesis
  proof (cases r1)
    case (Inl e)
    then have "s' = s1" using assms(1) False confirm by (simp add: clear_old_data_def Let_def doP_def)
    then show ?thesis using s1 assms(2) by simp
  next
    case (Inr u)
    obtain s2 r2 where stop: "stop_server sys pf basedir STOP_TIMEOUT s1 = Some (s2, r2)"
      using assms(1) False confirm Inr
      by (auto simp: clear_old_data_def stop_existing_server_def Let_def doP_def split: option.splits)
    have s2: "se_files s2 p = Some content" using stop_server_keeps [OF stop assms(4)] s1 assms(2) by simp
    show ?thesis
    proof (cases r2)
      case (Inl e)
      then have "s' = s2" using assms(1) False confirm Inr stop
        by (simp add: clear_old_data_def stop_existing_server_def Let_def doP_def)
      then show ?thesis using s2 by simp
    next
      case r2: (Inr stopped)
      define s3 where "s3 = fst (echoA (if stopped then [Out (lit ''stopped a previously running server for this basedir.'')] else []) s2)"
      have s3: "se_files s3 = se_files s2"
        "archive_existing_files (path_join basedir (lit ''data'')) (bs_today bs) ?names s3 = Some (s', r)"
        using assms(1) False confirm Inr stop r2
        by (simp_all add: clear_old_data_def stop_existing_server_def Let_def doP_def echoA_def s3_def)
      have "p \<notin> path_join (path_join basedir (lit ''data'')) ` set ?names" using assms(3) by (auto simp: existing_data_files_def)
      from archive_keeps [OF s3(2) this] show ?thesis using s3(1) s2 by simp
    qed
  qed
next
  case True
  then show ?thesis using assms(1,2) by (simp add: clear_old_data_def)
qed

lemma write_data_other:
  assumes "write_data pf bs dir hosts own port s = (s', r)" "temporaries_elsewhere bs p"
    and "p \<notin> path_join dir ` set DATA_FILENAMES"
  shows "se_files s' p = se_files s p"
proof -
  have names: "p \<noteq> path_join dir HOSTS_FILENAME" "p \<noteq> path_join dir HOSTS_PLAINTEXT_FILENAME" "p \<noteq> path_join dir SITES_FILENAME"
    "p \<noteq> path_join dir SITES_PLAINTEXT_FILENAME" "p \<noteq> path_join dir SECRETS_FILENAME"
    using assms(3) by (auto simp: DATA_FILENAMES_def)
  have m: "fst (save_mirrored (pf_crypto pf) (fst (bs_hosts_io bs)) (snd (bs_hosts_io bs)) dir HOSTS_FILENAME
      HOSTS_PLAINTEXT_FILENAME (bs_key1 bs) HOSTS_FILE_PURPOSE doc fs) p = fs p"
    "fst (save_mirrored (pf_crypto pf) (fst (bs_sites_io bs)) (snd (bs_sites_io bs)) dir SITES_FILENAME
      SITES_PLAINTEXT_FILENAME (bs_key1 bs) SITES_FILE_PURPOSE doc fs) p = fs p"
    "fst (save (pf_crypto pf) (bs_secrets_io bs) (path_join dir SECRETS_FILENAME) (bs_key1 bs) SECRETS_FILE_PURPOSE doc fs) p = fs p"
    for doc fs
    using names assms(2) by (simp_all add: save_mirrored_other save_other temporaries_elsewhere_def)
  have step: "se_files (fst (filesA f t)) p = se_files t p" if "\<And>fs. fst (f fs) p = fs p" for f :: "files \<Rightarrow> files \<times> unit py" and t :: "'a session"
    using that [of "se_files t"] by (cases "f (se_files t)") (simp add: filesA_def)
  have bind: "se_files (fst (doA m k t)) p = se_files t p"
    if "\<And>t. se_files (fst (m t)) p = se_files t p" "\<And>a t. se_files (fst (k a t)) p = se_files t p"
    for m :: "('a session, 'b) action" and k :: "'b \<Rightarrow> ('a session, unit) action" and t
    using that(1) [of t] that(2) by (auto simp: doA_def split: prod.split sum.split)
  have "se_files (fst (write_data pf bs dir hosts own port s)) p = se_files s p"
    unfolding write_data_def by (intro bind step m) simp
  then show ?thesis using assms(1) by simp
qed

section \<open>The child runs the server\<close>

text \<open>
  The process that is started runs \<open>server.py\<close> on the bytes that it gets, with some configuration, and what it
  reports is what arrives; starting it changes no file.
\<close>

definition runs_server :: "'w sys \<Rightarrow> platform \<Rightarrow> startup \<Rightarrow> pystr \<Rightarrow> bool" where
  "runs_server sys pf su basedir \<longleftrightarrow>
     (\<forall>args s. se_files (fst (sy_spawn sys args s)) = se_files s) \<and>
     (\<forall>pid msg s s' sent answer. sy_child sys pid msg s = (s', sent, answer) \<longrightarrow> sent = Inr () \<and> is_os_error (ending answer) \<and>
        (\<exists>cfg handoff r. delivered handoff = msg \<and>
           server_main pf su basedir cfg handoff (se_files s) = (se_files s', delivered answer, r)))"

lemma start_server_serves:
  assumes "start_server sys pf' basedir path key1 s = (s', Inr pid)" "runs_server sys pf su basedir"
  shows "\<exists>cfg handoff msg fs' app. key1_message key1 = Inr msg \<and> delivered handoff = msg \<and>
    server_main pf su basedir cfg handoff (se_files s) = (fs', send_ready, Inr app)"
proof -
  obtain s0 pid0 where spawn: "sy_spawn sys [lit ''--basedir'', basedir, lit ''--config-file'', path] s = (s0, Inr pid0)"
    using assms(1) by (auto simp: start_server_def doA_Inr_iff)
  let ?msg = "case key1_message key1 of Inl _ \<Rightarrow> [] | Inr msg \<Rightarrow> msg"
  obtain s1 sent answer where child: "sy_child sys pid0 ?msg s0 = (s1, sent, answer)" by (rule prod_cases3)
  have s0: "se_files s0 = se_files s" using assms(2) spawn unfolding runs_server_def by (metis fst_conv)
  obtain cfg handoff r where main: "sent = Inr ()" "is_os_error (ending answer)" "delivered handoff = ?msg"
    "server_main pf su basedir cfg handoff (se_files s) = (se_files s1, delivered answer, r)"
    using assms(2) child s0 unfolding runs_server_def by metis
  have sent: "snd (send_key1 (pf_exn_text pf') (sy_status_text sys) key1 (Inr ()) answer) = Inr ()"
    using assms(1) spawn child main(1) by (auto simp: start_server_def doA_def split: sum.splits)
  then obtain msg where msg: "key1_message key1 = Inr msg"
    by (cases "key1_message key1") (auto simp: send_key1_def)
  obtain app where app: "r = Inr app"
    using send_key1_report [OF main(4) refl main(2) msg, of "pf_exn_text pf'" "sy_status_text sys"] sent by (cases r) auto
  have "reported (se_files s1, delivered answer, r)" using reported_main [of pf su basedir cfg handoff "se_files s"] main(4) by simp
  then have "delivered answer = send_ready" using app by (simp add: reported_def)
  then have "server_main pf su basedir cfg handoff (se_files s) = (se_files s1, send_ready, Inr app)" using main(4) app by simp
  moreover have "delivered handoff = msg" using main(3) msg by simp
  ultimately show ?thesis using msg by blast
qed

text \<open>Files that the start of the server does not write to.\<close>

definition startup_elsewhere :: "startup \<Rightarrow> path \<Rightarrow> bool" where
  "startup_elsewhere su p \<longleftrightarrow> p \<notin> {io_tmp (fst (su_hosts_io su)), io_tmp (snd (su_hosts_io su)),
     io_tmp (fst (su_sites_io su)), io_tmp (snd (su_sites_io su)), io_tmp (su_secrets_io su), io_tmp (su_shares_io su)}"

lemma ensure_other:
  "p \<noteq> io_tmp io \<Longrightarrow> p \<noteq> path \<Longrightarrow> fst (ensure cr io path key1 purpose doc fs) p = fs p"
  using save_other [of p io path cr key1 purpose doc fs] by (auto simp: ensure_def split: prod.split sum.split)

lemma ensure_mirrored_other:
  "p \<notin> {io_tmp io1, io_tmp io2, path_join dir enc, path_join dir plain} \<Longrightarrow>
   fst (ensure_mirrored cr io1 io2 dir enc plain key1 purpose doc fs) p = fs p"
  using save_mirrored_other [of p io1 io2 dir enc plain cr key1 purpose doc fs]
  by (auto simp: ensure_mirrored_def split: prod.split sum.split)

lemma shares_file_name:
  "data_file basedir SHARES_FILENAME \<notin> path_join (path_join basedir (lit ''data'')) ` set DATA_FILENAMES"
  "data_file basedir SHARES_FILENAME \<noteq> pid_file_path basedir"
  by (auto simp: data_file_def pid_file_path_def PID_FILENAME_def DATA_FILENAMES_def SHARES_FILENAME_def HOSTS_FILENAME_def
      HOSTS_PLAINTEXT_FILENAME_def SITES_FILENAME_def SITES_PLAINTEXT_FILENAME_def SECRETS_FILENAME_def lit_def dest!: path_join_inj)

text \<open>A server that serves has read an existing file of shares under its KEY1.\<close>

lemma serving_reads_shares:
  assumes "server_main pf su basedir cfg handoff fs = (fs', out, Inr app)" "key1_message key1 = Inr msg" "delivered handoff = msg"
    and "fs (data_file basedir SHARES_FILENAME) = Some blob" "startup_elsewhere su (data_file basedir SHARES_FILENAME)"
  shows "load (pf_crypto pf) (data_file basedir SHARES_FILENAME) key1 SHARES_FILE_PURPOSE fs = Inr (ac_shares app)"
proof -
  let ?p = "data_file basedir SHARES_FILENAME" and ?dir = "path_join basedir (lit ''data'')"
  obtain h' where key: "receive_key1 handoff = Inr (key1, h')"
    by (rule receive_key1_message [OF assms(2), of handoff "[]"]) (use assms(3) in simp)
  obtain port hosts fs1 where hosts: "ensure_hosts_file pf su basedir key1 port fs = (fs1, Inr hosts)"
    "startup_guard pf ''sites.dta'' (ensure_sites_file pf su basedir key1 fs1) (\<lambda>sites fs2.
      startup_guard pf ''secrets.dta'' (ensure_secrets_file pf su basedir key1 fs2) (\<lambda>secrets fs3.
      startup_guard pf ''shares.dta'' (ensure_shares_file pf su basedir key1 fs3) (\<lambda>shares fs4.
        serve_start pf (su_bind su (cert_paths basedir cfg) (cfg_get cfg (lit ''bind-address'') (lit ''0.0.0.0'')) port)
          \<lparr>ac_basedir = basedir, ac_key1 = key1, ac_hosts = hosts, ac_sites = sites, ac_secrets = secrets,
             ac_shares = shares, ac_files = fs4\<rparr> fs4))) = (fs', out, Inr app)"
    using assms(1) key by (auto simp: server_main_def startup_guard_def [of _ "''hosts.dta''"] bindE_Inr_iff bindE_Inl_iff
        split: sum.splits prod.splits)
  obtain sites fs2 secrets fs3 shares fs4 where rest: "ensure_sites_file pf su basedir key1 fs1 = (fs2, Inr sites)"
    "ensure_secrets_file pf su basedir key1 fs2 = (fs3, Inr secrets)"
    "ensure_shares_file pf su basedir key1 fs3 = (fs4, Inr shares)" "ac_shares app = shares"
    using hosts(2) by (auto simp: startup_guard_def serve_start_def split: sum.splits prod.splits)
  have names: "?p \<noteq> path_join ?dir HOSTS_FILENAME" "?p \<noteq> path_join ?dir HOSTS_PLAINTEXT_FILENAME" "?p \<noteq> path_join ?dir SITES_FILENAME"
    "?p \<noteq> path_join ?dir SITES_PLAINTEXT_FILENAME" "?p \<noteq> path_join ?dir SECRETS_FILENAME"
    using shares_file_name(1) [of basedir] by (auto simp: DATA_FILENAMES_def)
  have "fst (ensure_hosts_file pf su basedir key1 port fs) ?p = fs ?p" unfolding ensure_hosts_file_def
    by (rule ensure_mirrored_other) (use names assms(5) in \<open>simp add: startup_elsewhere_def\<close>)
  then have "fs1 ?p = fs ?p" using hosts(1) by simp
  moreover have "fst (ensure_sites_file pf su basedir key1 fs1) ?p = fs1 ?p" unfolding ensure_sites_file_def
    by (rule ensure_mirrored_other) (use names assms(5) in \<open>simp add: startup_elsewhere_def\<close>)
  then have "fs2 ?p = fs1 ?p" using rest(1) by simp
  moreover have "fst (ensure_secrets_file pf su basedir key1 fs2) ?p = fs2 ?p" unfolding ensure_secrets_file_def
    by (rule ensure_other) (use names assms(5) in \<open>simp_all add: startup_elsewhere_def\<close>)
  then have "fs3 ?p = fs2 ?p" using rest(2) by simp
  ultimately have "fs3 ?p = fs ?p" by simp
  moreover have "load (pf_crypto pf) ?p key1 SHARES_FILE_PURPOSE fs3 = Inr shares"
    using rest(3) calculation assms(4) by (auto simp: ensure_shares_file_def ensure_def data_file_def path_exists_def)
  ultimately show ?thesis using rest(4) by (simp add: load_def read_file_def)
qed

section \<open>What the server makes of the new data\<close>

text \<open>A document that was saved loads as long as the file is not changed.\<close>

lemma saved_loads:
  assumes "save cr io path key1 purpose data fs = (fs', Inr u)" "io_tmp io \<noteq> path" "json_ok data"
    and "envelope_ok cr key1 purpose (io_nonce io)" "fs'' path = fs' path"
  shows "load cr path key1 purpose fs'' = Inr (detuple data)"
proof -
  obtain blob where blob: "bindE (json_bytes data) (encrypt cr key1 purpose (io_nonce io)) = Inr blob"
    "bindE (decrypt cr key1 purpose blob) json_loads_bytes = Inr (detuple data)" by (rule save_blob [OF assms(3,4)])
  have "atomic_write_bytes (io_plan io) (io_tmp io) path blob fs = (fs', Inr u)" using assms(1) blob(1) by (simp add: save_def)
  then have "fs'' path = Some blob" using atomic_write_content [OF assms(2)] assms(5) by simp
  then show ?thesis using blob(2) by (simp add: load_def read_file_def)
qed

lemma save_mirrored_saves:
  assumes "save_mirrored cr io1 io2 dir enc plain key1 purpose data fs = (fs', Inr ())"
    and "path_join dir enc \<notin> {io_tmp io2, path_join dir plain}"
  obtains fs1 where "save cr io1 (path_join dir enc) key1 purpose data fs = (fs1, Inr ())" "fs' (path_join dir enc) = fs1 (path_join dir enc)"
proof -
  obtain fs1 bs where saved: "save cr io1 (path_join dir enc) key1 purpose data fs = (fs1, Inr ())"
    "atomic_write_bytes (io_plan io2) (io_tmp io2) (path_join dir plain) bs fs1 = (fs', Inr ())"
    using assms(1) by (auto simp: save_mirrored_def split: prod.splits sum.splits)
  have "fst (atomic_write_bytes (io_plan io2) (io_tmp io2) (path_join dir plain) bs fs1) (path_join dir enc) = fs1 (path_join dir enc)"
    by (rule atomic_write_other) (use assms(2) in auto)
  with saved that show thesis by simp
qed

text \<open>The nonces of the three encrypted files have their length, and no temporary file is one of them.\<close>

definition nonces_ok :: "bootstrap \<Rightarrow> bool" where
  "nonces_ok bs \<longleftrightarrow> (\<forall>io \<in> {fst (bs_hosts_io bs), fst (bs_sites_io bs), bs_secrets_io bs}. length (io_nonce io) = NONCE_SIZE)"

lemma default_docs_plain:
  "detuple default_sites_data = default_sites_data" "detuple default_secrets_data = default_secrets_data"
  by (simp_all add: default_sites_data_def default_secrets_data_def)

lemma purposes_scalar:
  "list_all is_scalar HOSTS_FILE_PURPOSE" "list_all is_scalar SITES_FILE_PURPOSE" "list_all is_scalar SECRETS_FILE_PURPOSE"
  "list_all is_scalar SHARES_FILE_PURPOSE"
  by (simp_all add: HOSTS_FILE_PURPOSE_def SITES_FILE_PURPOSE_def SECRETS_FILE_PURPOSE_def SHARES_FILE_PURPOSE_def)

lemma written_data_loads:
  assumes "write_data pf bs (path_join basedir (lit ''data'')) hosts own port s = (s', Inr ())"
    and "build_hosts_data (bs_now bs) hosts own port = Inr doc" "json_ok doc"
    and "aead_correct (pf_crypto pf)" "list_all is_scalar (bs_key1 bs)" "nonces_ok bs"
    and "\<And>name. name \<in> {HOSTS_FILENAME, SITES_FILENAME, SECRETS_FILENAME} \<Longrightarrow> temporaries_elsewhere bs (data_file basedir name)"
    and "\<And>name. name \<in> {HOSTS_FILENAME, SITES_FILENAME, SECRETS_FILENAME} \<Longrightarrow> fs (data_file basedir name) = se_files s' (data_file basedir name)"
  shows "load (pf_crypto pf) (data_file basedir HOSTS_FILENAME) (bs_key1 bs) HOSTS_FILE_PURPOSE fs = Inr (detuple doc)"
    "load (pf_crypto pf) (data_file basedir SITES_FILENAME) (bs_key1 bs) SITES_FILE_PURPOSE fs = Inr default_sites_data"
    "load (pf_crypto pf) (data_file basedir SECRETS_FILENAME) (bs_key1 bs) SECRETS_FILE_PURPOSE fs = Inr default_secrets_data"
proof -
  let ?dir = "path_join basedir (lit ''data'')" and ?cr = "pf_crypto pf" and ?key = "bs_key1 bs"
  have env: "envelope_ok ?cr ?key purpose (io_nonce io)"
    if "list_all is_scalar purpose" "io \<in> {fst (bs_hosts_io bs), fst (bs_sites_io bs), bs_secrets_io bs}" for purpose io
    using that assms(4-6) by (auto simp: envelope_ok_def nonces_ok_def)
  have names: "distinct (map (path_join ?dir) DATA_FILENAMES)"
    by (auto simp: DATA_FILENAMES_def HOSTS_FILENAME_def HOSTS_PLAINTEXT_FILENAME_def SITES_FILENAME_def SITES_PLAINTEXT_FILENAME_def
        SECRETS_FILENAME_def lit_def dest!: path_join_inj)
  note tmps = assms(7) [unfolded temporaries_elsewhere_def data_file_def]
  obtain fs1 where fs1: "save_mirrored ?cr (fst (bs_hosts_io bs)) (snd (bs_hosts_io bs)) ?dir
      HOSTS_FILENAME HOSTS_PLAINTEXT_FILENAME ?key HOSTS_FILE_PURPOSE doc (se_files s) = (fs1, Inr ())"
    using assms(1,2) by (auto simp: write_data_def doA_Inr_iff filesA_def split: prod.splits)
  obtain fs2 where fs2: "save_mirrored ?cr (fst (bs_sites_io bs)) (snd (bs_sites_io bs)) ?dir
      SITES_FILENAME SITES_PLAINTEXT_FILENAME ?key SITES_FILE_PURPOSE default_sites_data fs1 = (fs2, Inr ())"
    using assms(1,2) fs1 by (auto simp: write_data_def doA_Inr_iff filesA_def split: prod.splits)
  obtain fs3 where fs3: "save ?cr (bs_secrets_io bs) (path_join ?dir SECRETS_FILENAME) ?key
      SECRETS_FILE_PURPOSE default_secrets_data fs2 = (fs3, Inr ())" and s': "se_files s' = fs3"
    using assms(1,2) fs1 fs2 by (auto simp: write_data_def doA_Inr_iff filesA_def split: prod.splits)
  obtain h where h: "save ?cr (fst (bs_hosts_io bs)) (path_join ?dir HOSTS_FILENAME) ?key HOSTS_FILE_PURPOSE doc (se_files s) = (h, Inr ())"
    "fs1 (path_join ?dir HOSTS_FILENAME) = h (path_join ?dir HOSTS_FILENAME)"
    by (rule save_mirrored_saves [OF fs1]) (use names tmps in \<open>auto simp: DATA_FILENAMES_def\<close>)
  obtain t where t: "save ?cr (fst (bs_sites_io bs)) (path_join ?dir SITES_FILENAME) ?key SITES_FILE_PURPOSE default_sites_data fs1 = (t, Inr ())"
    "fs2 (path_join ?dir SITES_FILENAME) = t (path_join ?dir SITES_FILENAME)"
    by (rule save_mirrored_saves [OF fs2]) (use names tmps in \<open>auto simp: DATA_FILENAMES_def\<close>)
  have kept: "fs2 (path_join ?dir HOSTS_FILENAME) = fs1 (path_join ?dir HOSTS_FILENAME)"
    "fs3 (path_join ?dir HOSTS_FILENAME) = fs2 (path_join ?dir HOSTS_FILENAME)"
    "fs3 (path_join ?dir SITES_FILENAME) = fs2 (path_join ?dir SITES_FILENAME)"
    using save_mirrored_other [of "path_join ?dir HOSTS_FILENAME" "fst (bs_sites_io bs)" "snd (bs_sites_io bs)" ?dir SITES_FILENAME
        SITES_PLAINTEXT_FILENAME ?cr ?key SITES_FILE_PURPOSE default_sites_data fs1] fs2
      save_other [of "path_join ?dir HOSTS_FILENAME" "bs_secrets_io bs" "path_join ?dir SECRETS_FILENAME" ?cr ?key
        SECRETS_FILE_PURPOSE default_secrets_data fs2]
      save_other [of "path_join ?dir SITES_FILENAME" "bs_secrets_io bs" "path_join ?dir SECRETS_FILENAME" ?cr ?key
        SECRETS_FILE_PURPOSE default_secrets_data fs2] fs3 names tmps
    by (auto simp: DATA_FILENAMES_def)
  have own: "io_tmp (fst (bs_hosts_io bs)) \<noteq> path_join ?dir HOSTS_FILENAME" "io_tmp (fst (bs_sites_io bs)) \<noteq> path_join ?dir SITES_FILENAME"
    "io_tmp (bs_secrets_io bs) \<noteq> path_join ?dir SECRETS_FILENAME"
    using tmps [of HOSTS_FILENAME] tmps [of SITES_FILENAME] tmps [of SECRETS_FILENAME] by auto
  have "fs (data_file basedir name) = fs3 (data_file basedir name)" if "name \<in> {HOSTS_FILENAME, SITES_FILENAME, SECRETS_FILENAME}" for name
    using assms(8) [OF that] s' by simp
  then have same: "fs (path_join ?dir HOSTS_FILENAME) = h (path_join ?dir HOSTS_FILENAME)"
    "fs (path_join ?dir SITES_FILENAME) = t (path_join ?dir SITES_FILENAME)"
    "fs (path_join ?dir SECRETS_FILENAME) = fs3 (path_join ?dir SECRETS_FILENAME)"
    using kept h(2) t(2) by (simp_all add: data_file_def)
  show "load ?cr (data_file basedir HOSTS_FILENAME) ?key HOSTS_FILE_PURPOSE fs = Inr (detuple doc)" unfolding data_file_def
    by (rule saved_loads [where fs'' = fs, OF h(1) own(1) assms(3) env same(1)]) (simp_all add: purposes_scalar)
  have "load ?cr (path_join ?dir SITES_FILENAME) ?key SITES_FILE_PURPOSE fs = Inr (detuple default_sites_data)"
    by (rule saved_loads [where fs'' = fs, OF t(1) own(2) default_docs_ok(2) env same(2)]) (simp_all add: purposes_scalar)
  then show "load ?cr (data_file basedir SITES_FILENAME) ?key SITES_FILE_PURPOSE fs = Inr default_sites_data"
    by (simp add: data_file_def default_docs_plain)
  have "load ?cr (path_join ?dir SECRETS_FILENAME) ?key SECRETS_FILE_PURPOSE fs = Inr (detuple default_secrets_data)"
    by (rule saved_loads [where fs'' = fs, OF fs3 own(3) default_docs_ok(3) env same(3)]) (simp_all add: purposes_scalar)
  then show "load ?cr (data_file basedir SECRETS_FILENAME) ?key SECRETS_FILE_PURPOSE fs = Inr default_secrets_data"
    by (simp add: data_file_def default_docs_plain)
qed

lemma setup_own_name:
  assumes "hosts_usable hosts own" "build_hosts_data now hosts own port = Inr doc" "ac_hosts app = doc"
  shows "own_name_of app = Inr (PStr own)"
proof -
  have u: "distinct (map sh_name hosts)" "own \<in> sh_name ` set hosts" "\<forall>h \<in> set hosts. sh_addresses h \<noteq> []"
    using assms(1) by (auto simp: hosts_usable_def)
  have doc: "doc = PDict [(lit ''hosts'', PDict (setup_records now 0 own port hosts))]"
    using assms(2) build_hosts_ok [OF u(1,3)] by simp
  obtain rec where own: "List.find (\<lambda>(name, rec). host_status rec = lit ''local'') (setup_records now 0 own port hosts) =
      Some (own, rec)" "host_record_ok (own, rec)"
    using setup_records_own [OF u(2)] by blast
  have "own_host_entry doc = Inr (named_record own rec)"
    using own_host_loop_ok [OF setup_records_ok] own(1) by (simp add: own_host_entry_def hosts_items_def doc)
  then show ?thesis using assms(3) named_record_fields(1) [OF own(2)] by (simp add: own_name_of_def)
qed

text \<open>
  C13: what the setup has written, the server serves. On a host without a file of shares, the server
  that gets the KEY1 of the setup over its socket reports success and serves the hosts document
  that was made of the operator's list, no sites, no secrets and no shares; and it takes this host
  for the one that the operator's list names as its own.
\<close>

theorem new_data_is_served:
  assumes "write_data pf bs (path_join basedir (lit ''data'')) hosts own port s = (s', Inr ())"
    and "build_hosts_data (bs_now bs) hosts own port = Inr doc" "hosts_usable hosts own" "hosts_texts hosts" "\<And>i. str_ok (bs_now bs i)"
    and "aead_correct (pf_crypto pf)" "nonces_ok bs"
    and "\<And>name. name \<in> {HOSTS_FILENAME, SITES_FILENAME, SECRETS_FILENAME} \<Longrightarrow> temporaries_elsewhere bs (data_file basedir name)"
    and "\<And>name. name \<in> {HOSTS_FILENAME, SITES_FILENAME, SECRETS_FILENAME} \<Longrightarrow> fs (data_file basedir name) = se_files s' (data_file basedir name)"
    and "fs (data_file basedir SHARES_FILENAME) = None" "length (io_nonce (su_shares_io su)) = NONCE_SIZE" "io_plan (su_shares_io su) = Finish"
    and "key1_message (bs_key1 bs) = Inr msg" "delivered handoff = msg"
    and "cfg_getint (pf_int pf) cfg (lit ''server-port'') (Some 59222) = Inr own_port"
    and "su_bind su (cert_paths basedir cfg) (cfg_get cfg (lit ''bind-address'') (lit ''0.0.0.0'')) own_port = Inr ()"
  shows "\<exists>fs' app. server_main pf su basedir cfg handoff fs = (fs', send_ready, Inr app) \<and> ac_key1 app = bs_key1 bs \<and>
    ac_hosts app = doc \<and> ac_sites app = default_sites_data \<and> ac_secrets app = default_secrets_data \<and>
    ac_shares app = default_shares_data \<and> own_name_of app = Inr (PStr own)"
proof -
  obtain content where "json_bytes_indent doc = Inr content"
    using assms(1,2) by (auto simp: write_data_def doA_Inr_iff filesA_def save_mirrored_def split: prod.splits sum.splits)
  then have "ints_ok doc" by (auto simp: json_bytes_indent_def json_dumps_indent_def split: if_splits)
  note doc = setup_doc_ok [where now = "bs_now bs", OF assms(3-5,2) this]
  have key: "list_all is_scalar (bs_key1 bs)" using assms(13) by (auto simp: key1_message_def bindE_Inr_iff dest: utf8_encode_scalar)
  note loads = written_data_loads [OF assms(1,2) doc(1) assms(6) key assms(7-9), unfolded doc(2)]
  have "envelope_ok (pf_crypto pf) (bs_key1 bs) SHARES_FILE_PURPOSE (io_nonce (su_shares_io su))"
    using assms(6,11) key purposes_scalar(4) by (simp add: envelope_ok_def)
  from save_finishes [OF assms(12) default_docs_ok(4) this] obtain fs' where
    "save (pf_crypto pf) (su_shares_io su) (data_file basedir SHARES_FILENAME) (bs_key1 bs) SHARES_FILE_PURPOSE default_shares_data fs = (fs', Inr ())"
    by blast
  then have shares: "ensure_shares_file pf su basedir (bs_key1 bs) fs = (fs', Inr default_shares_data)"
    using assms(10) by (simp add: ensure_shares_file_def ensure_def path_exists_def data_file_def)
  obtain h' where "receive_key1 handoff = Inr (bs_key1 bs, h')"
    by (rule receive_key1_message [OF assms(13), of handoff "[]"]) (use assms(14) in simp)
  then have "server_main pf su basedir cfg handoff fs = (fs', send_ready, Inr \<lparr>ac_basedir = basedir, ac_key1 = bs_key1 bs, ac_hosts = doc,
      ac_sites = default_sites_data, ac_secrets = default_secrets_data, ac_shares = default_shares_data, ac_files = fs'\<rparr>)"
    using loads assms(15,16) shares
    by (simp add: server_main_def data_file_def ensure_hosts_file_def ensure_sites_file_def ensure_secrets_file_def startup_guard_def
        serve_start_def ensure_existing ensure_mirrored_existing load_exists)
  then show ?thesis using setup_own_name [OF assms(3,2)] by simp
qed

section \<open>A file of shares from before\<close>

lemma old_shares_stop_start:
  assumes "runs_server sys pf su basedir" "se_files s (data_file basedir SHARES_FILENAME) = Some blob"
    and "decrypt (pf_crypto pf) key1 SHARES_FILE_PURPOSE blob = Inl e" "startup_elsewhere su (data_file basedir SHARES_FILENAME)"
    and "start_server sys pf' basedir path key1 s = (s', r)"
  shows "\<exists>e'. r = Inl e'"
proof (cases r)
  case (Inr pid)
  obtain cfg handoff msg fs' app where "key1_message key1 = Inr msg" "delivered handoff = msg"
    "server_main pf su basedir cfg handoff (se_files s) = (fs', send_ready, Inr app)"
    using start_server_serves [OF assms(5) [unfolded Inr] assms(1)] by blast
  from serving_reads_shares [OF this(3,1,2) assms(2,4)] have False using assms(2,3) by (simp add: load_def read_file_def)
  then show ?thesis ..
qed simp

text \<open>
  C36: a file of shares of a former KEY1 stops every setup. The reset renames the other data files, but
  not \<open>shares.dta\<close>: if there is one that does not decrypt under the new KEY1, the setup ends with an
  error, whatever the operator answers, and before it has used the network, because the server that it
  starts cannot read the file.
\<close>

theorem old_shares_stop_setup:
  assumes "setup_main net sys pf bs basedir config_file s = Some (s', r)"
    and "se_files s (data_file basedir SHARES_FILENAME) = Some blob"
    and "decrypt (pf_crypto pf) (bs_key1 bs) SHARES_FILE_PURPOSE blob = Inl e"
    and "runs_server sys pf su basedir" "plain_write bs"
    and "config_path basedir config_file \<noteq> data_file basedir SHARES_FILENAME"
    and "temporaries_elsewhere bs (data_file basedir SHARES_FILENAME)" "startup_elsewhere su (data_file basedir SHARES_FILENAME)"
  shows "(\<exists>e'. r = Inl e') \<and> (\<forall>net'. setup_main net' sys pf bs basedir config_file s = Some (s', r))"
proof -
  let ?p = "data_file basedir SHARES_FILENAME" and ?path = "config_path basedir config_file"
  let ?front = "setup_front sys pf bs basedir config_file"
  have never: "\<not> (\<exists>s0 x. ?front s = Some (s0, Inr x))"
  proof
    assume "\<exists>s0 x. ?front s = Some (s0, Inr x)"
    then obtain s5 ini0 hosts own where front: "?front s = Some (s5, Inr (ini0, hosts, own))" by auto
    obtain s0 s1 port s2 s3 s4 pid where run: "clear_old_data sys pf bs basedir s = Some (s0, Inr ())"
      "ask_hosts bs basedir (secretweb_section ini0) s0 = (s1, Inr (hosts, own))"
      "write_data pf bs (path_join basedir (lit ''data'')) hosts own port s1 = (s2, Inr ())"
      "write_config bs ?path (with_options (AList.update (lit ''initiated'') (lit ''True'')) ini0) s2 = (s3, Inr ())"
      "se_files s4 = se_files s3" "start_server sys pf basedir ?path (bs_key1 bs) s4 = (s5, Inr pid)"
      by (rule setup_front_run [OF front])
    have "se_files s1 ?p = Some blob"
      using clear_old_data_keeps [OF run(1) assms(2) shares_file_name] ask_hosts_keeps(1) [OF run(2)] by simp
    then have "se_files s2 ?p = Some blob" using write_data_other [OF run(3) assms(7) shares_file_name(1)] by simp
    moreover obtain c where "se_files s3 = (se_files s2)(?path \<mapsto> c)" by (rule write_config_ok [OF run(4) assms(5)])
    ultimately have blob: "se_files s4 ?p = Some blob" using run(5) assms(6) by simp
    from old_shares_stop_start [OF assms(4) blob assms(3,8) run(6)] show False by simp
  qed
  obtain s0 a where front: "?front s = Some (s0, a)" using assms(1) by (cases "?front s") (auto simp: setup_main_split doP_def)
  then obtain e' where "a = Inl e'" using never by (cases a) auto
  then have "setup_main net' sys pf bs basedir config_file s = Some (s0, Inl e')" for net'
    using front by (simp add: setup_main_split doP_def)
  then show ?thesis using assms(1) by auto
qed

text \<open>The setup of \<open>SetupOutcome\<close>, with processes that run the server of the model.\<close>

definition serving_sys :: "site sys" where
  "serving_sys = site_sys\<lparr>sy_child := (\<lambda>_ msg s.
     case server_main example_platform (example_startup (Inr ())) (lit ''/b'') None [Data msg] (se_files s) of
       (fs, out, r) \<Rightarrow> (s\<lparr>se_files := fs\<rparr>, Inr (), [Data out]))\<rparr>"

lemma serving_runs: "runs_server serving_sys example_platform (example_startup (Inr ())) (lit ''/b'')"
  unfolding runs_server_def
proof (intro conjI allI impI)
  fix pid msg and s s' :: "site session" and sent answer
  assume child: "sy_child serving_sys pid msg s = (s', sent, answer)"
  obtain fs out r where "server_main example_platform (example_startup (Inr ())) (lit ''/b'') None [Data msg] (se_files s) = (fs, out, r)"
    by (rule prod_cases3)
  with child have "s' = s\<lparr>se_files := fs\<rparr>" "sent = Inr ()" "answer = [Data out]"
    and main: "server_main example_platform (example_startup (Inr ())) (lit ''/b'') None [Data msg] (se_files s) = (fs, out, r)"
    by (auto simp: serving_sys_def)
  then show "sent = Inr ()" "is_os_error (ending answer)"
    "\<exists>cfg handoff r. delivered handoff = msg \<and> server_main example_platform (example_startup (Inr ())) (lit ''/b'') cfg handoff
       (se_files s) = (se_files s', delivered answer, r)"
    by (simp_all, intro exI [of _ None] exI [of _ "[Data msg]"] exI [of _ r]) (simp add: main)
qed (simp add: serving_sys_def site_sys_def)

lemma old_shares:
  obtains blob where "decrypt example_crypto (lit ''a'') SHARES_FILE_PURPOSE blob = Inl InvalidCryptoFileError"
proof -
  obtain k pt where k: "encrypt example_crypto (lit ''old'') SHARES_FILE_PURPOSE (replicate 12 7) pt = Inr k"
    unfolding SHARES_FILE_PURPOSE_def by (rule example_blob [OF default_docs_ok(4)]) blast
  obtain info where info: "utf8_encode SHARES_FILE_PURPOSE = Inr info"
    using utf8.enc_valid [of SHARES_FILE_PURPOSE] by auto
  have keys: "utf8_encode (lit ''old'') = Inr [111, 108, 100]" "utf8_encode (lit ''a'') = Inr [97]"
    by (simp_all add: utf8_encode_def lit_def is_scalar_def utf8_char_def byte_of_def)
  have "decrypt example_crypto (lit ''a'') SHARES_FILE_PURPOSE k = Inl InvalidCryptoFileError"
    by (rule decrypt_foreign_key [OF example_crypto_ok(2) _ k keys info]) (simp_all add: NONCE_SIZE_def example_crypto_def)
  then show thesis by (rule that)
qed

lemma old_shares_files:
  "config_path (lit ''/b'') None \<noteq> data_file (lit ''/b'') SHARES_FILENAME"
  "temporaries_elsewhere site_bootstrap (data_file (lit ''/b'') SHARES_FILENAME)"
  "startup_elsewhere (example_startup (Inr ())) (data_file (lit ''/b'') SHARES_FILENAME)"
  by (simp_all add: temporaries_elsewhere_def startup_elsewhere_def site_bootstrap_def example_startup_def example_io_def example_io2_def
      data_file_def SHARES_FILENAME_def config_path_def path_join_def lit_def)

lemma old_shares_run:
  assumes "decrypt example_crypto (lit ''a'') SHARES_FILE_PURPOSE blob = Inl e"
  shows "\<exists>s' r. setup_main site_net serving_sys example_platform site_bootstrap (lit ''/b'') None (site_session (Some blob)) = Some (s', r)"
proof -
  let ?p = "data_file (lit ''/b'') SHARES_FILENAME"
  obtain s1 s2 s3 s4 where prepares:
    "ask_hosts site_bootstrap (lit ''/b'') (secretweb_section site_ini) (site_session (Some blob)) = (s1, Inr (setup_hosts, lit ''alice''))"
    "write_data example_platform site_bootstrap (path_join (lit ''/b'') (lit ''data'')) setup_hosts (lit ''alice'') 59222 s1 = (s2, Inr ())"
    "write_config site_bootstrap (config_path (lit ''/b'') None) [(DEFAULT_SECTION, []), (lit ''secretweb'', site_opts1)] s2 = (s3, Inr ())"
    "echoA [Out [], Out (lit ''data files written, starting server...'')] s3 = (s4, Inr ())" using site_prepares by blast
  have start: "se_files (site_session (Some blob)) ?p = Some blob"
    by (simp add: site_session_def data_file_def SHARES_FILENAME_def path_join_def lit_def)
  have "se_files s1 ?p = Some blob" using ask_hosts_keeps(1) [OF prepares(1)] start by simp
  then have "se_files s2 ?p = Some blob" using write_data_other [OF prepares(2) old_shares_files(2) shares_file_name(1)] by simp
  moreover obtain c where "se_files s3 = (se_files s2)(config_path (lit ''/b'') None \<mapsto> c)"
    by (rule write_config_ok [OF prepares(3)]) (simp add: plain_write_def site_bootstrap_def)
  ultimately have blob: "se_files s4 ?p = Some blob" using prepares(4) old_shares_files(1) by (auto simp: echoA_def)
  obtain s5 r5 where started: "start_server serving_sys example_platform (lit ''/b'') (config_path (lit ''/b'') None) (lit ''a'') s4 = (s5, r5)"
    by (rule prod.exhaust)
  then obtain e5 where "r5 = Inl e5"
    using old_shares_stop_start [OF serving_runs blob _ old_shares_files(3) started] assms by (auto simp: example_platform_def)
  then obtain s6 e6 where fails: "tryA (start_server serving_sys example_platform (lit ''/b'') (config_path (lit ''/b'') None) (lit ''a''))
      is_start_error (failed_with example_platform ''status: FAILED to start server: '') s4 = (s6, Inl e6)"
    using started by (cases "is_start_error e5") (auto simp: tryA_def failed_with_def doA_def echoA_def)
  have "setup_main site_net serving_sys example_platform site_bootstrap (lit ''/b'') None (site_session (Some blob)) = Some (s6, Inl e6)"
    unfolding setup_main_def Let_def doP_def totalP_def pureA_def
    by (simp only: site_clear site_config prepares fails site_values option.case prod.case sum.case)
  then show ?thesis by blast
qed

theorem old_shares_stop_setup_witness:
  "\<exists>blob s' e. setup_main site_net serving_sys example_platform site_bootstrap (lit ''/b'') None (site_session (Some blob)) =
    Some (s', Inl e)"
proof -
  obtain blob where blob: "decrypt example_crypto (lit ''a'') SHARES_FILE_PURPOSE blob = Inl InvalidCryptoFileError" by (rule old_shares)
  obtain s' r where run: "setup_main site_net serving_sys example_platform site_bootstrap (lit ''/b'') None (site_session (Some blob)) =
    Some (s', r)" using old_shares_run [OF blob] by blast
  have start: "se_files (site_session (Some blob)) (data_file (lit ''/b'') SHARES_FILENAME) = Some blob"
    by (simp add: site_session_def data_file_def SHARES_FILENAME_def path_join_def lit_def)
  have dec: "decrypt (pf_crypto example_platform) (bs_key1 site_bootstrap) SHARES_FILE_PURPOSE blob = Inl InvalidCryptoFileError"
    using blob by (simp add: site_values example_platform_def)
  have "plain_write site_bootstrap" by (simp add: plain_write_def site_bootstrap_def)
  from old_shares_stop_setup [OF run start dec serving_runs this old_shares_files] obtain e where "r = Inl e" by blast
  with run show ?thesis by blast
qed

lemma site_key_message: "\<exists>msg. key1_message (lit ''a'') = Inr msg"
  using frame_valid [of "[97]"]
  by (simp add: key1_message_def utf8_encode_def lit_def is_scalar_def utf8_char_def byte_of_def)

theorem new_data_is_served_witness:
  "\<exists>handoff s' fs' app. write_data example_platform site_bootstrap (path_join (lit ''/b'') (lit ''data'')) setup_hosts (lit ''alice'') 59222
      (site_session None) = (s', Inr ()) \<and>
    server_main example_platform (example_startup (Inr ())) (lit ''/b'') None handoff (se_files s') = (fs', send_ready, Inr app) \<and>
    ac_key1 app = lit ''a'' \<and> own_name_of app = Inr (PStr (lit ''alice''))"
proof -
  obtain fs where w: "write_data example_platform site_bootstrap (path_join (lit ''/b'') (lit ''data'')) setup_hosts (lit ''alice'') 59222
      (site_session None) = (site_session None\<lparr>se_files := fs\<rparr>, Inr ())" using site_write_data by blast
  obtain doc where doc: "build_hosts_data (bs_now site_bootstrap) setup_hosts (lit ''alice'') 59222 = Inr doc"
    using w by (auto simp: write_data_def doA_Inr_iff)
  have now: "str_ok (bs_now site_bootstrap i)" for i by (simp add: site_bootstrap_def)
  have "fs (data_file (lit ''/b'') SHARES_FILENAME) = se_files (site_session None) (data_file (lit ''/b'') SHARES_FILENAME)"
    using write_data_other [OF w old_shares_files(2) shares_file_name(1)] by simp
  then have none: "fs (data_file (lit ''/b'') SHARES_FILENAME) = None"
    by (simp add: site_session_def data_file_def SHARES_FILENAME_def path_join_def lit_def)
  obtain msg where msg: "key1_message (bs_key1 site_bootstrap) = Inr msg" using site_key_message by (auto simp: site_values)
  have crypto: "aead_correct (pf_crypto example_platform)" by (simp add: example_platform_def example_crypto_ok)
  have nonces: "nonces_ok site_bootstrap" by (simp add: nonces_ok_def site_bootstrap_def example_io_def NONCE_SIZE_def)
  have tmps: "temporaries_elsewhere site_bootstrap (data_file (lit ''/b'') name)"
    if "name \<in> {HOSTS_FILENAME, SITES_FILENAME, SECRETS_FILENAME}" for name
    using that by (elim insertE emptyE) (simp_all add: temporaries_elsewhere_def site_bootstrap_def example_io_def example_names)
  have io: "length (io_nonce (su_shares_io (example_startup (Inr ())))) = NONCE_SIZE" "io_plan (su_shares_io (example_startup (Inr ()))) = Finish"
    by (simp_all add: example_startup_def example_io_def NONCE_SIZE_def)
  have same: "fs (data_file (lit ''/b'') name) = se_files (site_session None\<lparr>se_files := fs\<rparr>) (data_file (lit ''/b'') name)" for name by simp
  have "delivered [Data msg] = msg" by simp
  from new_data_is_served [where fs = fs, OF w doc site_hosts_ok now crypto nonces tmps same none io msg this example_start]
  obtain fs' app where "server_main example_platform (example_startup (Inr ())) (lit ''/b'') None [Data msg] fs = (fs', send_ready, Inr app)"
    "ac_key1 app = lit ''a''" "own_name_of app = Inr (PStr (lit ''alice''))" by (auto simp: site_values)
  moreover have "fs = se_files (site_session None\<lparr>se_files := fs\<rparr>)" by simp
  ultimately show ?thesis using w by metis
qed

end
