(* ===== verification/SetupNames.thy ===== *)
theory SetupNames
  imports SetupOutcome
begin

text \<open>
  What the setup does with a list of hosts that has too few different names for KEY1 to be split.
\<close>

section \<open>Fewer than two other hosts\<close>

lemma few_shares_refused:
  assumes "length (other_hosts hosts own) < 2"
  shows "(case key1_shares_and_treshold (other_hosts hosts own) of (shares, treshold) \<Rightarrow>
    shamir_init name owner shares treshold uuid4 = Inl ValueError)"
  using assms by (auto simp: key1_shares_and_treshold_def shamir_init_def)

lemma publish_few:
  assumes "length (other_hosts hosts own) < 2" "cfg_getint (pf_int pf) cfg (lit ''server-port'') None = Inr port"
  shows "publish_key1_to_network net pf tape uuid4 now basedir key1 hosts own cfg s = Some (s, Inl ValueError)"
  using few_shares_refused [OF assms(1), of "lit ''key1''" own uuid4] assms(2)
  by (simp add: publish_key1_to_network_def doP_def totalP_def pureA_def split: prod.splits)

lemma poll_has_port:
  "poll_for_hosts_online net pf basedir hosts own cfg s = Some (s', Inr ()) \<Longrightarrow>
   \<exists>port. cfg_getint (pf_int pf) cfg (lit ''server-port'') None = Inr port"
  by (auto simp: poll_for_hosts_online_def doP_Inr_iff pureA_def)

text \<open>
  C40: too few different names break the setup. The operator may type the same name more than once, and the
  list is accepted. If at most one of the hosts has a name other than the own one, then the setup never ends
  normally: with the server started, the new data on disk and the polling over, the split of KEY1 raises a
  \<open>ValueError\<close>, which is not handled; nothing is printed, nothing is sent and the server is left running.
\<close>

theorem too_few_names_break_setup:
  assumes "setup_front sys pf bs basedir config_file s = Some (s5, Inr (ini0, hosts, own))"
    and "length (other_hosts hosts own) < 2"
    and "setup_main net sys pf bs basedir config_file s = Some (s', r)"
  shows "(\<exists>e. r = Inl e \<and> (\<forall>s7. poll_for_hosts_online net pf basedir hosts own
        (secretweb_section (with_options (AList.update (lit ''initiated'') (lit ''True'')) ini0))
        (fst (echoA [Out (lit ''server is running.'')] s5)) = Some (s7, Inr ()) \<longrightarrow> e = ValueError \<and> s' = s7)) \<and>
    (\<exists>s4 pid. start_server sys pf basedir (config_path basedir config_file) (bs_key1 bs) s4 = (s5, Inr pid))"
proof -
  let ?cfg = "secretweb_section (with_options (AList.update (lit ''initiated'') (lit ''True'')) ini0)"
  let ?s6 = "fst (echoA [Out (lit ''server is running.'')] s5)"
  have rest: "setup_back net sys pf bs basedir config_file (ini0, hosts, own) s5 = Some (s', r)"
    using assms(1,3) by (simp add: setup_main_split doP_def)
  obtain s7 polled where poll: "poll_for_hosts_online net pf basedir hosts own ?cfg ?s6 = Some (s7, polled)"
    using rest by (cases "poll_for_hosts_online net pf basedir hosts own ?cfg ?s6")
      (auto simp: setup_back_def Let_def doP_def totalP_def echoA_def)
  have ended: "s' = s7 \<and> r = (case polled of Inl e \<Rightarrow> Inl e | Inr u \<Rightarrow> Inl ValueError)"
  proof (cases polled)
    case (Inl e)
    then show ?thesis using rest poll by (simp add: setup_back_def Let_def doP_def totalP_def echoA_def)
  next
    case (Inr u)
    then obtain port where "cfg_getint (pf_int pf) ?cfg (lit ''server-port'') None = Inr port" using poll poll_has_port by fastforce
    then show ?thesis using rest poll Inr by (simp add: setup_back_def Let_def doP_def totalP_def echoA_def publish_few [OF assms(2)])
  qed
  obtain s4 pid where "start_server sys pf basedir (config_path basedir config_file) (bs_key1 bs) s4 = (s5, Inr pid)"
    by (rule setup_front_run [OF assms(1)])
  then show ?thesis using ended poll by (cases polled) auto
qed

section \<open>Four hosts of the same name\<close>

definition same_name :: "(string \<times> string \<times> string) list" where
  "same_name = map (\<lambda>(name, address, role). (''alice'', address, role)) four_hosts"

definition same_hosts :: "setup_host list" where
  "same_hosts = map setup_host_of same_name"

definition same_session :: "site session" where
  "same_session = site_session None\<lparr>se_input := concat (map (\<lambda>(name, address, role). [lit name, lit address, lit role]) same_name) @ [[]]\<rparr>"

lemma same_files: "se_files same_session = se_files (site_session None)"
  by (simp add: same_session_def)

lemma same_clear: "clear_old_data sys example_platform site_bootstrap (lit ''/b'') same_session = Some (same_session, Inr ())"
  by (simp add: clear_old_data_def same_files site_no_data)

lemma same_collect: "\<exists>es. collect_hosts (se_input same_session) = ([], es, Inr same_hosts)"
proof -
  have addr: "addresses_of (lit a) = [lit a]" if "a \<in> {''a0'', ''b0'', ''c0'', ''d0''}" for a
    using that by (auto simp: addresses_of_def str_strip_def is_space_def lit_def)
  have step: "collect_loop hosts (lit n # lit a # lit role # input) =
      (case collect_loop (hosts @ [setup_host_of (n, a, role)]) input of (rest, es, r) \<Rightarrow> (rest, tally_line hosts # es, r))"
    if "n \<noteq> []" "a \<in> {''a0'', ''b0'', ''c0'', ''d0''}" for hosts n a role input
    using that by (subst collect_loop.simps) (simp add: addr setup_host_of_def)
  have last: "collect_loop same_hosts [[]] = ([], [tally_line same_hosts], Inr same_hosts)"
    by (subst collect_loop.simps)
       (simp add: minimum_met_def tally_def MIN_SERVERS_def MIN_CONTROLLERS_def same_hosts_def same_name_def four_hosts_def setup_host_of_def)
  show ?thesis using last
    by (simp add: collect_hosts_def same_session_def same_name_def four_hosts_def step same_hosts_def)
qed

lemma same_ask:
  "\<exists>s'. ask_hosts site_bootstrap (lit ''/b'') (secretweb_section site_ini) same_session = (s', Inr (same_hosts, lit ''alice''))"
proof -
  obtain es where es: "collect_hosts (se_input same_session) = ([], es, Inr same_hosts)" using same_collect by blast
  have "match_own_host same_hosts (lit ''alice'') s = (s, Inr (lit ''alice''))" for s :: "site session"
    by (simp add: same_hosts_def same_name_def four_hosts_def setup_host_of_def hostname_from_common_name_def first_label_def lit_def)
  then show ?thesis using es
    by (simp add: ask_hosts_def doA_def site_own same_files site_cert echoA_def dialogA_def)
qed

lemma same_writes:
  "\<exists>fs. write_data example_platform site_bootstrap (path_join (lit ''/b'') (lit ''data'')) same_hosts (lit ''alice'') 59222 s =
     (s\<lparr>se_files := fs\<rparr>, Inr ())" for s :: "site session"
proof -
  obtain doc where "build_hosts_data (\<lambda>_. lit ''now'') same_hosts (lit ''alice'') 59222 = Inr doc" "json_ok doc"
    by (simp add: build_hosts_data_def same_hosts_def same_name_def four_hosts_def setup_host_of_def first_address_def host_record_def
        dict_ok_def dec_digits.simps MAX_STR_DIGITS_def str_ok_ascii)
  then show ?thesis by (rule site_writes)
qed

lemma same_front:
  "\<exists>s5. setup_front site_sys example_platform site_bootstrap (lit ''/b'') None same_session = Some (s5, Inr (site_ini, same_hosts, lit ''alice''))"
proof -
  obtain s1 where s1: "ask_hosts site_bootstrap (lit ''/b'') (secretweb_section site_ini) same_session = (s1, Inr (same_hosts, lit ''alice''))"
    using same_ask by blast
  obtain s2 where s2: "write_data example_platform site_bootstrap (path_join (lit ''/b'') (lit ''data'')) same_hosts (lit ''alice'') 59222 s1
      = (s2, Inr ())" using same_writes [of s1] by blast
  obtain s3 where s3: "write_config site_bootstrap (config_path (lit ''/b'') None)
      [(DEFAULT_SECTION, []), (lit ''secretweb'', site_opts1)] s2 = (s3, Inr ())"
    using site_written [OF site_opts(4), of "config_path (lit ''/b'') None" s2] by blast
  define s4 where "s4 = fst (echoA [Out [], Out (lit ''data files written, starting server...'')] s3)"
  have s4: "echoA [Out [], Out (lit ''data files written, starting server...'')] s3 = (s4, Inr ())" by (simp add: s4_def echoA_def)
  obtain s5 where s5: "start_server site_sys example_platform (lit ''/b'') (config_path (lit ''/b'') None) (lit ''a'') s4 = (s5, Inr 7)"
    using site_start [of "config_path (lit ''/b'') None" s4] by blast
  have "setup_front site_sys example_platform site_bootstrap (lit ''/b'') None same_session = Some (s5, Inr (site_ini, same_hosts, lit ''alice''))"
    unfolding setup_front_def doP_def totalP_def pureA_def tryA_def
    by (simp only: same_clear same_files site_config s1 s2 s3 s4 s5 site_values option.case prod.case sum.case)
  then show ?thesis by blast
qed

theorem too_few_names_break_setup_witness:
  "\<exists>s'. setup_main site_net site_sys example_platform site_bootstrap (lit ''/b'') None same_session = Some (s', Inl ValueError)"
proof -
  obtain s5 where front: "setup_front site_sys example_platform site_bootstrap (lit ''/b'') None same_session =
      Some (s5, Inr (site_ini, same_hosts, lit ''alice''))" using same_front by blast
  have none: "other_hosts same_hosts (lit ''alice'') = []"
    by (simp add: other_hosts_def same_hosts_def same_name_def four_hosts_def setup_host_of_def)
  then have few: "length (other_hosts same_hosts (lit ''alice'')) < 2" by simp
  let ?cfg = "secretweb_section (with_options (AList.update (lit ''initiated'') (lit ''True'')) site_ini)"
  have cfg: "?cfg = Some site_opts1" unfolding site_values by (rule site_section(1) [OF site_opts(1)])
  have "cfg_getint (pf_int example_platform) (Some site_opts1) (lit ''server-port'') None = Inr 59222"
    using site_opts(2) by (simp add: cfg_getint_def cfg_option_def example_int)
  then obtain s7 where poll: "poll_for_hosts_online site_net example_platform (lit ''/b'') same_hosts (lit ''alice'') ?cfg
      (fst (echoA [Out (lit ''server is running.'')] s5)) = Some (s7, Inr ())"
    by (simp add: cfg poll_for_hosts_online_def none by_name_def doP_def totalP_def pureA_def echoA_def poll_rounds.simps)
  obtain port where "cfg_getint (pf_int example_platform) ?cfg (lit ''server-port'') None = Inr port" using poll_has_port [OF poll] by blast
  note unpublished = publish_few [OF few this]
  have "\<exists>s' r. setup_main site_net site_sys example_platform site_bootstrap (lit ''/b'') None same_session = Some (s', r)"
    using poll by (simp add: setup_main_split setup_back_def front doP_def totalP_def echoA_def Let_def unpublished)
  then obtain s' r where run: "setup_main site_net site_sys example_platform site_bootstrap (lit ''/b'') None same_session = Some (s', r)"
    by blast
  from too_few_names_break_setup [OF front few run] poll run show ?thesis by blast
qed

end
