(* ===== verification/ServerAnswers.thy ===== *)
theory ServerAnswers
  imports ServerProperties
begin

text \<open>
  Every answer that the server can give: which status goes with which request, and every exception that
  a handler lets through, with its cause. bottle turns the exceptions that are no HTTP errors into
  status 500.
\<close>

section \<open>What the check of a share raises\<close>

lemma py_subscript_dict: "py_subscript (PDict d) k = Inl e \<Longrightarrow> e = KeyError"
  by (cases "map_of d k") auto

lemma mismatch_dict: "mismatch (PDict d) checks = Inl e \<Longrightarrow> e = KeyError"
  by (induction checks) (auto simp: bindE_Inl_iff split: prod.splits option.splits dest: py_subscript_dict)

lemma assign_fields_dict: "assign_fields (PDict d) flds s = (s', Inl e) \<Longrightarrow> e = KeyError"
  by (induction flds arbitrary: s) (auto split: sum.splits dest: py_subscript_dict)

lemma populate_decoder_dict:
  assumes "populate_decoder (PDict d) s = (s', Inl e)"
  shows "e = KeyError \<or> e = InvalidShareError"
proof (rule ccontr)
  assume "\<not> ?thesis"
  then show False using assms
    by (auto simp: populate_decoder_def accept_share_def Let_def bindE_Inl_iff
        split: sum.splits prod.splits option.splits if_splits
        dest: py_subscript_dict mismatch_dict assign_fields_dict)
qed

lemma check_share_dict: "check_share (PDict d) = Inl e \<Longrightarrow> e = HTTPError 400"
proof -
  assume raised: "check_share (PDict d) = Inl e"
  obtain s where s: "shamir_init_default [] [] [] = Inr s" by (simp add: shamir_init_default_def shamir_init_def)
  obtain s' r where r: "populate_decoder (PDict d) s = (s', r)" by (rule prod.exhaust)
  with raised s populate_decoder_dict [of d s] show ?thesis
    by (cases r) (auto simp: check_share_def split: if_splits)
qed

lemma assign_fields_present: "assign_fields (PDict d) flds s = (s', Inr u) \<Longrightarrow> k \<in> fst ` set flds \<Longrightarrow> map_of d k \<noteq> None"
proof (induction flds arbitrary: s)
  case (Cons fld flds)
  obtain a f where fld: "fld = (a, f)" by (rule prod.exhaust)
  obtain v where v: "map_of d a = Some v" "assign_fields (PDict d) flds (f v s) = (s', Inr u)"
    using Cons.prems(1) fld by (cases "map_of d a") auto
  then show ?case using Cons.IH [OF v(2)] Cons.prems(2) fld by (cases "k = a") auto
qed simp

lemma check_share_owner:
  assumes "check_share (PDict d) = Inr ()"
  shows "\<exists>v. map_of d (lit ''owner'') = Some v"
proof -
  obtain s where s: "shamir_init_default [] [] [] = Inr s" by (simp add: shamir_init_default_def shamir_init_def)
  then obtain s' n where "populate_decoder (PDict d) s = (s', Inr n)"
    using assms by (cases "populate_decoder (PDict d) s") (auto simp: check_share_def split: sum.splits if_splits)
  then obtain s1 s2 where "assign_fields (PDict d) metadata_fields s1 = (s2, Inr ())"
    by (auto simp: populate_decoder_def accept_share_def Let_def bindE_Inr_iff simp del: py_subscript.simps
        split: sum.splits prod.splits option.splits if_splits)
  from assign_fields_present [OF this, of "lit ''owner''"] show ?thesis by (auto simp: metadata_fields_def)
qed

text \<open>Only an infinite number gets through the conversion of the counts.\<close>

lemma py_int_of_errors: "py_int_of unicode_int v = Inl e \<Longrightarrow> e = TypeError \<or> e = ValueError \<or>
    e = OverflowError \<and> (\<exists>b. v = PFloat (FInf b))"
  by (cases "(unicode_int, v)" rule: py_int_of.cases) (auto simp: int_of_text_def of_opt_def Let_def split: if_splits option.splits)

definition infinite_count :: "pyval \<Rightarrow> bool" where
  "infinite_count payload \<longleftrightarrow> (\<exists>b. py_subscript payload (lit ''treshold'') = Inr (PFloat (FInf b)) \<or>
     py_subscript payload (lit ''shares_saved'') = Inr (PFloat (FInf b)))"

definition is_text :: "pyval \<Rightarrow> bool" where
  "is_text v \<longleftrightarrow> (\<exists>s. v = PStr s)"

lemma metadata_of_errors:
  assumes "metadata_of pf (PDict d) = Inl e"
  shows "e = HTTPError 400 \<or> e = OverflowError \<and> infinite_count (PDict d)"
proof -
  let ?int = "\<lambda>k. bindE (py_subscript (PDict d) k) (py_int_of (pf_int pf))"
  have int: "e = KeyError \<or> e = TypeError \<or> e = ValueError \<or>
      e = OverflowError \<and> (\<exists>b. py_subscript (PDict d) k = Inr (PFloat (FInf b)))" if "?int k = Inl e" for k e
    using that py_int_of_errors py_subscript_dict [of d k e] unfolding bindE_Inl_iff by blast
  have "catchE r p h = Inl e \<Longrightarrow> \<exists>e'. r = Inl e' \<and> (if p e' then h e' = Inl e else e' = e)" for r :: "(pyval \<times> int \<times> int) py" and p h
    by (cases r) (auto split: if_splits)
  from this [OF assms [unfolded metadata_of_def]] show ?thesis
    using int [of "lit ''treshold''"] int [of "lit ''shares_saved''"] py_subscript_dict [of d "lit ''uuid''"]
    by (fastforce simp: infinite_count_def bindE_Inl_iff simp del: py_subscript.simps split: if_splits)
qed

section \<open>The answers\<close>

text \<open>What a file write of a handler may raise.\<close>

definition write_raises :: "platform \<Rightarrow> request \<Rightarrow> app_config \<Rightarrow> pystr \<Rightarrow> pystr \<Rightarrow> pyexn \<Rightarrow> bool" where
  "write_raises pf rq ac file_name purpose e \<longleftrightarrow> (\<exists>doc.
     snd (save (pf_crypto pf) (rq_io rq) (data_path ac file_name) (ac_key1 ac) purpose doc (ac_files ac)) = Inl e)"

lemma persist_shares_raises:
  assumes "persist_shares pf (rq_io rq) (ac\<lparr>ac_shares := doc\<rparr>) = (ac', Inl e)"
  shows "write_raises pf rq ac SHARES_FILENAME SHARES_FILE_PURPOSE e"
proof -
  have "snd (save (pf_crypto pf) (rq_io rq) (data_path ac SHARES_FILENAME) (ac_key1 ac) SHARES_FILE_PURPOSE doc (ac_files ac)) = Inl e"
    using assms by (auto simp: persist_shares_def data_path_def split: prod.splits)
  then show ?thesis unfolding write_raises_def by blast
qed

lemma persist_secrets_raises:
  assumes "persist_secrets pf (rq_io rq) (ac\<lparr>ac_secrets := doc\<rparr>) = (ac', Inl e)"
  shows "write_raises pf rq ac SECRETS_FILENAME SECRETS_FILE_PURPOSE e"
proof -
  have "snd (save (pf_crypto pf) (rq_io rq) (data_path ac SECRETS_FILENAME) (ac_key1 ac) SECRETS_FILE_PURPOSE doc (ac_files ac)) = Inl e"
    using assms by (auto simp: persist_secrets_def data_path_def split: prod.splits)
  then show ?thesis unfolding write_raises_def by blast
qed

text \<open>The exceptions of a handler with their causes.\<close>

fun may_raise :: "platform \<Rightarrow> route \<Rightarrow> request \<Rightarrow> app_config \<Rightarrow> pyexn \<Rightarrow> bool" where
  "may_raise pf Index rq ac e = False"
| "may_raise pf (PostShare u) rq ac e = (e \<in> HTTPError ` {400, 403, 409} \<or> rq_json rq = Inl e \<or>
     e = AttributeError \<and> (\<exists>d v. rq_json rq = Inr (PDict d) \<and> map_of d (lit ''owner'') = Some v \<and> \<not> is_text v) \<or>
     write_raises pf rq ac SHARES_FILENAME SHARES_FILE_PURPOSE e)"
| "may_raise pf (GetShare u) rq ac e = (e \<in> HTTPError ` {403, 404})"
| "may_raise pf (PostSecret n) rq ac e = (e \<in> HTTPError ` {400, 403} \<or> rq_json rq = Inl e \<or>
     e = OverflowError \<and> (\<exists>payload. rq_json rq = Inr payload \<and> infinite_count payload) \<or>
     own_name_of ac = Inl e \<or> e = AttributeError \<and> (\<exists>v. own_name_of ac = Inr v \<and> \<not> is_text v) \<or>
     write_raises pf rq ac SECRETS_FILENAME SECRETS_FILE_PURPOSE e)"
| "may_raise pf (GetSecret n) rq ac e = (e \<in> HTTPError ` {403, 404} \<or>
     own_name_of ac = Inl e \<or> e = AttributeError \<and> (\<exists>v. own_name_of ac = Inr v \<and> \<not> is_text v))"

text \<open>The values that come with a status below 400.\<close>

fun may_answer :: "route \<Rightarrow> nat \<Rightarrow> pyval \<Rightarrow> bool" where
  "may_answer Index status v = (status = 200 \<and> v = PStr (lit ''OK''))"
| "may_answer (PostShare u) status v =
     (status = 201 \<and> v = status_doc ''stored'' \<or> status = 200 \<and> v = status_doc ''already-stored'')"
| "may_answer (GetShare u) status v = (status = 200 \<and> share_entry u v)"
| "may_answer (PostSecret n) status v = (status = 201 \<and> (\<exists>uuid t k now. v = secret_record uuid t k now))"
| "may_answer (GetSecret n) status v = (status = 200 \<and> v \<noteq> PNone)"

lemma require_owner_errors:
  "require_owner_matches_client_cert pf rq v = Inl e \<Longrightarrow> e = HTTPError 403 \<or> e = AttributeError \<and> \<not> is_text v"
  by (auto simp: require_owner_matches_client_cert_def is_text_def split: option.splits pyval.splits if_splits)

lemma store_share_may_raise:
  assumes "store_share pf u rq ac = (ac', Inl e)" "app_ok ac"
  shows "may_raise pf (PostShare u) rq ac e"
proof (rule ccontr)
  assume no: "\<not> may_raise pf (PostShare u) rq ac e"
  then obtain d where d: "rq_json rq = Inr (PDict d)"
    using assms(1) by (cases "rq_json rq") (auto simp: store_share_def split: pyval.splits)
  have uuid: "map_of d (lit ''uuid'') = Some (PStr u)"
    using assms(1) no d by (auto simp: store_share_def dict_get_PStr split: if_splits)
  have chk: "check_share (PDict d) = Inr ()"
    using assms(1) no d uuid check_share_dict [of d]
    by (cases "check_share (PDict d)") (auto simp: store_share_def dict_get_PStr)
  obtain ow where ow: "map_of d (lit ''owner'') = Some ow"
    using check_share_owner [OF chk] by blast
  have "require_owner_matches_client_cert pf rq ow = Inr ()"
    using assms(1) no d uuid chk ow require_owner_errors [of pf rq ow]
    by (cases "require_owner_matches_client_cert pf rq ow") (auto simp: store_share_def dict_get_PStr)
  then have "valid_submission pf u rq d" using d uuid chk ow by (auto simp: valid_submission_def require_owner_Inr)
  from store_share_eval [OF assms(2) this] assms(1) no show False
    by (auto split: option.splits prod.splits sum.splits if_splits dest!: persist_shares_raises)
qed

lemma own_name_may_raise:
  assumes "bindE (own_name_of ac) (\<lambda>own. bindE (require_owner_matches_client_cert pf rq own) f) = Inl e"
  shows "own_name_of ac = Inl e \<or> e = HTTPError 403 \<or> e = AttributeError \<and> (\<exists>v. own_name_of ac = Inr v \<and> \<not> is_text v) \<or>
    f () = Inl e"
  using assms require_owner_errors [of pf rq] by (auto simp: bindE_Inl_iff)

lemma store_secret_may_raise:
  assumes "store_secret_metadata pf n rq ac = (ac', Inl e)" "app_ok ac"
  shows "may_raise pf (PostSecret n) rq ac e"
proof -
  obtain t where t: "table (ac_secrets ac) (lit ''secrets'') = Inr t" using secrets_table [OF assms(2)] by blast
  let ?head = "bindE (rq_json rq) (\<lambda>payload. case payload of
      PDict d \<Rightarrow> bindE (metadata_of pf payload) (\<lambda>(uuid, treshold, shares_saved).
        bindE (own_name_of ac) (\<lambda>own. bindE (require_owner_matches_client_cert pf rq own) (\<lambda>_.
          bindE (table_to_assign (ac_secrets ac) (lit ''secrets'')) (\<lambda>_. Inr (secret_record uuid treshold shares_saved (rq_now rq))))))
    | _ \<Rightarrow> Inl (HTTPError 400))"
  show ?thesis
  proof (cases ?head)
    case (Inr rec)
    then show ?thesis using assms(1)
      by (auto simp: store_secret_metadata_def split: prod.splits sum.splits dest: persist_secrets_raises)
  next
    case (Inl e')
    then have e: "e' = e" using assms(1) by (simp add: store_secret_metadata_def)
    show ?thesis
    proof (cases "rq_json rq")
      case (Inr payload)
      show ?thesis
      proof (cases "\<exists>d. payload = PDict d")
        case True
        then obtain d where d: "payload = PDict d" by blast
        show ?thesis
        proof (cases "metadata_of pf payload")
          case (Inl e1)
          then show ?thesis using \<open>?head = Inl e'\<close> e Inr d metadata_of_errors [of pf d] by auto
        next
          case meta: (Inr m)
          then show ?thesis using \<open>?head = Inl e'\<close> e Inr d t own_name_may_raise [of ac pf rq _ e]
            by (cases m) fastforce
        qed
      next
        case False
        then show ?thesis using \<open>?head = Inl e'\<close> e Inr by (cases payload) auto
      qed
    qed (use \<open>?head = Inl e'\<close> e in simp)
  qed
qed

lemma get_secret_may_raise:
  assumes "get_secret_metadata pf n rq ac = (ac', Inl e)" "app_ok ac"
  shows "may_raise pf (GetSecret n) rq ac e"
proof -
  obtain t where "table (ac_secrets ac) (lit ''secrets'') = Inr t" using secrets_table [OF assms(2)] by blast
  then show ?thesis using assms(1) own_name_may_raise [of ac pf rq _ e]
    by (fastforce simp: get_secret_metadata_def Let_def split: if_splits)
qed

lemma get_share_may_raise:
  assumes "get_share pf u rq ac = (ac', Inl e)" "app_ok ac"
  shows "may_raise pf (GetShare u) rq ac e"
  using assms(1) unfolding get_share_eval [OF assms(2)] by (auto split: option.splits if_splits)

lemma handle_may_answer:
  assumes "handle pf route rq ac = (ac', Inr (status, v))" "app_ok ac"
  shows "may_answer route status v"
proof (cases route)
  case (PostShare u)
  then have "store_share pf u rq ac = (ac', Inr (status, v))" using assms(1) by simp
  from this assms(2) show ?thesis by (cases rule: store_share_cases) (auto simp: PostShare split: sum.splits)
next
  case (GetShare u)
  then show ?thesis using assms get_share_eval [OF assms(2), of pf u rq]
    by (auto simp: app_ok_def split: option.splits if_splits)
next
  case (PostSecret n)
  then have "store_secret_metadata pf n rq ac = (ac', Inr (status, v))" using assms(1) by simp
  then show ?thesis by (cases rule: store_secret_cases) (auto simp: PostSecret split: sum.splits)
next
  case (GetSecret n)
  then show ?thesis using assms(1)
    by (auto simp: get_secret_metadata_def bindE_Inr_iff Let_def split: if_splits)
qed (use assms(1) in \<open>simp add: index_def\<close>)

text \<open>
  C25: the server stays well-formed and its answers are typed. A request of any kind, with any body, keeps
  the shape of both tables. A normal answer has one of the statuses 200 and 201 with the value that the
  route promises; and \<open>may_raise\<close> lists every exception that can leave a handler: the refusals 400, 403,
  404 and 409, an error of reading the body or of writing the file, and what becomes a status 500: a
  share whose owner is no string, a count that is infinite, a hosts document without a usable own name.
\<close>

theorem answers_typed:
  assumes "handle pf route rq ac = (ac', resp)" "app_ok ac"
  shows "app_ok ac' \<and> (case resp of Inr (status, v) \<Rightarrow> may_answer route status v | Inl e \<Rightarrow> may_raise pf route rq ac e)"
proof (cases resp)
  case (Inl e)
  then have "may_raise pf route rq ac e" using assms
    by (cases route) (auto simp: index_def simp del: may_raise.simps
        dest: store_share_may_raise get_share_may_raise store_secret_may_raise get_secret_may_raise)
  then show ?thesis using Inl app_ok_handle [OF assms] by simp
next
  case (Inr answer)
  then show ?thesis using assms handle_may_answer app_ok_handle [OF assms] by (cases answer) auto
qed

text \<open>An infinite treshold, which Python's JSON parser accepts, is answered 500.\<close>

definition infinite_body :: "pyval" where
  "infinite_body = PDict [(lit ''uuid'', PStr (lit ''u'')), (lit ''treshold'', PFloat (FInf False)), (lit ''shares_saved'', PInt 2)]"

theorem answers_typed_witness:
  "handle example_platform (PostSecret (lit ''n'')) (example_request ''bob'' infinite_body Finish) example_app =
     (example_app, Inl OverflowError) \<and>
   app_ok example_app \<and>
   may_raise example_platform (PostSecret (lit ''n'')) (example_request ''bob'' infinite_body Finish) example_app OverflowError"
proof -
  have "handle example_platform (PostSecret (lit ''n'')) (example_request ''bob'' infinite_body Finish) example_app =
     (example_app, Inl OverflowError)"
    by (simp add: store_secret_metadata_def example_request_def infinite_body_def metadata_of_def)
  from this answers_typed [OF this example_app_ok] show ?thesis by simp
qed

end
