(* ===== verification/Spec2Isabelle.thy ===== *)
theory Spec2Isabelle
  imports SetupServer SetupNames ServerAnswers
begin

text \<open>
  Secretweb: a verification of the Python program under \<open>src/\<close>.

  \<^bold>\<open>The program.\<close> Hosts that trust each other through a private certificate authority keep each
  other's secrets. A secret is split by Shamir's scheme (\<open>shamir.py\<close>) into shares, one for each peer, of
  which any treshold many give it back. Every host runs a server (\<open>server.py\<close>) that keeps the shares of
  others in files encrypted under its own KEY1 (\<open>cryptofile.py\<close>) and hands a share back to its owner
  only, whom it knows by the client certificate. KEY1 itself is nowhere on the disk of its host: it is split among the
  peers by the interactive bootstrap (\<open>setup_secretweb.py\<close>), and at every boot the initiator
  (\<open>initiator.py\<close>) polls the peers until KEY1 is back and hands it to the server over a socket
  (\<open>key_handoff.py\<close>). The day-2 client (\<open>secretweb_client.py\<close>) stores and fetches further secrets. All
  requests to servers go through \<open>peer_client.py\<close>, the peers are named by \<open>hosts.json\<close> (\<open>hosts_data.py\<close>), and
  timestamps come from \<open>timeutils.py\<close>.

  \<^bold>\<open>How code corresponds to definitions.\<close> A function of the source is a definition with its name, and
  a branch of the source is a branch of the definition, in the order of the code. An exception is a
  value of \<open>pyexn\<close> on the left of a sum (\<open>Prelude\<close>); \<open>bindE\<close> and \<open>catchE\<close> are sequencing and \<open>except\<close>.
  Code that talks to the outside is an action of \<open>Action\<close>: it takes a session (the world, the files, what
  was printed, the answers still to be typed) to the session it leaves, also when it raises. Python's
  integers are \<open>int\<close>, its strings lists of code points, bytes are \<open>8 word\<close>s, and documents of unknown
  shape are values of \<open>pyval\<close> (\<open>PyValues\<close>), so that a body of a request or a file may hold anything.
  Loops over lists are recursion on the list. A loop that need not end is a \<open>partial_function\<close> into
  \<open>option\<close> whose value \<open>None\<close> stands for not returning, and then the properties prove that it returns;
  there is no fuel anywhere. Random draws come from a tape (a list of integers, \<open>None\<close> when
  it runs out), and the uuid, the time and the host name are arguments.

  \<^bold>\<open>The theories.\<close>
  \<^item> \<open>Prelude\<close>, \<open>Action\<close>, \<open>PyValues\<close>, \<open>Bytes\<close>, \<open>Config\<close>, \<open>Files\<close>: exceptions, actions, values and their
    equality, bytes and UTF-8, integers in texts and the options of \<open>config.ini\<close>, files with the single system
    calls of \<open>atomic_write_bytes\<close>. The locale \<open>codec\<close> of \<open>Bytes\<close> states that decoding inverts
    encoding; \<open>codec_pair\<close> composes two of them.
  \<^item> \<open>JsonNumbers\<close>, \<open>Json\<close>, \<open>JsonRoundtrip\<close>: \<open>json.dumps\<close> in both layouts and \<open>json.loads\<close>, executable,
    with the round trip of every document without floats and tuples.
  \<^item> \<open>Sha256\<close>: \<open>hashlib.sha256\<close>. \<open>Mersenne\<close>, \<open>GaloisField\<close>, \<open>Interpolation\<close>: the modulus \<open>PRIME\<close> is prime
    (a Lucas-Lehmer argument, computed in the kernel), the integers modulo it are a field, and a polynomial is
    determined by enough of its values.
  \<^item> \<open>Shamir\<close> is \<open>shamir.py\<close>: the object \<open>ShamirSecret\<close> is the record \<open>shamir_secret\<close>, its methods are
    functions on it. \<open>ShamirMath\<close> inverts the string codec and proves the reconstruction to be interpolation at zero;
    \<open>ShamirDecoder\<close> holds what a dealer's object looks like (\<open>dealt\<close>) and the invariant of a decoder
    under arbitrary input (\<open>decoder_inv\<close>); in \<open>ShamirRecovery\<close> the list of accepted indices
    (\<open>collected\<close>) is the abstract state of a decoder that honest shares refine. \<open>ShamirProperties\<close>:
    recovery, secrecy below the treshold, totality of dealing, refused secrets.
  \<^item> \<open>CryptoFile\<close>, \<open>CryptoFileProperties\<close> are \<open>cryptofile.py\<close>: envelope, atomic write, \<open>save\<close>, \<open>load\<close>, \<open>ensure\<close>, and their
    mirrored forms; what is saved is loaded, a write is all or nothing wherever it stops.
  \<^item> \<open>ConfigFile\<close>: the reader and the writer of \<open>config.ini\<close> (\<open>load_config\<close> of three modules, \<open>write_ini\<close>), which are a
    codec. \<open>Commands\<close> starts the programs with the configuration loaded from the file; the options
    that the setup adds to it are those that the next boot reads.
  \<^item> \<open>HostsData\<close> is \<open>hosts_data.py\<close>, \<open>KeyHandoff\<close> is \<open>key_handoff.py\<close> over a socket that delivers pieces of
    any size and may break, \<open>Clock\<close> is \<open>timeutils.py\<close>.
  \<^item> \<open>Server\<close> is \<open>server.py\<close>: \<open>app.config\<close> is the record \<open>app_config\<close>, every handler is a function on it and on a request,
    \<open>handle\<close> dispatches, \<open>server_main\<close> is the start. \<open>ServerInvariant\<close> has the invariant \<open>app_ok\<close>, the case
    analysis of the handlers, the relation \<open>serves\<close> of the states a server reaches, and the locale \<open>share_store\<close>: what a
    host that keeps shares promises, interpreted on the server. \<open>ServerProperties\<close>, \<open>ServerAnswers\<close>,
    \<open>StartupProperties\<close>: who gets and stores what, every answer and every exception, the start.
  \<^item> \<open>PeerClient\<close> is \<open>peer_client.py\<close>; \<open>Recovery\<close> is what initiator and client share.
  \<^item> \<open>Initiator\<close>, \<open>InitiatorProperties\<close> are \<open>initiator.py\<close>: KEY1 comes back and nothing else does, the pidfile names a
    serving process, stopping ends it.
  \<^item> \<open>SecretwebClient\<close>, \<open>ClientProperties\<close> are \<open>secretweb_client.py\<close>.
  \<^item> \<open>Setup\<close>, \<open>SetupProperties\<close> are \<open>setup_secretweb.py\<close>, the whole dialog included; \<open>SetupOutcome\<close>
    goes through the whole of \<open>main\<close> and says what a normal end leaves behind.
  \<^item> \<open>Network\<close>, \<open>NetworkProperties\<close> put the parts together: the world is a family of servers, the relation \<open>traffic\<close> is
    what all other hosts may ask of one of them, and the locale \<open>server_network\<close> connects the requests
    of one host to the handlers. What one command stores, another brings back, whatever happens in between.
  \<^item> \<open>BootProperties\<close> goes from the setup to the next boot: the hosts document and the options that the setup
    writes lead the initiator to the servers that hold the shares of KEY1. \<open>SetupBoot\<close> composes the whole: from the
    first prompt of the setup over its files, its processes and its requests to the server that the next boot starts.
    \<open>SetupServer\<close> lets the processes run the server of the model: what the setup writes is what the server
    serves, and a file of shares of a former KEY1 stops every setup. \<open>SetupNames\<close>: a list of hosts with too few names
    ends it too.

  \<^bold>\<open>What is taken from outside.\<close> Each of these is a parameter, with its documented behaviour as a
  named hypothesis, and each hypothesis is met by a concrete function in a witness:
  HKDF and AES-GCM (record \<open>crypto\<close>; \<open>aead_correct\<close>, \<open>aead_authentic\<close>); lower case and digits
  outside ASCII and the texts of exceptions (\<open>platform\<close>); TLS, \<open>http.client\<close>, sleeping and \<open>random.shuffle\<close>
  (\<open>net\<close>; \<open>connects\<close>, shuffling permutes); processes and signals (\<open>sys\<close>; \<open>processes_ok\<close>,
  \<open>short_pids\<close>; \<open>local_sys\<close>: they change no server but by requests of others; \<open>runs_server\<close>: the child runs
  \<open>server_main\<close>), the plain write of \<open>config.ini\<close> (\<open>plain_write\<close>) and the names of temporary files
  (\<open>temporaries_elsewhere\<close>, \<open>startup_elsewhere\<close>).
  \<open>connects\<close> says of bottle and \<open>wsgiref\<close>: a request that is not lost reaches the handler of its path with
  the parsed body and the caller's certificate, and the answer is rendered as JSON or lost; an exchange
  that breaks with an \<open>HTTPException\<close> is excluded there. So is what bottle refuses by itself, a body above its size limit.
  Where a single host is looked at, \<open>honest_hosts\<close> (\<open>Recovery\<close>) says what arrives from its peers on the
  network, apart from what the loops catch: an \<open>OSError\<close>, any status other than 200, or the share, and,
  if its \<open>breaks\<close> is true, an \<open>HTTPException\<close>, which no loop over peers catches.
  Path segments are those that need no quoting (\<open>plain_segment\<close>).

  \<^bold>\<open>Bounds.\<close> The secret is at most \<open>MAX_SECRET_BYTES\<close> bytes, a treshold is at least 2; integers in JSON
  have at most 4300 digits as in CPython; a file name, a path and a list are as long as they are.

  \<^bold>\<open>Not modelled.\<close> The parsing of command lines by \<open>click\<close>, the \<open>%\<close> interpolation by \<open>configparser\<close> (a value
  stands for itself, as every value without a percent sign does) and the locale's encoding, with which
  it reads (\<open>config.ini\<close> is taken as UTF-8, as it is written), the choices of \<open>click\<close> (any text is taken as a role), the parsing of certificates by \<open>cryptography\<close> (the function that reads a common name is a parameter),
  the TLS handshake, directories and file permissions, and the tests and Ansible
  files under \<open>src/tests\<close> and \<open>src/ansible\<close>: they call libraries or configure the host and hold no logic of the program.
\<close>

end
